(* ===== verification/Apt_Prelude.thy ===== *)
theory Apt_Prelude
  imports Main "HOL-Library.Word" "HOL-Library.Monad_Syntax"
begin

text \<open>
  Shared vocabulary of the development: the type synonyms of the C scalar types the sources use,
  the fact collections the component proofs draw on, and the generic lemmas on lists, options and
  bounded indices that more than one component needs.

  Conventions used throughout:
  \<^item> \<open>apt_bool_t\<close> is \<^typ>\<open>bool\<close>; \<open>apr_uint32_t\<close> is \<open>u32\<close>; \<open>apr_size_t\<close> is \<^typ>\<open>nat\<close> where it only
    counts, and \<open>u64\<close> where a subtraction can wrap;
  \<^item> a function that may dereference a NULL pointer, call a NULL function pointer or access memory out of
    bounds returns an \<open>option\<close>: \<^const>\<open>None\<close> is that fault, and a theorem that a handler is safe states
    that the result is \<^const>\<open>Some\<close>;
  \<^item> a pointer that may be NULL is an \<open>option\<close> in the state.
\<close>

type_synonym u8 = "8 word"
type_synonym u16 = "16 word"
type_synonym u32 = "32 word"
type_synonym u64 = "64 word"

type_synonym apr_size = nat
type_synonym apt_str = string

named_theorems c_defs \<open>definitions unfolded when a handler is executed symbolically\<close>
named_theorems c_frame \<open>fields a handler leaves unchanged\<close>
named_theorems c_len \<open>length facts about readers and writers\<close>

section \<open>Options as faults\<close>

lemma bind_eq_SomeE:
  assumes "Option.bind x f = Some y"
  obtains a where "x = Some a" and "f a = Some y"
  using assms by (cases x) auto

lemma bind_not_None:
  assumes "x \<noteq> None" and "\<And>a. x = Some a \<Longrightarrow> f a \<noteq> None"
  shows "Option.bind x f \<noteq> None"
  using assms by (cases x) auto

section \<open>Circular indices\<close>

text \<open>Indices into a circular array: distinct offsets below the size give distinct cells.\<close>

lemma mod_add_inj_le:
  fixes t i j n :: nat
  assumes "i \<le> j" and "j < n" and "(t + i) mod n = (t + j) mod n"
  shows "i = j"
proof -
  have "n dvd j - i"
    using mod_eq_dvd_iff_nat[of "t + i" "t + j" n] assms(1,3) by simp
  moreover have "j - i < n"
    using assms(2) by simp
  ultimately have "j - i = 0"
    using dvd_imp_le[of n "j - i"] by (cases "j - i = 0") auto
  then show ?thesis
    using assms(1) by simp
qed

lemma mod_add_inj:
  fixes t i j n :: nat
  assumes "i < n" and "j < n" and "(t + i) mod n = (t + j) mod n"
  shows "i = j"
  using mod_add_inj_le[of i j n t] mod_add_inj_le[of j i n t] assms by (cases "i \<le> j") auto

lemma map_nth_upt_rotate:
  assumes "h < length xs"
  shows "map (\<lambda>i. xs ! ((h + i) mod length xs)) [0..<length xs] = drop h xs @ take h xs"
proof (rule nth_equalityI)
  fix i
  assume "i < length (map (\<lambda>i. xs ! ((h + i) mod length xs)) [0..<length xs])"
  then have i: "i < length xs" by simp
  show "map (\<lambda>i. xs ! ((h + i) mod length xs)) [0..<length xs] ! i = (drop h xs @ take h xs) ! i"
  proof (cases "h + i < length xs")
    case True
    then have "i < length xs - h" by arith
    with True i show ?thesis by (simp add: nth_append)
  next
    case False
    then have "(h + i) mod length xs = h + i - length xs"
      using i assms by (simp add: mod_if)
    moreover have "i - (length xs - h) = h + i - length xs" and "\<not> i < length xs - h"
      using False assms by arith+
    ultimately show ?thesis using i False assms by (simp add: nth_append)
  qed
qed (use assms in simp)

text \<open>Splitting a list at the first separator.\<close>

lemma takeWhile_sep: "a \<notin> set f \<Longrightarrow> takeWhile (\<lambda>c. c \<noteq> a) (f @ a # rest) = f"
  by (induction f) auto

lemma dropWhile_sep: "a \<notin> set f \<Longrightarrow> dropWhile (\<lambda>c. c \<noteq> a) (f @ a # rest) = a # rest"
  by (induction f) auto

lemma takeWhile_no_sep: "a \<notin> set f \<Longrightarrow> takeWhile (\<lambda>c. c \<noteq> a) f = f"
  by (induction f) auto

lemma dropWhile_no_sep: "a \<notin> set f \<Longrightarrow> dropWhile (\<lambda>c. c \<noteq> a) f = []"
  by (induction f) auto

lemma dropWhile_head: "xs = [] \<or> \<not> P (hd xs) \<Longrightarrow> dropWhile P xs = xs"
  by (cases xs) auto

text \<open>Storing a list of values under their distinct keys.\<close>

lemma map_upds_map_of:
  "distinct (map key fs) \<Longrightarrow> m(map key fs [\<mapsto>] fs) = m ++ map_of (map (\<lambda>f. (key f, f)) fs)"
proof (induction fs arbitrary: m)
  case (Cons f fs)
  then have "map_of (map (\<lambda>f. (key f, f)) fs) (key f) = None"
    by (auto simp: map_of_eq_None_iff)
  with Cons show ?case
    by (auto simp: map_add_def fun_eq_iff split: option.splits)
qed simp

text \<open>A number below a numeral is one of the numerals below it.\<close>

lemma less_numeral_cases: "(k::nat) < numeral n \<longleftrightarrow> k = pred_numeral n \<or> k < pred_numeral n"
  by (simp add: numeral_eq_Suc less_Suc_eq disj_commute)

lemmas numeral_cases = less_numeral_cases pred_numeral_simps BitM.simps

end
