(* ===== verification/Fifo_Queue.thy ===== *)
theory Fifo_Queue
  imports Apt_Prelude
begin

text \<open>
  The contract of an unbounded first-in-first-out queue, as the locale \<open>fifo_queue\<close>: what a client may rely
  on of \<open>push\<close> and \<open>pop\<close>. Its main consequence is proved once, for any interleaving of the two operations:
  the implementation never faults and its answers are those of a plain list.
\<close>

datatype 'a queue_op = Enq 'a | Deq

fun queue_run ::
  "('q \<Rightarrow> 'a \<Rightarrow> 'q option) \<Rightarrow> ('q \<Rightarrow> 'a option \<times> 'q) \<Rightarrow> 'a queue_op list \<Rightarrow> 'q \<Rightarrow> ('a option list \<times> 'q) option"
where
  "queue_run push pop [] q = Some ([], q)"
| "queue_run push pop (Enq x # ops) q =
     (case push q x of None \<Rightarrow> None | Some q' \<Rightarrow> queue_run push pop ops q')"
| "queue_run push pop (Deq # ops) q =
     (let (r, q') = pop q in map_option (\<lambda>(rs, q''). (r # rs, q'')) (queue_run push pop ops q'))"

text \<open>The specification: a list, appended to at the end and taken from at the front.\<close>

fun fifo_run :: "'a queue_op list \<Rightarrow> 'a list \<Rightarrow> 'a option list \<times> 'a list" where
  "fifo_run [] xs = ([], xs)"
| "fifo_run (Enq x # ops) xs = fifo_run ops (xs @ [x])"
| "fifo_run (Deq # ops) xs =
     (let (rs, ys) = fifo_run ops (tl xs)
      in ((case xs of [] \<Rightarrow> None | x # _ \<Rightarrow> Some x) # rs, ys))"

locale fifo_queue =
  fixes push :: "'q \<Rightarrow> 'a \<Rightarrow> 'q option"
    and pop :: "'q \<Rightarrow> 'a option \<times> 'q"
    and contents :: "'q \<Rightarrow> 'a list"
    and invar :: "'q \<Rightarrow> bool"
  assumes push_ok: "invar q \<Longrightarrow> \<exists>q'. push q x = Some q' \<and> invar q' \<and> contents q' = contents q @ [x]"
    and pop_result: "invar q \<Longrightarrow> fst (pop q) = (case contents q of [] \<Rightarrow> None | x # _ \<Rightarrow> Some x)"
    and pop_contents: "invar q \<Longrightarrow> contents (snd (pop q)) = tl (contents q)"
    and pop_invar: "invar q \<Longrightarrow> invar (snd (pop q))"
begin

theorem run_refines_list:
  assumes "invar q"
  shows "\<exists>q'. queue_run push pop ops q = Some (fst (fifo_run ops (contents q)), q') \<and>
     invar q' \<and> contents q' = snd (fifo_run ops (contents q))"
  using assms
proof (induction ops arbitrary: q)
  case Nil
  then show ?case by simp
next
  case (Cons a ops)
  show ?case
  proof (cases a)
    case (Enq x)
    obtain q1 where "push q x = Some q1" "invar q1" "contents q1 = contents q @ [x]"
      using push_ok[OF Cons.prems] by blast
    with Cons.IH[of q1] Enq show ?thesis by simp
  next
    case Deq
    with Cons.IH[OF pop_invar[OF Cons.prems]] pop_result[OF Cons.prems] pop_contents[OF Cons.prems]
    show ?thesis by (auto simp: split_beta)
  qed
qed

end

end
