(* ===== verification/Apt_Cyclic_Queue.thy ===== *)
theory Apt_Cyclic_Queue
  imports Apt_Prelude Fifo_Queue
begin

text \<open>
  The growable circular queue of \<open>libs/apr-toolkit/src/apt_cyclic_queue.c\<close>, the message queue of the media
  engine and of the poller task. The interface its clients rely on is the locale \<open>fifo_queue\<close>; the
  interpretation at the end of the theory discharges its laws for the array implementation.
\<close>

section \<open>The array and its operations\<close>

text \<open>A cell of the array returned by \<open>malloc\<close> holds nothing until it is written.\<close>

record 'a apt_cyclic_queue =
  cq_data :: "'a option list"
  max_size :: nat
  actual_size :: nat
  cq_head :: nat
  cq_tail :: nat

definition apt_cyclic_queue_create :: "nat \<Rightarrow> 'a apt_cyclic_queue" where
  "apt_cyclic_queue_create sz =
     \<lparr>cq_data = replicate sz None, max_size = sz, actual_size = 0, cq_head = 0, cq_tail = 0\<rparr>"

definition apt_cyclic_queue_resize :: "'a apt_cyclic_queue \<Rightarrow> 'a apt_cyclic_queue" where
  "apt_cyclic_queue_resize queue =
     (let new_size = max_size queue + max_size queue div 2;
          offset = max_size queue - cq_head queue;
          new_data = take offset (drop (cq_head queue) (cq_data queue)) @
                     take (cq_head queue) (cq_data queue)
      in queue\<lparr>cq_tail := 0, cq_head := max_size queue,
               cq_data := new_data @ replicate (new_size - length new_data) None,
               max_size := new_size\<rparr>)"

text \<open>
  \<open>queue->data[queue->head] = obj\<close> is an out-of-bounds write when the array did not grow, which is the
  fault \<^const>\<open>None\<close>; otherwise the push succeeds.
\<close>

definition apt_cyclic_queue_push :: "'a apt_cyclic_queue \<Rightarrow> 'a \<Rightarrow> 'a apt_cyclic_queue option" where
  "apt_cyclic_queue_push queue obj =
     (let queue = (if actual_size queue \<ge> max_size queue then apt_cyclic_queue_resize queue else queue)
      in if cq_head queue < length (cq_data queue)
         then Some (queue\<lparr>cq_data := (cq_data queue)[cq_head queue := Some obj],
                          cq_head := (cq_head queue + 1) mod max_size queue,
                          actual_size := actual_size queue + 1\<rparr>)
         else None)"

definition apt_cyclic_queue_pop :: "'a apt_cyclic_queue \<Rightarrow> 'a option \<times> 'a apt_cyclic_queue" where
  "apt_cyclic_queue_pop queue =
     (if actual_size queue \<noteq> 0
      then (cq_data queue ! cq_tail queue,
            queue\<lparr>cq_tail := (cq_tail queue + 1) mod max_size queue,
                  actual_size := actual_size queue - 1\<rparr>)
      else (None, queue))"

definition apt_cyclic_queue_clear :: "'a apt_cyclic_queue \<Rightarrow> 'a apt_cyclic_queue" where
  "apt_cyclic_queue_clear queue = queue\<lparr>actual_size := 0, cq_head := 0, cq_tail := 0\<rparr>"

definition apt_cyclic_queue_is_empty :: "'a apt_cyclic_queue \<Rightarrow> bool" where
  "apt_cyclic_queue_is_empty queue = (if actual_size queue \<noteq> 0 then True else False)"

section \<open>Invariant and abstraction\<close>

definition cq_invar :: "'a apt_cyclic_queue \<Rightarrow> bool" where
  "cq_invar q \<longleftrightarrow>
     2 \<le> max_size q \<and> length (cq_data q) = max_size q \<and> actual_size q \<le> max_size q \<and>
     cq_tail q < max_size q \<and> cq_head q = (cq_tail q + actual_size q) mod max_size q \<and>
     (\<forall>i < actual_size q. cq_data q ! ((cq_tail q + i) mod max_size q) \<noteq> None)"

definition cq_list :: "'a apt_cyclic_queue \<Rightarrow> 'a list" where
  "cq_list q = map (\<lambda>i. the (cq_data q ! ((cq_tail q + i) mod max_size q))) [0..<actual_size q]"

lemma cq_invarD:
  assumes "cq_invar q"
  shows "2 \<le> max_size q" "length (cq_data q) = max_size q" "actual_size q \<le> max_size q"
    "cq_tail q < max_size q" "cq_head q = (cq_tail q + actual_size q) mod max_size q"
    "i < actual_size q \<Longrightarrow> cq_data q ! ((cq_tail q + i) mod max_size q) \<noteq> None"
  using assms by (auto simp: cq_invar_def)

lemma cq_invar_create: "2 \<le> n \<Longrightarrow> cq_invar (apt_cyclic_queue_create n)"
  by (simp add: cq_invar_def apt_cyclic_queue_create_def)

lemma cq_list_create: "cq_list (apt_cyclic_queue_create n) = []"
  by (simp add: cq_list_def apt_cyclic_queue_create_def)

lemma cq_head_less: "cq_invar q \<Longrightarrow> cq_head q < max_size q"
  by (auto simp: cq_invar_def)

text \<open>A full queue has its head on its tail, so the two copied blocks are its contents in order.\<close>

lemma cq_full_head:
  assumes "cq_invar q" and "actual_size q = max_size q"
  shows "cq_head q = cq_tail q"
  using cq_invarD[OF assms(1)] assms(2) by simp

lemma cq_resize_data:
  assumes "cq_invar q" and "actual_size q = max_size q"
  shows "take (max_size q) (cq_data (apt_cyclic_queue_resize q)) =
           map (\<lambda>i. cq_data q ! ((cq_tail q + i) mod max_size q)) [0..<max_size q]"
proof -
  have len: "length (cq_data q) = max_size q" and h: "cq_tail q < max_size q"
    and ht: "cq_head q = cq_tail q"
    using cq_invarD[OF assms(1)] cq_full_head[OF assms] by auto
  have "map (\<lambda>i. cq_data q ! ((cq_tail q + i) mod max_size q)) [0..<max_size q] =
          drop (cq_tail q) (cq_data q) @ take (cq_tail q) (cq_data q)"
    using map_nth_upt_rotate[of "cq_tail q" "cq_data q"] h len by simp
  then show ?thesis
    using len h ht by (simp add: apt_cyclic_queue_resize_def Let_def)
qed

lemma cq_resize_fields:
  "max_size (apt_cyclic_queue_resize q) = max_size q + max_size q div 2"
  "actual_size (apt_cyclic_queue_resize q) = actual_size q"
  "cq_head (apt_cyclic_queue_resize q) = max_size q"
  "cq_tail (apt_cyclic_queue_resize q) = 0"
  by (simp_all add: apt_cyclic_queue_resize_def Let_def)

lemma cq_resize_length:
  "cq_invar q \<Longrightarrow> length (cq_data (apt_cyclic_queue_resize q)) = max_size (apt_cyclic_queue_resize q)"
  using cq_head_less[of q] by (auto simp: apt_cyclic_queue_resize_def Let_def cq_invar_def)

lemma cq_resize_nth:
  assumes "cq_invar q" and "actual_size q = max_size q" and "i < max_size q"
  shows "cq_data (apt_cyclic_queue_resize q) ! i = cq_data q ! ((cq_tail q + i) mod max_size q)"
proof -
  have "cq_data (apt_cyclic_queue_resize q) ! i =
          take (max_size q) (cq_data (apt_cyclic_queue_resize q)) ! i"
    using assms(3) by simp
  then show ?thesis
    using assms(3) by (simp add: cq_resize_data[OF assms(1,2)])
qed

text \<open>Growing keeps the invariant and the contents.\<close>

lemma cq_resize_invar:
  assumes "cq_invar q" and "actual_size q = max_size q"
  shows "cq_invar (apt_cyclic_queue_resize q)"
proof -
  note D = cq_invarD[OF assms(1)]
  have "2 \<le> max_size (apt_cyclic_queue_resize q)"
    using D(1) by (simp add: cq_resize_fields)
  moreover have "max_size q < max_size q + max_size q div 2"
    using D(1) by simp
  moreover have "cq_data (apt_cyclic_queue_resize q) ! i \<noteq> None" if "i < max_size q" for i
    using cq_resize_nth[OF assms that] D(6)[of i] assms(2) that by simp
  ultimately show ?thesis
    unfolding cq_invar_def cq_resize_length[OF assms(1)]
    using assms(2) by (auto simp: cq_resize_fields)
qed

lemma cq_resize_list:
  assumes "cq_invar q" and "actual_size q = max_size q"
  shows "cq_list (apt_cyclic_queue_resize q) = cq_list q"
  unfolding cq_list_def
  using cq_resize_nth[OF assms] assms(2) by (auto simp: cq_resize_fields)

text \<open>Writing the head cell of a queue with a free cell appends the object.\<close>

definition cq_store :: "'a apt_cyclic_queue \<Rightarrow> 'a \<Rightarrow> 'a apt_cyclic_queue" where
  "cq_store q x = q\<lparr>cq_data := (cq_data q)[cq_head q := Some x],
                    cq_head := (cq_head q + 1) mod max_size q, actual_size := actual_size q + 1\<rparr>"

lemma cq_store_nth:
  assumes "cq_invar q" and "actual_size q < max_size q" and "i \<le> actual_size q"
  shows "cq_data (cq_store q x) ! ((cq_tail q + i) mod max_size q) =
     (if i = actual_size q then Some x else cq_data q ! ((cq_tail q + i) mod max_size q))"
proof -
  note D = cq_invarD[OF assms(1)]
  have "(cq_tail q + i) mod max_size q = cq_head q \<longleftrightarrow> i = actual_size q"
    using mod_add_inj[of i "max_size q" "actual_size q" "cq_tail q"] D(5) assms by auto
  moreover have "cq_head q < length (cq_data q)"
    using D cq_head_less[OF assms(1)] by simp
  ultimately show ?thesis
    by (auto simp: cq_store_def nth_list_update)
qed

lemma cq_store_invar:
  assumes "cq_invar q" and "actual_size q < max_size q"
  shows "cq_invar (cq_store q x)"
proof -
  note D = cq_invarD[OF assms(1)]
  have "cq_data (cq_store q x) ! ((cq_tail q + i) mod max_size q) \<noteq> None"
    if "i < Suc (actual_size q)" for i
    using cq_store_nth[OF assms, of i x] D(6)[of i] that by auto
  moreover have "(cq_head q + 1) mod max_size q = (cq_tail q + Suc (actual_size q)) mod max_size q"
    by (simp add: D(5) mod_Suc_eq)
  ultimately show ?thesis
    using D assms(2) by (auto simp: cq_invar_def cq_store_def)
qed

lemma cq_store_list:
  assumes "cq_invar q" and "actual_size q < max_size q"
  shows "cq_list (cq_store q x) = cq_list q @ [x]"
proof -
  have "cq_list (cq_store q x) =
          map (\<lambda>i. the (cq_data (cq_store q x) ! ((cq_tail q + i) mod max_size q))) [0..<Suc (actual_size q)]"
    by (simp add: cq_list_def cq_store_def)
  also have "\<dots> = cq_list q @ [x]"
    using cq_store_nth[OF assms] by (auto simp: cq_list_def)
  finally show ?thesis .
qed

section \<open>The operations against the abstraction\<close>

lemma cq_push_eq:
  assumes "cq_invar q"
  shows "apt_cyclic_queue_push q x =
     Some (cq_store (if actual_size q = max_size q then apt_cyclic_queue_resize q else q) x)"
  using cq_invarD[OF assms] cq_head_less[OF assms] cq_resize_length[OF assms]
  by (auto simp: apt_cyclic_queue_push_def cq_store_def Let_def cq_resize_fields)

lemma cq_push_room:
  assumes "cq_invar q"
  defines "q' \<equiv> (if actual_size q = max_size q then apt_cyclic_queue_resize q else q)"
  shows "cq_invar q'" and "actual_size q' < max_size q'" and "cq_list q' = cq_list q"
  using assms(1) cq_resize_invar[OF assms(1)] cq_resize_list[OF assms(1)] cq_invarD(1,3)[OF assms(1)]
  by (auto simp: q'_def cq_resize_fields)

lemma cq_push:
  assumes "cq_invar q"
  shows "\<exists>q'. apt_cyclic_queue_push q x = Some q' \<and> cq_invar q' \<and> cq_list q' = cq_list q @ [x]"
  using cq_push_eq[OF assms, of x] cq_push_room[OF assms] cq_store_invar cq_store_list by metis

lemma cq_tail_shift:
  "(Suc (cq_tail q) mod max_size q + i) mod max_size q = (cq_tail q + Suc i) mod max_size q"
  by (metis add_Suc_shift mod_add_left_eq)

lemma cq_list_Suc:
  assumes "cq_invar q" and "actual_size q = Suc n"
  shows "cq_list q = the (cq_data q ! cq_tail q) #
     map (\<lambda>i. the (cq_data q ! ((cq_tail q + Suc i) mod max_size q))) [0..<n]"
proof -
  have "[0..<Suc n] = 0 # map Suc [0..<n]"
    by (simp add: upt_conv_Cons map_Suc_upt del: upt_Suc)
  then show ?thesis
    unfolding cq_list_def assms(2) using cq_invarD(4)[OF assms(1)] by (simp del: upt_Suc)
qed

lemma cq_pop_result:
  assumes "cq_invar q"
  shows "fst (apt_cyclic_queue_pop q) = (case cq_list q of [] \<Rightarrow> None | x # _ \<Rightarrow> Some x)"
proof (cases "actual_size q")
  case 0
  then show ?thesis by (simp add: apt_cyclic_queue_pop_def cq_list_def)
next
  case (Suc n)
  then have "cq_data q ! cq_tail q \<noteq> None"
    using cq_invarD(4)[OF assms] cq_invarD(6)[OF assms, of 0] by simp
  then show ?thesis
    using Suc by (auto simp: cq_list_Suc[OF assms Suc] apt_cyclic_queue_pop_def)
qed

lemma cq_pop_list:
  assumes "cq_invar q"
  shows "cq_list (snd (apt_cyclic_queue_pop q)) = tl (cq_list q)"
proof (cases "actual_size q")
  case 0
  then show ?thesis by (simp add: apt_cyclic_queue_pop_def cq_list_def)
next
  case (Suc n)
  then show ?thesis
    unfolding cq_list_Suc[OF assms Suc] by (simp add: apt_cyclic_queue_pop_def cq_list_def cq_tail_shift)
qed

lemma cq_pop_invar:
  assumes "cq_invar q"
  shows "cq_invar (snd (apt_cyclic_queue_pop q))"
proof (cases "actual_size q")
  case (Suc n)
  have "cq_data q ! (Suc (cq_tail q + i) mod max_size q) \<noteq> None" if "i < n" for i
    using cq_invarD(6)[OF assms, of "Suc i"] Suc that by simp
  moreover have "0 < max_size q"
    using cq_invarD(1)[OF assms] by simp
  ultimately show ?thesis
    using Suc cq_invarD(1-5)[OF assms] unfolding cq_invar_def
    by (auto simp: apt_cyclic_queue_pop_def cq_tail_shift)
qed (use assms in \<open>simp add: apt_cyclic_queue_pop_def\<close>)

lemma cq_clear:
  "cq_invar q \<Longrightarrow> cq_invar (apt_cyclic_queue_clear q) \<and> cq_list (apt_cyclic_queue_clear q) = []"
  by (auto simp: cq_invar_def cq_list_def apt_cyclic_queue_clear_def)

interpretation cq: fifo_queue apt_cyclic_queue_push apt_cyclic_queue_pop cq_list cq_invar
  by unfold_locales (simp_all add: cq_push cq_pop_result cq_pop_list cq_pop_invar)

section \<open>Properties\<close>

text \<open>
  C11: A queue created with at least two cells is a first-in-first-out queue: for every sequence of pushes and
  pops, however often it has to grow, no access leaves the array, and the popped objects are those a list
  appended to at the end and taken from at the front would give (NULL when it is empty).
\<close>

theorem cyclic_queue_fifo:
  assumes "2 \<le> n"
  shows "\<exists>q'. queue_run apt_cyclic_queue_push apt_cyclic_queue_pop ops (apt_cyclic_queue_create n) =
                Some (fst (fifo_run ops []), q') \<and> cq_list q' = snd (fifo_run ops [])"
  using cq.run_refines_list[OF cq_invar_create[OF assms], of ops] by (auto simp: cq_list_create)

theorem cyclic_queue_fifo_witness:
  "2 \<le> (2::nat) \<and>
   (\<exists>q'. queue_run apt_cyclic_queue_push apt_cyclic_queue_pop
            [Enq 7, Deq, Enq 1, Enq 2, Enq (3::int), Deq] (apt_cyclic_queue_create 2) =
            Some ([Some 7, Some 1], q') \<and> cq_list q' = [2, 3])"
  using cyclic_queue_fifo[of 2 "[Enq 7, Deq, Enq 1, Enq 2, Enq (3::int), Deq]"] by simp

text \<open>
  \<open>apt_cyclic_queue_is_empty\<close> answers the opposite of its name: on every queue it is true exactly when the
  queue holds an object.
\<close>

lemma cyclic_queue_is_empty_inverted:
  "apt_cyclic_queue_is_empty q \<longleftrightarrow> cq_list q \<noteq> []"
  by (simp add: apt_cyclic_queue_is_empty_def cq_list_def)

text \<open>
  The growth step does not grow an array of one cell: the second push on a queue created with one cell
  writes past the end of the array, so the bound of two cells is sharp.
\<close>

lemma cyclic_queue_one_cell_overflow:
  "apt_cyclic_queue_push (apt_cyclic_queue_create 1) x \<bind> (\<lambda>q. apt_cyclic_queue_push q y) = None"
  by (simp add: apt_cyclic_queue_push_def apt_cyclic_queue_create_def apt_cyclic_queue_resize_def)

end
