(* ===== verification/Apt_String.thy ===== *)
theory Apt_String
  imports Apt_Prelude
begin

text \<open>
  Strings of \<open>libs/apr-toolkit/include/apt_string.h\<close>, the string tables of
  \<open>libs/apr-toolkit/src/apt_string_table.c\<close>, and what the sources use of the C library on text: \<open>tolower\<close>,
  \<open>strncasecmp\<close>, \<open>atol\<close> and decimal printing. An \<open>apt_str_t\<close> (buffer and length) is the list of its
  characters; a NULL buffer is the empty list.

  The printing routines of APR (\<open>apr_snprintf\<close>, \<open>apr_psprintf\<close>) are not part of the sources. They are the
  argument \<open>apr\<close> of the definitions that print, and \<open>apr_fmt_ok\<close> states their documented behaviour.
\<close>

section \<open>Characters and the C library\<close>

definition tolower :: "char \<Rightarrow> char" where
  "tolower c = (if 65 \<le> (of_char c :: nat) \<and> (of_char c :: nat) \<le> 90 then char_of (of_char c + 32 :: nat) else c)"

definition isspace :: "char \<Rightarrow> bool" where
  "isspace c \<longleftrightarrow> c \<in> {CHR 0x20, CHR 0x09, CHR 0x0A, CHR 0x0B, CHR 0x0C, CHR 0x0D}"

definition isdigit :: "char \<Rightarrow> bool" where
  "isdigit c \<longleftrightarrow> 48 \<le> (of_char c :: nat) \<and> (of_char c :: nat) \<le> 57"

definition digit_val :: "char \<Rightarrow> nat" where
  "digit_val c = of_char c - 48"

definition digit_char :: "nat \<Rightarrow> char" where
  "digit_char d = char_of (48 + d)"

text \<open>\<open>strncasecmp (a, b, n) = 0\<close> for buffers that hold at least \<open>n\<close> characters or end before.\<close>

definition strncaseeq :: "string \<Rightarrow> string \<Rightarrow> nat \<Rightarrow> bool" where
  "strncaseeq a b n \<longleftrightarrow> map tolower (take n a) = map tolower (take n b)"

fun dec_val_acc :: "nat \<Rightarrow> string \<Rightarrow> nat" where
  "dec_val_acc a [] = a"
| "dec_val_acc a (c # cs) = (if isdigit c then dec_val_acc (10 * a + digit_val c) cs else a)"

definition clamp_long :: "int \<Rightarrow> int" where
  "clamp_long v = max (- (2 ^ 63)) (min v (2 ^ 63 - 1))"

definition atol :: "string \<Rightarrow> int" where
  "atol s =
     (case dropWhile isspace s of
        [] \<Rightarrow> 0
      | c # cs \<Rightarrow>
          if c = CHR ''-'' then clamp_long (- int (dec_val_acc 0 cs))
          else if c = CHR ''+'' then clamp_long (int (dec_val_acc 0 cs))
          else clamp_long (int (dec_val_acc 0 (c # cs))))"

text \<open>Decimal digits of a number, as \<open>printf\<close> writes them.\<close>

fun dec :: "nat \<Rightarrow> string" where
  "dec n = (if n < 10 then [digit_char n] else dec (n div 10) @ [digit_char (n mod 10)])"

declare dec.simps [simp del]

definition dec_int :: "int \<Rightarrow> string" where
  "dec_int v = (if v < 0 then CHR ''-'' # dec (nat (- v)) else dec (nat v))"

section \<open>Printing through APR\<close>

record apr_fmt =
  apr_snprintf_size :: "nat \<Rightarrow> nat \<Rightarrow> string"
  apr_snprintf_d :: "nat \<Rightarrow> u32 \<Rightarrow> string"
  apr_psprintf_size :: "nat \<Rightarrow> string"

text \<open>
  \<open>apr_snprintf (buf, len, fmt, v)\<close> stores at most \<open>len - 1\<close> characters and the terminator and returns the
  number of characters stored; \<open>apr_psprintf\<close> allocates what it needs. The format of a request identifier is
  \<open>"%d"\<close>, so the unsigned value is printed as a signed one.
\<close>

definition apr_fmt_ok :: "apr_fmt \<Rightarrow> bool" where
  "apr_fmt_ok apr \<longleftrightarrow>
     (\<forall>n v. apr_snprintf_size apr n v = take (n - 1) (dec v)) \<and>
     (\<forall>n v. apr_snprintf_d apr n v = take (n - 1) (dec_int (sint v))) \<and>
     (\<forall>v. apr_psprintf_size apr v = dec v)"

definition apr_std :: apr_fmt where
  "apr_std = \<lparr>apr_snprintf_size = (\<lambda>n v. take (n - 1) (dec v)),
              apr_snprintf_d = (\<lambda>n v. take (n - 1) (dec_int (sint v))),
              apr_psprintf_size = dec\<rparr>"

lemma apr_std_ok: "apr_fmt_ok apr_std"
  by (simp add: apr_fmt_ok_def apr_std_def)

lemma apr_fmt_okD:
  assumes "apr_fmt_ok apr"
  shows "apr_snprintf_size apr n v = take (n - 1) (dec v)"
    and "apr_snprintf_d apr n w = take (n - 1) (dec_int (sint w))"
    and "apr_psprintf_size apr v = dec v"
  using assms by (simp_all add: apr_fmt_ok_def)

section \<open>Letters\<close>

text \<open>Folding case on the bits of a character, for evaluation.\<close>

lemma tolower_Char [code]:
  "tolower (Char b0 b1 b2 b3 b4 b5 b6 b7) =
     (if \<not> b7 \<and> b6 \<and> \<not> b5 \<and> (b0 \<or> b1 \<or> b2 \<or> b3 \<or> b4) \<and> \<not> (b4 \<and> b3 \<and> (b2 \<or> b1 \<and> b0))
      then Char b0 b1 b2 b3 b4 True b6 b7 else Char b0 b1 b2 b3 b4 b5 b6 b7)"
  by (cases b0; cases b1; cases b2; cases b3; cases b4; cases b5; cases b6; cases b7)
    (simp_all add: tolower_def char_of_def bit_0)

section \<open>Digits\<close>

lemma digit_char_val:
  assumes "d < 10"
  shows "isdigit (digit_char d)" and "digit_val (digit_char d) = d"
  using assms by (simp_all add: isdigit_def digit_char_def digit_val_def)

lemma dec_small: "n < 10 \<Longrightarrow> dec n = [digit_char n]"
  by (subst dec.simps) simp

lemma dec_step: "10 \<le> n \<Longrightarrow> dec n = dec (n div 10) @ [digit_char (n mod 10)]"
  by (subst dec.simps) simp

lemma dec_nonempty [simp]: "dec n \<noteq> []"
  by (subst dec.simps) simp

lemma dec_digits: "\<forall>c \<in> set (dec n). isdigit c"
proof (induction n rule: dec.induct)
  case (1 n)
  then show ?case
    by (cases "n < 10") (auto simp: dec_small dec_step digit_char_val)
qed

lemma dec_val_acc_append:
  "\<forall>c \<in> set xs. isdigit c \<Longrightarrow> dec_val_acc a (xs @ ys) = dec_val_acc (dec_val_acc a xs) ys"
  by (induction xs arbitrary: a) auto

lemma dec_val_acc_dec: "dec_val_acc 0 (dec n) = n"
proof (induction n rule: dec.induct)
  case (1 n)
  show ?case
  proof (cases "n < 10")
    case True
    then show ?thesis by (simp add: dec_small digit_char_val)
  next
    case False
    with 1 have "dec_val_acc 0 (dec (n div 10)) = n div 10" by simp
    with False show ?thesis
      by (simp add: dec_step dec_val_acc_append dec_digits digit_char_val)
  qed
qed

text \<open>Digits stop at the first other character, so a field is read back whatever follows it.\<close>

lemma dec_val_acc_dec_append:
  assumes "rest = [] \<or> \<not> isdigit (hd rest)"
  shows "dec_val_acc 0 (dec n @ rest) = n"
  using assms by (cases rest) (auto simp: dec_val_acc_append dec_digits dec_val_acc_dec)

lemma isdigit_not_special:
  "isdigit c \<Longrightarrow> \<not> isspace c \<and> c \<noteq> CHR ''-'' \<and> c \<noteq> CHR ''+'' \<and> c \<noteq> CHR '':'' \<and> c \<noteq> CHR '','' \<and>
     c \<noteq> CHR 0x00"
  by (auto simp: isdigit_def isspace_def)

lemma clamp_long_id: "- (2 ^ 63) \<le> v \<Longrightarrow> v < 2 ^ 63 \<Longrightarrow> clamp_long v = v"
  by (simp add: clamp_long_def)

lemma dec_hd_digit: "isdigit (hd (dec n))"
  using dec_digits[of n] dec_nonempty[of n] by (meson hd_in_set)

lemma atol_dec:
  assumes "n < 2 ^ 63" and "rest = [] \<or> \<not> isdigit (hd rest)"
  shows "atol (dec n @ rest) = int n"
proof -
  obtain c cs where d: "dec n = c # cs"
    using dec_nonempty[of n] by (cases "dec n") auto
  have c: "isdigit c"
    using dec_hd_digit[of n] d by simp
  have "dropWhile isspace (dec n @ rest) = c # (cs @ rest)"
    using d isdigit_not_special[OF c] by simp
  moreover have "dec_val_acc 0 (c # (cs @ rest)) = n"
    using dec_val_acc_dec_append[OF assms(2), of n] d by simp
  ultimately show ?thesis
    using isdigit_not_special[OF c] assms(1) by (simp add: atol_def clamp_long_id)
qed

lemma atol_neg_dec:
  assumes "n \<le> 2 ^ 63" and "rest = [] \<or> \<not> isdigit (hd rest)"
  shows "atol (CHR ''-'' # dec n @ rest) = - int n"
  using dec_val_acc_dec_append[OF assms(2), of n] assms(1)
  by (simp add: atol_def isspace_def clamp_long_id)

lemma atol_dec_int:
  assumes "- (2 ^ 63) \<le> v" and "v < 2 ^ 63" and "rest = [] \<or> \<not> isdigit (hd rest)"
  shows "atol (dec_int v @ rest) = v"
  using assms atol_dec[of "nat v" rest] atol_neg_dec[of "nat (- v)" rest]
  by (auto simp: dec_int_def nat_less_iff nat_le_iff)

text \<open>The number of digits is what \<open>apt_var_length_value_generate\<close> counts by division.\<close>

lemma length_dec_bounds: "n < 10 ^ length (dec n) \<and> (0 < n \<longrightarrow> 10 ^ (length (dec n) - 1) \<le> n)"
proof (induction n rule: dec.induct)
  case (1 n)
  show ?case
  proof (cases "n < 10")
    case True
    then show ?thesis by (simp add: dec_small)
  next
    case False
    define k where "k = length (dec (n div 10))"
    have k: "0 < k" by (simp add: k_def)
    from False 1 have "n div 10 < 10 ^ k" and "10 ^ (k - 1) \<le> n div 10"
      by (auto simp: k_def)
    then have "n < 10 * 10 ^ k" and "10 * 10 ^ (k - 1) \<le> n"
      by auto
    moreover have "(10::nat) * 10 ^ (k - 1) = 10 ^ k"
      using k by (cases k) auto
    ultimately show ?thesis
      using False by (simp add: dec_step k_def)
  qed
qed

lemma length_dec_le:
  assumes "n < 10 ^ k" and "0 < k"
  shows "length (dec n) \<le> k"
proof (cases "n = 0")
  case True
  then show ?thesis using assms by (simp add: dec_small)
next
  case False
  show ?thesis
  proof (rule ccontr)
    assume "\<not> length (dec n) \<le> k"
    then have "(10::nat) ^ k \<le> 10 ^ (length (dec n) - 1)"
      by (intro power_increasing) auto
    with assms(1) length_dec_bounds[of n] False show False by linarith
  qed
qed

lemma length_dec_unique:
  assumes "10 ^ k \<le> n" and "n < 10 ^ Suc k"
  shows "length (dec n) = Suc k"
proof -
  have "0 < n" using assms(1) by (metis gr0I not_one_le_zero one_le_numeral one_le_power order_trans)
  have "length (dec n) \<le> Suc k"
    using length_dec_le[OF assms(2)] by simp
  moreover have "k < length (dec n)"
  proof (rule ccontr)
    assume "\<not> k < length (dec n)"
    then have "(10::nat) ^ length (dec n) \<le> 10 ^ k"
      by (intro power_increasing) auto
    with length_dec_bounds[of n] assms(1) show False by linarith
  qed
  ultimately show ?thesis by simp
qed

section \<open>Comparison and string tables\<close>

definition apt_string_compare :: "apt_str \<Rightarrow> apt_str \<Rightarrow> bool" where
  "apt_string_compare s t \<longleftrightarrow>
     (if length s \<noteq> length t \<or> length s = 0 then False else strncaseeq s t (length s))"

definition apt_strings_compare :: "apt_str \<Rightarrow> apt_str \<Rightarrow> bool" where
  "apt_strings_compare s t \<longleftrightarrow>
     (if length s \<noteq> length t then False else if length s = 0 then True else strncaseeq s t (length s))"

record apt_str_table_item =
  item_value :: apt_str
  item_key :: nat

definition apt_string_table_str_get :: "apt_str_table_item list \<Rightarrow> nat \<Rightarrow> nat \<Rightarrow> apt_str option" where
  "apt_string_table_str_get table n i = (if i < n then Some (item_value (table ! i)) else None)"

text \<open>One iteration of the search: the key character is compared before the whole string.\<close>

definition table_item_match :: "apt_str_table_item \<Rightarrow> apt_str \<Rightarrow> bool" where
  "table_item_match item val \<longleftrightarrow>
     (if length (item_value item) \<noteq> length val then False
      else if item_key item < length val
      then (if length val = length (item_value item) \<and>
               tolower (item_value item ! item_key item) = tolower (val ! item_key item)
            then apt_string_compare (item_value item) val else False)
      else apt_string_compare (item_value item) val)"

fun table_search :: "apt_str_table_item list \<Rightarrow> nat \<Rightarrow> nat \<Rightarrow> apt_str \<Rightarrow> nat" where
  "table_search table i 0 val = i"
| "table_search table i (Suc k) val =
     (if table_item_match (table ! i) val then i else table_search table (Suc i) k val)"

definition apt_string_table_id_find :: "apt_str_table_item list \<Rightarrow> nat \<Rightarrow> apt_str \<Rightarrow> nat" where
  "apt_string_table_id_find table n val = table_search table 0 n val"

text \<open>The key character is only a filter: the search decides case-insensitive equality.\<close>

lemma table_item_match_iff:
  "table_item_match item val \<longleftrightarrow> val \<noteq> [] \<and> map tolower (item_value item) = map tolower val"
proof -
  have "tolower (item_value item ! k) = tolower (val ! k)"
    if "map tolower (item_value item) = map tolower val" and "k < length val" for k
    using that by (metis length_map nth_map)
  then show ?thesis
    by (auto simp: table_item_match_def apt_string_compare_def strncaseeq_def dest: map_eq_imp_length_eq)
qed

lemma table_search_le: "i \<le> table_search table i k val \<and> table_search table i k val \<le> i + k"
  by (induction table i k val rule: table_search.induct) auto

lemma table_search_none:
  "table_search table i k val = i + k \<longleftrightarrow> (\<forall>j < k. \<not> table_item_match (table ! (i + j)) val)"
proof (induction table i k val rule: table_search.induct)
  case (2 table i k val)
  have "(\<forall>j < Suc k. \<not> table_item_match (table ! (i + j)) val) \<longleftrightarrow>
        \<not> table_item_match (table ! i) val \<and> (\<forall>j < k. \<not> table_item_match (table ! (Suc i + j)) val)"
    by (auto simp: less_Suc_eq_0_disj)
  with 2 show ?case by auto
qed simp

lemma table_search_found:
  "table_search table i k val < i + k \<Longrightarrow>
     table_item_match (table ! table_search table i k val) val \<and>
     (\<forall>j. i \<le> j \<and> j < table_search table i k val \<longrightarrow> \<not> table_item_match (table ! j) val)"
proof (induction table i k val rule: table_search.induct)
  case (2 table i k val)
  show ?case
  proof (cases "table_item_match (table ! i) val")
    case False
    with 2 show ?thesis by (auto simp: le_less_Suc_eq Suc_le_eq intro: le_neq_implies_less)
  qed auto
qed simp

lemma table_id_find_le: "apt_string_table_id_find table n val \<le> n"
  using table_search_le[of 0 table n val] by (simp add: apt_string_table_id_find_def)

lemma table_find_less_iff:
  "apt_string_table_id_find table n val < n \<longleftrightarrow>
     val \<noteq> [] \<and> (\<exists>i < n. map tolower (item_value (table ! i)) = map tolower val)"
  using table_search_none[of table 0 n val] table_search_le[of 0 table n val]
  by (auto simp: apt_string_table_id_find_def table_item_match_iff le_less)

lemma table_find_match:
  "apt_string_table_id_find table n val < n \<Longrightarrow>
     map tolower (item_value (table ! apt_string_table_id_find table n val)) = map tolower val"
  using table_search_found[of table 0 n val]
  by (simp add: apt_string_table_id_find_def table_item_match_iff)



end
