(* ===== verification/Apt_Text_Stream.thy ===== *)
theory Apt_Text_Stream
  imports Apt_String
begin

text \<open>
  The text stream of \<open>libs/apr-toolkit/src/apt_text_stream.c\<close> and \<open>include/apt_text_stream.h\<close>: a memory block, the
  window \<open>text\<close> on it and the cursor. Readers move the cursor over \<open>[pos, end)\<close>; writers store at the cursor.
  All pointers of the C structure are offsets into the block. A store that leaves the block is the fault
  \<^const>\<open>None\<close>.
\<close>

section \<open>The stream\<close>

abbreviation APT_TOKEN_SP :: char where "APT_TOKEN_SP \<equiv> CHR 0x20"
abbreviation APT_TOKEN_HTAB :: char where "APT_TOKEN_HTAB \<equiv> CHR 0x09"
abbreviation APT_TOKEN_CR :: char where "APT_TOKEN_CR \<equiv> CHR 0x0D"
abbreviation APT_TOKEN_LF :: char where "APT_TOKEN_LF \<equiv> CHR 0x0A"
abbreviation APT_NUL :: char where "APT_NUL \<equiv> CHR 0x00"

record apt_text_stream =
  ts_mem :: string
  ts_buf :: nat
  ts_length :: nat
  ts_pos :: nat
  ts_end :: nat
  is_eos :: bool

definition apt_text_stream_reset :: "apt_text_stream \<Rightarrow> apt_text_stream" where
  "apt_text_stream_reset s = s\<lparr>ts_pos := ts_buf s, ts_end := ts_buf s + ts_length s, is_eos := False\<rparr>"

definition apt_text_stream_init :: "string \<Rightarrow> nat \<Rightarrow> apt_text_stream" where
  "apt_text_stream_init buffer n =
     apt_text_stream_reset
       \<lparr>ts_mem = buffer, ts_buf = 0, ts_length = n, ts_pos = 0, ts_end = 0, is_eos = False\<rparr>"

text \<open>What is left to read, and what a writer has produced so far.\<close>

definition ts_rest :: "apt_text_stream \<Rightarrow> string" where
  "ts_rest s = take (ts_end s - ts_pos s) (drop (ts_pos s) (ts_mem s))"

definition ts_written :: "apt_text_stream \<Rightarrow> string" where
  "ts_written s = take (ts_pos s - ts_buf s) (drop (ts_buf s) (ts_mem s))"

definition apt_text_is_wsp :: "char \<Rightarrow> bool" where
  "apt_text_is_wsp c \<longleftrightarrow> c = APT_TOKEN_SP \<or> c = APT_TOKEN_HTAB"

definition apt_text_is_eos :: "apt_text_stream \<Rightarrow> bool" where
  "apt_text_is_eos s \<longleftrightarrow> ts_end s \<le> ts_pos s \<or> is_eos s"

section \<open>Readers\<close>

text \<open>The loops \<open>while(pos < end && P(*pos)) pos++\<close> advance by the longest prefix satisfying \<open>P\<close>.\<close>

definition ts_skip :: "(char \<Rightarrow> bool) \<Rightarrow> apt_text_stream \<Rightarrow> apt_text_stream" where
  "ts_skip P s = s\<lparr>ts_pos := ts_pos s + length (takeWhile P (ts_rest s))\<rparr>"

definition apt_text_spaces_skip :: "apt_text_stream \<Rightarrow> apt_text_stream" where
  "apt_text_spaces_skip = ts_skip (\<lambda>c. c = APT_TOKEN_SP)"

definition apt_text_white_spaces_skip :: "apt_text_stream \<Rightarrow> apt_text_stream" where
  "apt_text_white_spaces_skip = ts_skip apt_text_is_wsp"

definition apt_text_chars_skip :: "char \<Rightarrow> apt_text_stream \<Rightarrow> apt_text_stream" where
  "apt_text_chars_skip ch = ts_skip (\<lambda>c. c = ch)"

definition apt_text_skip_to_char :: "char \<Rightarrow> apt_text_stream \<Rightarrow> apt_text_stream" where
  "apt_text_skip_to_char ch = ts_skip (\<lambda>c. c \<noteq> ch)"

definition apt_text_char_skip :: "char \<Rightarrow> apt_text_stream \<Rightarrow> apt_text_stream" where
  "apt_text_char_skip ch s =
     (case ts_rest s of [] \<Rightarrow> s | c # _ \<Rightarrow> if c = ch then s\<lparr>ts_pos := ts_pos s + 1\<rparr> else s)"

text \<open>A carriage return is followed by a line feed or not.\<close>

definition cr_length :: "string \<Rightarrow> nat" where
  "cr_length cs = (case cs of [] \<Rightarrow> 1 | d # _ \<Rightarrow> if d = APT_TOKEN_LF then 2 else 1)"

text \<open>Scan to the end of the line: the line, and how far the cursor moves, if there is an end of line.\<close>

fun line_scan :: "string \<Rightarrow> string \<times> nat option" where
  "line_scan [] = ([], None)"
| "line_scan (c # cs) =
     (if c = APT_TOKEN_CR then
        ([], Some (cr_length cs))
      else if c = APT_TOKEN_LF then ([], Some 1)
      else (let (line, n) = line_scan cs in (c # line, map_option Suc n)))"

definition apt_text_line_read :: "apt_text_stream \<Rightarrow> bool \<times> apt_str \<times> apt_text_stream" where
  "apt_text_line_read s =
     (case line_scan (ts_rest s) of
        (line, Some n) \<Rightarrow> (True, line, s\<lparr>ts_pos := ts_pos s + n\<rparr>)
      | (line, None) \<Rightarrow> (False, line, s\<lparr>is_eos := True\<rparr>))"

text \<open>
  The loop of \<open>apt_text_header_read\<close>. \<open>i\<close> is the distance from the start of the line, \<open>nb\<close> and \<open>vb\<close> the start of
  the name and of the value once seen, \<open>nl\<close> the length of the name once its colon was met. The result says
  whether an end of line was met, the distance to the next line and the four fields of the pair.
\<close>

definition span_end :: "nat option \<Rightarrow> nat \<Rightarrow> nat" where
  "span_end b i = (case b of None \<Rightarrow> 0 | Some k \<Rightarrow> i - k)"

fun header_scan ::
  "string \<Rightarrow> nat \<Rightarrow> nat option \<Rightarrow> nat \<Rightarrow> nat option \<Rightarrow> bool \<times> nat \<times> nat option \<times> nat \<times> nat option \<times> nat"
where
  "header_scan [] i nb nl vb = (False, i, nb, nl, vb, 0)"
| "header_scan (c # cs) i nb nl vb =
     (if c = APT_TOKEN_CR then
        (True, i + cr_length cs, nb, nl, vb, span_end vb i)
      else if c = APT_TOKEN_LF then (True, i + 1, nb, nl, vb, span_end vb i)
      else if nl = 0 then
        (let nb' = (if nb = None \<and> \<not> apt_text_is_wsp c then Some i else nb);
             nl' = (if c = CHR '':'' then span_end nb' i else nl)
         in header_scan cs (Suc i) nb' nl' vb)
      else
        (let vb' = (if vb = None \<and> \<not> apt_text_is_wsp c then Some i else vb)
         in header_scan cs (Suc i) nb nl vb'))"

definition span :: "string \<Rightarrow> nat option \<Rightarrow> nat \<Rightarrow> string" where
  "span txt b n = (case b of None \<Rightarrow> [] | Some k \<Rightarrow> take n (drop k txt))"

definition apt_text_header_read ::
  "apt_text_stream \<Rightarrow> bool \<times> apt_str \<times> apt_str \<times> apt_text_stream"
where
  "apt_text_header_read s =
     (case header_scan (ts_rest s) 0 None 0 None of
        (status, n, nb, nl, vb, vl) \<Rightarrow>
          (let name = span (ts_rest s) nb nl; val = span (ts_rest s) vb vl
           in if status then (\<not> (nl = 0 \<and> nb \<noteq> None), name, val, s\<lparr>ts_pos := ts_pos s + n\<rparr>)
              else (False, name, val, s\<lparr>is_eos := True\<rparr>)))"

definition apt_text_field_read ::
  "apt_text_stream \<Rightarrow> char \<Rightarrow> bool \<Rightarrow> bool \<times> apt_str \<times> apt_text_stream"
where
  "apt_text_field_read s separator skip_spaces =
     (let s1 = (if skip_spaces then ts_skip (\<lambda>c. c = APT_TOKEN_SP) s else s);
          field = takeWhile (\<lambda>c. c \<noteq> separator) (ts_rest s1);
          p = ts_pos s1 + length field;
          p' = (if p < ts_end s then p + 1 else p)
      in (field \<noteq> [], field, s1\<lparr>ts_pos := p'\<rparr>))"

section \<open>Scrolling\<close>

text \<open>
  \<open>memmove(text.buf, pos, remaining)\<close> on the block. A store of the terminator outside of the block is a fault,
  and so is a cursor past the text, where the unsigned \<open>remaining_length\<close> wraps around.
\<close>

definition mem_move :: "string \<Rightarrow> nat \<Rightarrow> nat \<Rightarrow> nat \<Rightarrow> string" where
  "mem_move m dst src n = take dst m @ take n (drop src m) @ drop (dst + n) m"

definition apt_text_stream_scroll :: "apt_text_stream \<Rightarrow> (bool \<times> apt_text_stream) option" where
  "apt_text_stream_scroll s =
     (let terminate = (\<lambda>s. if ts_pos s < length (ts_mem s)
                            then Some (True, s\<lparr>ts_mem := (ts_mem s)[ts_pos s := APT_NUL]\<rparr>) else None)
      in if ts_pos s = ts_end s then terminate (s\<lparr>ts_pos := ts_buf s\<rparr>)
         else if ts_buf s + ts_length s < ts_pos s then None
         else
           (let remaining = ts_buf s + ts_length s - ts_pos s
            in if remaining = 0 \<or> remaining = ts_length s
               then Some (False, s\<lparr>ts_pos := ts_buf s + remaining\<rparr>)
               else terminate (s\<lparr>ts_mem := mem_move (ts_mem s) (ts_buf s) (ts_pos s) remaining,
                                 ts_pos := ts_buf s + remaining, ts_length := remaining\<rparr>)))"

section \<open>Writers\<close>

text \<open>Store \<open>cs\<close> at the cursor and advance; the store faults when the block is too short.\<close>

definition mem_store :: "string \<Rightarrow> nat \<Rightarrow> string \<Rightarrow> string" where
  "mem_store m p cs = take p m @ cs @ drop (p + length cs) m"

definition ts_put :: "string \<Rightarrow> apt_text_stream \<Rightarrow> apt_text_stream option" where
  "ts_put cs s =
     (if ts_pos s + length cs \<le> length (ts_mem s)
      then Some (s\<lparr>ts_mem := mem_store (ts_mem s) (ts_pos s) cs, ts_pos := ts_pos s + length cs\<rparr>)
      else None)"

definition apt_text_eol_insert :: "apt_text_stream \<Rightarrow> (bool \<times> apt_text_stream) option" where
  "apt_text_eol_insert s =
     (if ts_pos s + 2 < ts_end s
      then do { s' \<leftarrow> ts_put [APT_TOKEN_CR, APT_TOKEN_LF] s; Some (True, s') }
      else Some (False, s))"

definition apt_text_char_insert :: "char \<Rightarrow> apt_text_stream \<Rightarrow> (bool \<times> apt_text_stream) option" where
  "apt_text_char_insert ch s =
     (if ts_pos s + 1 < ts_end s then do { s' \<leftarrow> ts_put [ch] s; Some (True, s') } else Some (False, s))"

definition apt_text_name_value_insert ::
  "apt_str \<Rightarrow> apt_str \<Rightarrow> apt_text_stream \<Rightarrow> (bool \<times> apt_text_stream) option"
where
  "apt_text_name_value_insert name value s =
     (if ts_end s \<le> ts_pos s + length name + length value + 2 then Some (False, s)
      else do {
        s1 \<leftarrow> ts_put name s;
        s2 \<leftarrow> ts_put [CHR '':'', APT_TOKEN_SP] s1;
        s3 \<leftarrow> ts_put value s2;
        apt_text_eol_insert s3
      })"

definition apt_text_header_name_insert :: "apt_str \<Rightarrow> apt_text_stream \<Rightarrow> (bool \<times> apt_text_stream) option" where
  "apt_text_header_name_insert name s =
     (if ts_end s \<le> ts_pos s + length name + 2 then Some (False, s)
      else do {
        s1 \<leftarrow> ts_put name s;
        s2 \<leftarrow> ts_put [CHR '':'', APT_TOKEN_SP] s1;
        Some (True, s2)
      })"

definition apt_text_string_insert :: "apt_str \<Rightarrow> apt_text_stream \<Rightarrow> (bool \<times> apt_text_stream) option" where
  "apt_text_string_insert str s =
     (if ts_end s \<le> ts_pos s + length str then Some (False, s)
      else do { s' \<leftarrow> ts_put str s; Some (True, s') })"

text \<open>
  \<open>apr_snprintf\<close> at the cursor with the space up to \<open>end\<close>: the characters and the terminator are stored, the
  cursor advances over the characters. With no space left (\<open>end - pos\<close> not positive) the call has no value in
  the model.
\<close>

definition ts_print :: "string \<Rightarrow> apt_text_stream \<Rightarrow> (bool \<times> apt_text_stream) option" where
  "ts_print cs s =
     (if ts_end s \<le> ts_pos s then None
      else do {
        s' \<leftarrow> ts_put (cs @ [APT_NUL]) s;
        Some (cs \<noteq> [], s'\<lparr>ts_pos := ts_pos s + length cs\<rparr>)
      })"

definition apt_text_size_value_insert ::
  "apr_fmt \<Rightarrow> nat \<Rightarrow> apt_text_stream \<Rightarrow> (bool \<times> apt_text_stream) option"
where
  "apt_text_size_value_insert apr v s = ts_print (apr_snprintf_size apr (ts_end s - ts_pos s) v) s"

section \<open>Values\<close>

definition TOKEN_TRUE :: string where "TOKEN_TRUE = ''true''"
definition TOKEN_FALSE :: string where "TOKEN_FALSE = ''false''"

definition apt_boolean_value_parse :: "apt_str \<Rightarrow> bool option" where
  "apt_boolean_value_parse str =
     (if strncaseeq str TOKEN_TRUE (length TOKEN_TRUE) then Some True
      else if strncaseeq str TOKEN_FALSE (length TOKEN_FALSE) then Some False
      else None)"

definition apt_boolean_value_generate :: "bool \<Rightarrow> apt_str" where
  "apt_boolean_value_generate b = (if b then TOKEN_TRUE else TOKEN_FALSE)"

definition apt_size_value_parse :: "apt_str \<Rightarrow> nat" where
  "apt_size_value_parse str = nat (atol str mod 2 ^ 64)"

definition apt_size_value_generate :: "apr_fmt \<Rightarrow> nat \<Rightarrow> apt_str" where
  "apt_size_value_generate apr v = apr_psprintf_size apr v"

text \<open>
  The two counting loops, on 64-bit unsigned integers. The updated value and, unless \<open>FALSE\<close> is returned, the
  string.
\<close>

function count_digits :: "nat \<Rightarrow> nat \<Rightarrow> nat" where
  "count_digits temp count =
     (if temp div 10 = 0 then Suc count else count_digits (temp div 10) (Suc count))"
  by pat_completeness auto
termination by (relation "measure (\<lambda>(t, c). t)") auto

declare count_digits.simps [simp del]

fun pow_bounds :: "nat \<Rightarrow> nat \<Rightarrow> nat" where
  "pow_bounds bounds 0 = bounds"
| "pow_bounds bounds (Suc temp) = pow_bounds (bounds * 10 mod 2 ^ 64) temp"

definition apt_var_length_value_generate :: "nat \<Rightarrow> nat \<Rightarrow> nat \<times> apt_str option" where
  "apt_var_length_value_generate val max_count =
     (let count = count_digits val 0;
          bounds = pow_bounds 1 count;
          count = (if (bounds + 2 ^ 64 - count) mod 2 ^ 64 \<le> val then count + 1 else count);
          val = (val + count) mod 2 ^ 64
      in if max_count < count then (val, None) else (val, Some (dec val)))"

text \<open>\<open>sprintf("%03u ")\<close> pads to three digits; more than three make the result longer than four characters.\<close>

definition apt_completion_cause_generate ::
  "apt_str_table_item list \<Rightarrow> nat \<Rightarrow> nat \<Rightarrow> apt_str option"
where
  "apt_completion_cause_generate table n cause =
     (case apt_string_table_str_get table n cause of
        None \<Rightarrow> None
      | Some name \<Rightarrow>
          (let digits = replicate (3 - length (dec cause)) (CHR ''0'') @ dec cause @ [APT_TOKEN_SP]
           in if length digits \<noteq> 4 then None else Some (digits @ name)))"

text \<open>\<open>strchr\<close> searches up to the terminator; the string has a buffer.\<close>

definition apt_id_resource_parse :: "apt_str \<Rightarrow> char \<Rightarrow> (apt_str \<times> apt_str) option" where
  "apt_id_resource_parse str separator =
     (let ident = takeWhile (\<lambda>c. c \<noteq> separator \<and> c \<noteq> APT_NUL) str
      in if length str \<le> length ident \<or> str ! length ident \<noteq> separator then None
         else Some (ident, drop (length ident + 1) str))"

definition apt_id_resource_generate :: "apt_str \<Rightarrow> apt_str \<Rightarrow> char \<Rightarrow> apt_str" where
  "apt_id_resource_generate ident resource separator = ident @ [separator] @ resource"

type_synonym apt_pair = "apt_str \<times> apt_str"

definition ts_of :: "apt_str \<Rightarrow> apt_text_stream" where
  "ts_of str = apt_text_stream_init str (length str)"

text \<open>A pair whose name is empty is left as it was pushed, which is not initialised: no value for it.\<close>

definition apt_pair_parse :: "apt_str \<Rightarrow> apt_pair option" where
  "apt_pair_parse field =
     (case apt_text_field_read (ts_of field) (CHR ''='') True of
        (False, _, _) \<Rightarrow> None
      | (True, name, s) \<Rightarrow>
          (case apt_text_field_read s (CHR '';'') True of
             (True, val, _) \<Rightarrow> Some (name, val)
           | (False, _, _) \<Rightarrow> Some (name, [])))"

lemma field_read_progress:
  assumes "apt_text_field_read s sep b = (True, f, s')"
  shows "ts_end s' - ts_pos s' < ts_end s - ts_pos s"
proof -
  define s1 where "s1 = (if b then ts_skip (\<lambda>c. c = APT_TOKEN_SP) s else s)"
  have f: "f = takeWhile (\<lambda>c. c \<noteq> sep) (ts_rest s1)" "f \<noteq> []" "ts_pos s1 + length f \<le> ts_pos s'" "ts_end s' = ts_end s"
    using assms by (auto simp: apt_text_field_read_def Let_def s1_def ts_skip_def split: if_splits)
  have "0 < length (ts_rest s1)"
    using f(1,2) by (cases "ts_rest s1") auto
  then have "ts_pos s1 < ts_end s"
    by (auto simp: ts_rest_def s1_def ts_skip_def split: if_splits)
  moreover have "ts_pos s \<le> ts_pos s1"
    by (auto simp: s1_def ts_skip_def)
  moreover have "0 < length f"
    using f(2) by simp
  ultimately show ?thesis
    using f(3,4) by linarith
qed

function pair_fields :: "apt_text_stream \<Rightarrow> apt_pair option list" where
  "pair_fields s =
     (case apt_text_field_read s (CHR '';'') True of
        (False, _, _) \<Rightarrow> []
      | (True, field, s') \<Rightarrow> apt_pair_parse field # pair_fields s')"
  by pat_completeness auto
termination
  by (relation "measure (\<lambda>s. ts_end s - ts_pos s)") (auto dest!: sym [of _ "apt_text_field_read _ _ _"] field_read_progress)

declare pair_fields.simps [simp del]

definition apt_pair_array_parse :: "apt_pair option list \<Rightarrow> apt_str \<Rightarrow> apt_pair option list" where
  "apt_pair_array_parse arr val = arr @ pair_fields (ts_of val)"

text \<open>The computed length of the string and the characters stored before the terminator.\<close>

definition pair_length :: "apt_pair \<Rightarrow> nat" where
  "pair_length p = length (fst p) + (if snd p = [] then 0 else 1 + length (snd p))"

definition pair_chars :: "apt_pair \<Rightarrow> string" where
  "pair_chars p = (if fst p = [] then [] else fst p @ (if snd p = [] then [] else CHR ''='' # snd p))"

fun pair_array_chars :: "apt_pair list \<Rightarrow> string" where
  "pair_array_chars [] = []"
| "pair_array_chars [p] = pair_chars p"
| "pair_array_chars (p # ps) = pair_chars p @ CHR '';'' # pair_array_chars ps"

definition apt_pair_array_generate :: "apt_pair list \<Rightarrow> nat \<times> string" where
  "apt_pair_array_generate arr = (sum_list (map pair_length arr) + (length arr - 1), pair_array_chars arr)"

definition apt_pair_array_copy :: "apt_pair option list option \<Rightarrow> apt_pair option list option" where
  "apt_pair_array_copy src = map_option (map (map_option (\<lambda>(n, v). (n, v)))) src"

definition apt_pair_array_append :: "apt_pair list \<Rightarrow> apt_str option \<Rightarrow> apt_str option \<Rightarrow> apt_pair list" where
  "apt_pair_array_append arr name val = arr @ [(case_option [] (\<lambda>n. n) name, case_option [] (\<lambda>v. v) val)]"

definition apt_pair_array_find :: "apt_pair list \<Rightarrow> apt_str \<Rightarrow> apt_pair option" where
  "apt_pair_array_find arr name = find (\<lambda>p. apt_string_compare (fst p) name) arr"

section \<open>Reading\<close>

definition ts_wf :: "apt_text_stream \<Rightarrow> bool" where
  "ts_wf s \<longleftrightarrow> ts_buf s \<le> ts_pos s \<and> ts_pos s \<le> ts_end s \<and> ts_end s \<le> length (ts_mem s)"

lemma ts_wf_ts_of [simp]: "ts_wf (ts_of str)"
  by (simp add: ts_wf_def ts_of_def apt_text_stream_init_def apt_text_stream_reset_def)

lemma ts_rest_ts_of [simp]: "ts_rest (ts_of str) = str"
  by (simp add: ts_rest_def ts_of_def apt_text_stream_init_def apt_text_stream_reset_def)

lemma length_ts_rest: "ts_wf s \<Longrightarrow> length (ts_rest s) = ts_end s - ts_pos s"
  by (auto simp: ts_wf_def ts_rest_def)

text \<open>Advancing the cursor within the window drops from what is left.\<close>

lemma ts_advance:
  assumes "ts_wf s" "n \<le> length (ts_rest s)"
  shows "ts_wf (s\<lparr>ts_pos := ts_pos s + n\<rparr>)"
    and "ts_rest (s\<lparr>ts_pos := ts_pos s + n\<rparr>) = drop n (ts_rest s)"
  using assms length_ts_rest [OF assms(1)]
  by (auto simp: ts_wf_def ts_rest_def drop_take add.commute)

lemma ts_skip_rest:
  assumes "ts_wf s"
  shows "ts_wf (ts_skip P s)" and "ts_rest (ts_skip P s) = dropWhile P (ts_rest s)"
  using ts_advance [OF assms, of "length (takeWhile P (ts_rest s))"]
  by (simp_all add: ts_skip_def length_takeWhile_le dropWhile_eq_drop)

lemma ts_skip_frame [simp]: "ts_end (ts_skip P s) = ts_end s" "ts_mem (ts_skip P s) = ts_mem s"
  "ts_buf (ts_skip P s) = ts_buf s" "is_eos (ts_skip P s) = is_eos s"
  by (simp_all add: ts_skip_def)

text \<open>
  A field is the longest prefix without the separator; the separator is consumed when there is one.
\<close>

lemma field_read_spec:
  assumes "ts_wf s"
    and "rest = (if b then dropWhile (\<lambda>c. c = APT_TOKEN_SP) (ts_rest s) else ts_rest s)"
    and "apt_text_field_read s sep b = (r, f, s')"
  shows "f = takeWhile (\<lambda>c. c \<noteq> sep) rest" and "r \<longleftrightarrow> f \<noteq> []"
    and "ts_rest s' = drop 1 (dropWhile (\<lambda>c. c \<noteq> sep) rest)" and "ts_wf s'"
proof -
  define s1 where "s1 = (if b then ts_skip (\<lambda>c. c = APT_TOKEN_SP) s else s)"
  have s1: "ts_wf s1" "ts_rest s1 = rest" "ts_end s1 = ts_end s"
    using assms(1,2) ts_skip_rest [OF assms(1)] by (simp_all add: s1_def)
  show f: "f = takeWhile (\<lambda>c. c \<noteq> sep) rest" and "r \<longleftrightarrow> f \<noteq> []"
    using assms(3) s1 by (auto simp: apt_text_field_read_def s1_def Let_def split: if_splits)
  have len: "length rest = ts_end s - ts_pos s1"
    using length_ts_rest [OF s1(1)] s1(2,3) by simp
  have s': "s' = s1\<lparr>ts_pos := ts_pos s1 + (if length f < length rest then length f + 1 else length f)\<rparr>"
    using assms(3) s1 len f s1(2)
    by (auto simp: apt_text_field_read_def s1_def [symmetric] Let_def split: if_splits)
  have le: "length f \<le> length rest"
    unfolding f by (rule length_takeWhile_le)
  have "ts_rest s' = drop (if length f < length rest then length f + 1 else length f) rest" "ts_wf s'"
    using ts_advance [OF s1(1), of "if length f < length rest then length f + 1 else length f"] le s1(2)
    unfolding s' by (auto split: if_splits)
  moreover have d: "dropWhile (\<lambda>c. c \<noteq> sep) rest = drop (length f) rest"
    unfolding f by (simp add: dropWhile_eq_drop)
  ultimately show "ts_rest s' = drop 1 (dropWhile (\<lambda>c. c \<noteq> sep) rest)" "ts_wf s'"
    unfolding d using le by (auto split: if_splits)
qed

text \<open>A field followed by its separator, and a field at the end of the stream.\<close>

lemma field_read_sep:
  assumes "ts_wf s" "ts_rest s = f @ sep # rest" "sep \<notin> set f" "f \<noteq> []"
    and "b \<longrightarrow> hd f \<noteq> APT_TOKEN_SP"
  obtains s' where "apt_text_field_read s sep b = (True, f, s')" "ts_wf s'" "ts_rest s' = rest"
proof -
  obtain r g s' where eq: "apt_text_field_read s sep b = (r, g, s')"
    by (metis prod_cases3)
  have *: "(if b then dropWhile (\<lambda>c. c = APT_TOKEN_SP) (ts_rest s) else ts_rest s) = f @ sep # rest"
    using assms by (auto intro: dropWhile_head)
  note spec = field_read_spec [OF assms(1) * [symmetric] eq]
  show ?thesis
    by (rule that [of s']) (use spec eq assms(3,4) in \<open>simp_all add: takeWhile_sep dropWhile_sep\<close>)
qed

lemma field_read_last:
  assumes "ts_wf s" "ts_rest s = f" "sep \<notin> set f" "b \<longrightarrow> f = [] \<or> hd f \<noteq> APT_TOKEN_SP"
  obtains s' where "apt_text_field_read s sep b = (f \<noteq> [], f, s')" "ts_wf s'" "ts_rest s' = []"
proof -
  obtain r g s' where eq: "apt_text_field_read s sep b = (r, g, s')"
    by (metis prod_cases3)
  have *: "(if b then dropWhile (\<lambda>c. c = APT_TOKEN_SP) (ts_rest s) else ts_rest s) = f"
    using assms by (auto intro: dropWhile_head)
  note spec = field_read_spec [OF assms(1) * [symmetric] eq]
  show ?thesis
    by (rule that [of s']) (use spec eq assms(3) in \<open>simp_all add: takeWhile_no_sep dropWhile_no_sep\<close>)
qed

text \<open>Lines: what is read is what precedes the end of line.\<close>

abbreviation CRLF :: string where "CRLF \<equiv> [APT_TOKEN_CR, APT_TOKEN_LF]"

definition no_eol :: "string \<Rightarrow> bool" where
  "no_eol str \<longleftrightarrow> APT_TOKEN_CR \<notin> set str \<and> APT_TOKEN_LF \<notin> set str"

lemma no_eol_simps [simp]:
  "no_eol []" "no_eol (c # cs) \<longleftrightarrow> c \<noteq> APT_TOKEN_CR \<and> c \<noteq> APT_TOKEN_LF \<and> no_eol cs"
  "no_eol (xs @ ys) \<longleftrightarrow> no_eol xs \<and> no_eol ys"
  by (auto simp: no_eol_def)

lemma cr_length_simps [simp]: "cr_length (APT_TOKEN_LF # cs) = 2" "0 < cr_length cs"
  by (auto simp: cr_length_def split: list.split)

lemma line_scan_crlf: "no_eol line \<Longrightarrow> line_scan (line @ CRLF @ rest) = (line, Some (length line + 2))"
  by (induction line) auto

lemma line_scan_none: "no_eol line \<Longrightarrow> line_scan line = (line, None)"
  by (induction line) auto

lemma line_read_crlf:
  assumes "ts_rest s = line @ CRLF @ rest" "no_eol line"
  shows "apt_text_line_read s = (True, line, s\<lparr>ts_pos := ts_pos s + (length line + 2)\<rparr>)"
  using assms line_scan_crlf [of line rest] by (simp add: apt_text_line_read_def)

lemma line_rest:
  assumes "ts_wf s" "ts_rest s = line @ CRLF @ rest"
  shows "ts_wf (s\<lparr>ts_pos := ts_pos s + (length line + 2)\<rparr>)"
    and "ts_rest (s\<lparr>ts_pos := ts_pos s + (length line + 2)\<rparr>) = rest"
  using ts_advance [OF assms(1), of "length line + 2"] assms(2) by simp_all

text \<open>A header line: the name, a colon, a space, the value.\<close>

definition header_name_ok :: "string \<Rightarrow> bool" where
  "header_name_ok nm \<longleftrightarrow> nm \<noteq> [] \<and> \<not> apt_text_is_wsp (hd nm) \<and> CHR '':'' \<notin> set nm \<and> no_eol nm"

definition header_value_ok :: "string \<Rightarrow> bool" where
  "header_value_ok v \<longleftrightarrow> no_eol v \<and> (v = [] \<or> \<not> apt_text_is_wsp (hd v))"

lemma header_scan_name:
  assumes "CHR '':'' \<notin> set nm" "no_eol nm"
  shows "header_scan (nm @ CHR '':'' # rest) i (Some k) 0 vb =
         header_scan rest (i + length nm + 1) (Some k) (i + length nm - k) vb"
  using assms by (induction nm arbitrary: i) (auto simp: span_end_def)

lemma header_scan_value:
  assumes "no_eol v" "0 < nl"
  shows "header_scan (v @ CRLF @ rest) i nb nl (Some k) =
         (True, i + length v + 2, nb, nl, Some k, i + length v - k)"
  using assms by (induction v arbitrary: i) (auto simp: span_end_def)

lemma header_scan_line:
  assumes "header_name_ok nm" "header_value_ok v"
  shows "header_scan (nm @ [CHR '':'', APT_TOKEN_SP] @ v @ CRLF @ rest) 0 None 0 None =
         (True, length nm + length v + 4, Some 0, length nm,
          if v = [] then None else Some (length nm + 2), length v)"
proof -
  obtain c nm' where nm: "nm = c # nm'" "c \<noteq> CHR '':''" "CHR '':'' \<notin> set nm'" "no_eol nm'"
      "c \<noteq> APT_TOKEN_CR" "c \<noteq> APT_TOKEN_LF" "\<not> apt_text_is_wsp c"
    using assms(1) by (cases nm) (auto simp: header_name_ok_def)
  have "header_scan (nm @ CHR '':'' # APT_TOKEN_SP # v @ CRLF @ rest) 0 None 0 None =
        header_scan (v @ CRLF @ rest) (length nm + 2) (Some 0) (length nm) None"
    using nm header_scan_name [of nm' "APT_TOKEN_SP # v @ CRLF @ rest" 1 0 None]
    by (simp add: apt_text_is_wsp_def)
  also have "\<dots> = (True, length nm + length v + 4, Some 0, length nm,
                    if v = [] then None else Some (length nm + 2), length v)"
  proof (cases v)
    case Nil
    then show ?thesis by (simp add: span_end_def)
  next
    case (Cons d v')
    with assms(2) have d: "no_eol v'" "d \<noteq> APT_TOKEN_CR" "d \<noteq> APT_TOKEN_LF" "\<not> apt_text_is_wsp d"
      by (auto simp: header_value_ok_def)
    then show ?thesis
      using Cons nm(1) header_scan_value [of v' "length nm" rest "length nm + 3" "Some 0" "length nm + 2"]
      by (simp add: eval_nat_numeral)
  qed
  finally show ?thesis by simp
qed

lemma header_read_line:
  assumes "header_name_ok nm" "header_value_ok v"
    and "ts_rest s = nm @ [CHR '':'', APT_TOKEN_SP] @ v @ CRLF @ rest"
  shows "apt_text_header_read s = (True, nm, v, s\<lparr>ts_pos := ts_pos s + (length nm + length v + 4)\<rparr>)"
proof -
  have "nm \<noteq> []" using assms(1) by (simp add: header_name_ok_def)
  then show ?thesis
    using header_scan_line [OF assms(1,2), of rest] assms(3)
    by (cases "v = []") (simp_all add: apt_text_header_read_def span_def Let_def)
qed

text \<open>The empty line that ends a header section.\<close>

lemma header_read_empty:
  assumes "ts_rest s = CRLF @ rest"
  shows "apt_text_header_read s = (True, [], [], s\<lparr>ts_pos := ts_pos s + 2\<rparr>)"
  using assms by (simp add: apt_text_header_read_def span_def span_end_def Let_def)

section \<open>Writing\<close>

text \<open>
  Every writer leaves the window and what was written before in place, and stays in the window.
\<close>

definition ts_ext :: "apt_text_stream \<Rightarrow> string \<Rightarrow> apt_text_stream \<Rightarrow> bool" where
  "ts_ext s cs s' \<longleftrightarrow> ts_buf s' = ts_buf s \<and> ts_length s' = ts_length s \<and> ts_end s' = ts_end s \<and>
     is_eos s' = is_eos s \<and> length (ts_mem s') = length (ts_mem s) \<and>
     ts_pos s' = ts_pos s + length cs \<and> take (ts_pos s') (ts_mem s') = take (ts_pos s) (ts_mem s) @ cs"

lemma ts_ext_refl [simp]: "ts_ext s [] s"
  by (simp add: ts_ext_def)

lemma ts_ext_trans: "ts_ext s cs s' \<Longrightarrow> ts_ext s' ds s'' \<Longrightarrow> ts_ext s (cs @ ds) s''"
  unfolding ts_ext_def by (metis append.assoc length_append add.assoc)

lemma ts_put_ext:
  assumes "ts_pos s + length cs \<le> length (ts_mem s)"
  obtains s' where "ts_put cs s = Some s'" "ts_ext s cs s'"
  using assms by (auto simp: ts_put_def ts_ext_def mem_store_def)

lemma ts_ext_wf: "ts_wf s \<Longrightarrow> ts_ext s cs s' \<Longrightarrow> ts_pos s' \<le> ts_end s \<Longrightarrow> ts_wf s'"
  by (simp add: ts_wf_def ts_ext_def)

text \<open>What was written can be read from where it was written.\<close>

lemma ts_ext_rest:
  assumes "ts_wf s" "ts_ext s cs s'" "ts_pos s' \<le> ts_end s"
  shows "ts_rest (s'\<lparr>ts_pos := ts_pos s\<rparr>) = cs @ ts_rest s'"
proof -
  have len: "ts_pos s \<le> length (ts_mem s')" and p: "ts_pos s' = ts_pos s + length cs"
    using assms by (auto simp: ts_wf_def ts_ext_def)
  have e: "ts_end s' = ts_end s"
    using assms(2) by (simp add: ts_ext_def)
  have "ts_mem s' = take (ts_pos s) (ts_mem s) @ cs @ drop (ts_pos s') (ts_mem s')"
    using assms(2) append_take_drop_id [of "ts_pos s'" "ts_mem s'"] unfolding ts_ext_def by (metis append.assoc)
  moreover have "length (take (ts_pos s) (ts_mem s)) = ts_pos s"
    using assms by (auto simp: ts_wf_def)
  ultimately have d: "drop (ts_pos s) (ts_mem s') = cs @ drop (ts_pos s') (ts_mem s')"
    by (metis append_eq_conv_conj)
  show ?thesis
    using assms(3) p e by (simp add: ts_rest_def d)
qed

text \<open>
  The contract of a writer of \<open>cs\<close>: it never faults, it succeeds exactly when \<open>cs\<close> leaves room for one more
  character in the window, and what it stores is \<open>cs\<close>, or a prefix of it on failure.
\<close>

definition ts_writes :: "apt_text_stream \<Rightarrow> string \<Rightarrow> (bool \<times> apt_text_stream) option \<Rightarrow> bool" where
  "ts_writes s cs r \<longleftrightarrow>
     (case r of None \<Rightarrow> False
      | Some (b, s') \<Rightarrow> ts_wf s' \<and> (b \<longleftrightarrow> ts_pos s + length cs < ts_end s) \<and>
          (if b then ts_ext s cs s' else \<exists>n. ts_ext s (take n cs) s'))"

lemma ts_writes_fail: "ts_wf s \<Longrightarrow> ts_end s \<le> ts_pos s + length cs \<Longrightarrow> ts_writes s cs (Some (False, s))"
  by (auto simp: ts_writes_def intro: exI [of _ 0])

lemma ts_writes_put:
  assumes "ts_wf s" "ts_pos s + length cs < ts_end s"
  shows "ts_writes s cs (do { s' \<leftarrow> ts_put cs s; Some (True, s') })"
proof -
  obtain s' where s': "ts_put cs s = Some s'" "ts_ext s cs s'"
    using ts_put_ext [of s cs] assms by (auto simp: ts_wf_def)
  have "ts_wf s'"
    by (rule ts_ext_wf [OF assms(1) s'(2)]) (use s'(2) assms(2) in \<open>simp add: ts_ext_def\<close>)
  with s' show ?thesis
    using assms(2) by (simp add: ts_writes_def)
qed

lemma ts_writes_then:
  assumes "ts_writes s cs r"
    and "\<And>s'. ts_wf s' \<Longrightarrow> ts_ext s cs s' \<Longrightarrow> ts_pos s' < ts_end s' \<Longrightarrow> ts_writes s' ds (k s')"
  shows "ts_writes s (cs @ ds) (do { (b, s') \<leftarrow> r; if b then k s' else Some (False, s') })"
proof -
  obtain b s' where r: "r = Some (b, s')" and wf: "ts_wf s'" and b: "b \<longleftrightarrow> ts_pos s + length cs < ts_end s"
    and ext: "if b then ts_ext s cs s' else \<exists>n. ts_ext s (take n cs) s'"
    using assms(1) by (auto simp: ts_writes_def split: option.splits)
  show ?thesis
  proof (cases b)
    case False
    then obtain n where "ts_ext s (take n cs) s'" using ext by auto
    then have "ts_ext s (take (min n (length cs)) (cs @ ds)) s'"
      by (cases "n \<le> length cs") (simp_all add: min_def)
    with False b r wf show ?thesis
      by (auto simp: ts_writes_def simp del: take_append intro!: exI [of _ "min n (length cs)"])
  next
    case True
    then have ext: "ts_ext s cs s'" and lt: "ts_pos s' < ts_end s'" using ext b by (auto simp: ts_ext_def)
    obtain b' s'' where k: "k s' = Some (b', s'')" "ts_wf s''" "b' \<longleftrightarrow> ts_pos s' + length ds < ts_end s'"
      "if b' then ts_ext s' ds s'' else \<exists>n. ts_ext s' (take n ds) s''"
      using assms(2) [OF wf ext lt] by (auto simp: ts_writes_def split: option.splits)
    have e: "ts_pos s' = ts_pos s + length cs" "ts_end s' = ts_end s" using ext by (auto simp: ts_ext_def)
    have "ts_ext s (take (length cs + n) (cs @ ds)) s''" if "ts_ext s' (take n ds) s''" for n
      using ts_ext_trans [OF ext that] by simp
    then have "if b' then ts_ext s (cs @ ds) s'' else \<exists>n. ts_ext s (take n (cs @ ds)) s''"
      using k(4) ts_ext_trans [OF ext] by (metis (full_types))
    then show ?thesis
      using True r k(1-3) e by (simp add: ts_writes_def add.assoc)
  qed
qed

lemma ts_writes_eol [simp]: "ts_wf s \<Longrightarrow> ts_writes s CRLF (apt_text_eol_insert s)"
  using ts_writes_put [of s CRLF] ts_writes_fail [of s CRLF] by (auto simp: apt_text_eol_insert_def)

lemma ts_writes_char [simp]: "ts_wf s \<Longrightarrow> ts_writes s [ch] (apt_text_char_insert ch s)"
  using ts_writes_put [of s "[ch]"] ts_writes_fail [of s "[ch]"] by (auto simp: apt_text_char_insert_def)

lemma ts_writes_string [simp]: "ts_wf s \<Longrightarrow> ts_writes s str (apt_text_string_insert str s)"
  using ts_writes_put [of s str] ts_writes_fail [of s str] by (auto simp: apt_text_string_insert_def)

text \<open>Several stores in a row are one.\<close>

lemma ts_put_append: "do { s1 \<leftarrow> ts_put xs s; ts_put ys s1 } = ts_put (xs @ ys) s"
  by (auto simp: ts_put_def mem_store_def ac_simps)

lemma ts_writes_header_name [simp]:
  assumes "ts_wf s"
  shows "ts_writes s (nm @ [CHR '':'', APT_TOKEN_SP]) (apt_text_header_name_insert nm s)"
proof -
  let ?cs = "nm @ [CHR '':'', APT_TOKEN_SP]"
  have "apt_text_header_name_insert nm s =
    (if ts_end s \<le> ts_pos s + length ?cs then Some (False, s) else do { s' \<leftarrow> ts_put ?cs s; Some (True, s') })"
    by (simp add: apt_text_header_name_insert_def ts_put_append [symmetric] bind_assoc)
  then show ?thesis
    using ts_writes_put [OF assms, of ?cs] ts_writes_fail [OF assms, of ?cs] by (cases "ts_end s \<le> ts_pos s + length ?cs") auto
qed

lemma ts_writes_name_value [simp]:
  assumes "ts_wf s"
  shows "ts_writes s (nm @ [CHR '':'', APT_TOKEN_SP] @ v @ CRLF) (apt_text_name_value_insert nm v s)"
proof (cases "ts_end s \<le> ts_pos s + length nm + length v + 2")
  case True
  then show ?thesis
    using ts_writes_fail [OF assms] by (simp add: apt_text_name_value_insert_def)
next
  case False
  let ?cs = "nm @ [CHR '':'', APT_TOKEN_SP] @ v"
  have "ts_put ?cs s = do { s1 \<leftarrow> ts_put nm s; s2 \<leftarrow> ts_put [CHR '':'', APT_TOKEN_SP] s1; ts_put v s2 }"
    by (simp only: ts_put_append [symmetric])
  then have "apt_text_name_value_insert nm v s = do { s3 \<leftarrow> ts_put ?cs s; apt_text_eol_insert s3 }"
    using False by (simp add: apt_text_name_value_insert_def bind_assoc)
  also have "\<dots> = do { (b, s') \<leftarrow> do { s3 \<leftarrow> ts_put ?cs s; Some (True, s3) };
                       if b then apt_text_eol_insert s' else Some (False, s') }"
    by (simp add: bind_assoc)
  finally show ?thesis
    using ts_writes_then [OF ts_writes_put [OF assms, of ?cs], of CRLF apt_text_eol_insert] False
    by simp
qed

lemma size_value_insert_ext:
  assumes "apr_fmt_ok apr" "ts_wf s" "ts_pos s + length (dec v) < ts_end s"
  obtains s' where "apt_text_size_value_insert apr v s = Some (True, s')" "ts_wf s'" "ts_ext s (dec v) s'"
proof -
  have "take (ts_end s - ts_pos s - 1) (dec v) = dec v" and ne: "dec v \<noteq> []"
    using assms(3) length_dec_bounds [of v] by auto
  moreover have "ts_pos s + length (dec v @ [APT_NUL]) \<le> length (ts_mem s)"
    using assms(2,3) by (auto simp: ts_wf_def)
  then obtain s1 where s1: "ts_put (dec v @ [APT_NUL]) s = Some s1" "ts_ext s (dec v @ [APT_NUL]) s1"
    by (rule ts_put_ext)
  have ext: "ts_ext s (dec v) (s1\<lparr>ts_pos := ts_pos s + length (dec v)\<rparr>)"
  proof -
    have "take (ts_pos s + length (dec v)) (take (ts_pos s1) (ts_mem s1)) =
          take (ts_pos s + length (dec v)) (take (ts_pos s) (ts_mem s) @ dec v @ [APT_NUL])"
      using s1(2) unfolding ts_ext_def by (intro arg_cong [where f = "take _"]) blast
    moreover have "ts_pos s \<le> length (ts_mem s)"
      using assms(2) by (simp add: ts_wf_def)
    ultimately show ?thesis
      using s1(2) by (simp add: ts_ext_def)
  qed
  ultimately show ?thesis
    using assms s1 that [OF _ _ ext] ts_ext_wf [OF assms(2) ext]
    by (simp add: apt_text_size_value_insert_def ts_print_def apr_fmt_okD)
qed

section \<open>Values\<close>

lemma count_digits_dec: "count_digits n c = c + length (dec n)"
proof (induction n c rule: count_digits.induct)
  case (1 n c)
  show ?case
  proof (cases "n div 10 = 0")
    case True
    then have "n < 10" by linarith
    with True show ?thesis by (subst count_digits.simps) (simp add: dec_small)
  next
    case False
    then have "10 \<le> n" by linarith
    with False 1 show ?thesis by (subst count_digits.simps) (simp add: dec_step)
  qed
qed

lemma pow_bounds_eq: "b * 10 ^ k < 2 ^ 64 \<Longrightarrow> pow_bounds b k = b * 10 ^ k"
proof (induction k arbitrary: b)
  case (Suc k)
  have "b * 10 * 1 \<le> b * 10 * 10 ^ k" by (intro mult_le_mono) simp_all
  also have "\<dots> < 2 ^ 64" using Suc.prems by (simp only: power_Suc mult.assoc)
  finally have "b * 10 mod 2 ^ 64 = b * 10" by (intro mod_less) simp
  then show ?case
    using Suc.IH [of "b * 10"] Suc.prems by (simp only: pow_bounds.simps power_Suc mult.assoc)
qed simp

text \<open>
  The length of a decimal numeral, added to the number, is the length of the sum unless the sum has one more
  digit: the case that \<open>N \<ge> 10^M - M\<close> decides.
\<close>

lemma var_length_add:
  fixes val :: nat
  defines "m \<equiv> length (dec val)"
  defines "k \<equiv> if 10 ^ m - m \<le> val then m + 1 else m"
  shows "length (dec (val + k)) = k"
proof -
  have m0: "dec val \<noteq> []"
    by (cases "val < 10") (simp_all add: dec_small dec_step)
  then obtain j where j: "m = Suc j"
    unfolding m_def by (metis Suc_pred length_greater_0_conv)
  have lt: "val < 10 ^ m" and ge: "0 < val \<Longrightarrow> 10 ^ j \<le> val"
    using length_dec_bounds [of val] j by (auto simp: m_def)
  have ml: "m + 1 \<le> 10 ^ m"
    using less_exp [of m] power_mono [of 2 "10 :: nat" m] by linarith
  show ?thesis
  proof (cases "10 ^ m - m \<le> val")
    case True
    with lt ml have "10 ^ m \<le> val + (m + 1)" "val + (m + 1) < 10 ^ Suc m" by simp_all
    then show ?thesis
      using length_dec_unique [of m "val + (m + 1)"] True by (simp add: k_def)
  next
    case False
    have "10 ^ j \<le> val + m"
      using ge j m_def by (cases "val = 0") (auto simp: dec_small)
    moreover have "val + m < 10 ^ Suc j"
      using False j by simp
    ultimately show ?thesis
      using length_dec_unique [of j "val + m"] False j by (simp add: k_def)
  qed
qed

lemma var_length_generate:
  fixes val mc :: nat
  assumes "val < 10 ^ 18"
  defines "k \<equiv> length (dec (fst (apt_var_length_value_generate val mc)))"
  shows "apt_var_length_value_generate val mc = (val + k, if mc < k then None else Some (dec (val + k)))"
    and "k \<le> 19"
proof -
  define m where "m = length (dec val)"
  have m: "m \<le> 18" "0 < m"
    using length_dec_le [OF assms(1)] unfolding m_def
    by (simp, cases "val < 10") (simp_all add: dec_small dec_step)
  have "(10 :: nat) ^ m \<le> 10 ^ 18"
    using m by (intro power_increasing) simp_all
  then have p: "(10 :: nat) ^ m < 2 ^ 64" by (rule le_less_trans) simp
  have "m < 10 ^ m"
    using less_exp [of m] power_mono [of 2 "10 :: nat" m] by linarith
  then have "10 ^ m + 2 ^ 64 - m = (10 ^ m - m :: nat) + 2 ^ 64"
    by (intro diff_add_assoc2) simp
  then have wrap: "(10 ^ m + 2 ^ 64 - m) mod 2 ^ 64 = (10 ^ m - m :: nat)"
    using p by (simp only: mod_add_self2) (intro mod_less, linarith)
  have val: "(val + k') mod 2 ^ 64 = val + k'" if "k' \<le> 19" for k'
    using that assms(1) by simp
  have count: "count_digits val 0 = m"
    by (simp add: count_digits_dec m_def)
  have pow: "pow_bounds 1 m = 10 ^ m"
    using pow_bounds_eq [of 1 m] p by simp
  define k' where "k' = (if 10 ^ m - m \<le> val then m + 1 else m)"
  have k': "k' \<le> 19"
    using m by (simp add: k'_def)
  have len: "length (dec (val + k')) = k'"
    unfolding k'_def m_def by (rule var_length_add)
  have eq: "apt_var_length_value_generate val mc = (val + k', if mc < k' then None else Some (dec (val + k')))"
    unfolding apt_var_length_value_generate_def Let_def count pow wrap k'_def [symmetric] val [OF k']
    by (rule if_distrib [symmetric])
  then have "k = k'"
    using len by (simp add: k_def)
  with eq k' show "apt_var_length_value_generate val mc = (val + k, if mc < k then None else Some (dec (val + k)))"
    and "k \<le> 19" by simp_all
qed

text \<open>Padding with zeros does not change the number read.\<close>

lemma atol_digits:
  assumes "ds \<noteq> []" "\<forall>c \<in> set ds. isdigit c" "rest = [] \<or> \<not> isdigit (hd rest)" "dec_val_acc 0 ds < 2 ^ 63"
  shows "atol (ds @ rest) = int (dec_val_acc 0 ds)"
proof -
  obtain c cs where d: "ds = c # cs" using assms(1) by (cases ds) auto
  then have "\<not> isspace c \<and> c \<noteq> CHR ''-'' \<and> c \<noteq> CHR ''+''" using assms(2) isdigit_not_special by auto
  moreover have "dec_val_acc 0 (ds @ rest) = dec_val_acc 0 ds"
    using assms(2,3) by (cases rest) (auto simp: dec_val_acc_append)
  ultimately show ?thesis
    using assms(4) d by (simp add: atol_def clamp_long_id)
qed

lemma completion_cause_chars:
  assumes "apt_string_table_str_get table n cause = Some name" "cause < 1000"
  obtains ds where "apt_completion_cause_generate table n cause = Some (ds @ APT_TOKEN_SP # name)"
    and "length ds = 3" and "apt_size_value_parse (ds @ APT_TOKEN_SP # name) = cause"
proof -
  define ds where "ds = replicate (3 - length (dec cause)) (CHR ''0'') @ dec cause"
  have len: "length ds = 3"
    using length_dec_le [of cause 3] assms(2) by (simp add: ds_def)
  have digits: "\<forall>c \<in> set ds. isdigit c"
    using dec_digits [of cause] by (auto simp: ds_def isdigit_def)
  have val: "dec_val_acc 0 ds = cause"
  proof -
    have "dec_val_acc 0 (replicate k (CHR ''0'') @ dec cause) = cause" for k
      by (induction k) (auto simp: digit_val_def isdigit_def dec_val_acc_dec)
    then show ?thesis by (simp add: ds_def)
  qed
  have sp: "\<not> isdigit APT_TOKEN_SP"
    by (simp add: isdigit_def)
  have "ds \<noteq> []"
    using len by auto
  then have "atol (ds @ APT_TOKEN_SP # name) = int cause"
    using atol_digits [OF _ digits, of "APT_TOKEN_SP # name"] val assms(2) sp by simp
  then have "apt_size_value_parse (ds @ APT_TOKEN_SP # name) = cause"
    using assms(2) by (simp add: apt_size_value_parse_def)
  moreover have "apt_completion_cause_generate table n cause = Some (ds @ APT_TOKEN_SP # name)"
    using assms(1) len by (simp add: apt_completion_cause_generate_def ds_def Let_def)
  ultimately show ?thesis using that len by blast
qed

text \<open>Pairs that survive the separators of \<open>name=value;...\<close>.\<close>

definition pair_ok :: "apt_pair \<Rightarrow> bool" where
  "pair_ok p \<longleftrightarrow> fst p \<noteq> [] \<and> hd (fst p) \<noteq> APT_TOKEN_SP \<and> CHR ''='' \<notin> set (fst p) \<and> CHR '';'' \<notin> set (fst p) \<and>
     (snd p = [] \<or> hd (snd p) \<noteq> APT_TOKEN_SP) \<and> CHR '';'' \<notin> set (snd p)"

lemma pair_chars_ok:
  assumes "pair_ok p"
  shows "pair_chars p \<noteq> []" "hd (pair_chars p) \<noteq> APT_TOKEN_SP" "CHR '';'' \<notin> set (pair_chars p)"
  using assms by (auto simp: pair_ok_def pair_chars_def)

lemma pair_parse_chars:
  assumes "pair_ok p"
  shows "apt_pair_parse (pair_chars p) = Some p"
proof (cases "snd p = []")
  case True
  then have c: "pair_chars p = fst p" using assms by (simp add: pair_chars_def)
  obtain s where s: "apt_text_field_read (ts_of (pair_chars p)) (CHR ''='') True = (True, fst p, s)"
      "ts_wf s" "ts_rest s = []"
    using field_read_last [of "ts_of (pair_chars p)" "fst p" "CHR ''=''" True] c assms
    by (auto simp: pair_ok_def)
  obtain s' where "apt_text_field_read s (CHR '';'') True = (False, [], s')"
    using field_read_last [OF s(2,3), of "CHR '';''" True] by auto
  with s True show ?thesis by (cases p) (simp add: apt_pair_parse_def)
next
  case False
  then have c: "pair_chars p = fst p @ CHR ''='' # snd p" using assms by (simp add: pair_chars_def pair_ok_def)
  obtain s where s: "apt_text_field_read (ts_of (pair_chars p)) (CHR ''='') True = (True, fst p, s)"
      "ts_wf s" "ts_rest s = snd p"
    using field_read_sep [of "ts_of (pair_chars p)" "fst p" "CHR ''=''" "snd p" True] c assms
    by (auto simp: pair_ok_def)
  obtain s' where "apt_text_field_read s (CHR '';'') True = (True, snd p, s')"
    using field_read_last [OF s(2,3), of "CHR '';''" True] assms False by (auto simp: pair_ok_def)
  with s show ?thesis by (simp add: apt_pair_parse_def)
qed

lemma pair_fields_chars:
  assumes "ts_wf s" "ts_rest s = pair_array_chars ps" "\<forall>p \<in> set ps. pair_ok p"
  shows "pair_fields s = map Some ps"
  using assms
proof (induction ps arbitrary: s rule: pair_array_chars.induct)
  case 1
  then obtain s' where "apt_text_field_read s (CHR '';'') True = (False, [], s')"
    using field_read_last [of s "[]" "CHR '';''" True] by auto
  then show ?case by (simp add: pair_fields.simps [of s])
next
  case (2 p)
  note ok = pair_chars_ok [of p] pair_parse_chars [of p]
  obtain s' where s': "apt_text_field_read s (CHR '';'') True = (True, pair_chars p, s')" "ts_wf s'" "ts_rest s' = []"
    using field_read_last [of s "pair_chars p" "CHR '';''" True] 2 ok by auto
  obtain s'' where "apt_text_field_read s' (CHR '';'') True = (False, [], s'')"
    using field_read_last [OF s'(2,3), of "CHR '';''" True] by auto
  then show ?case
    using s' 2 ok by (simp add: pair_fields.simps [of s] pair_fields.simps [of s'])
next
  case (3 p q ps)
  note ok = pair_chars_ok [of p] pair_parse_chars [of p]
  obtain s' where s': "apt_text_field_read s (CHR '';'') True = (True, pair_chars p, s')" "ts_wf s'"
      "ts_rest s' = pair_array_chars (q # ps)"
    using field_read_sep [of s "pair_chars p" "CHR '';''" "pair_array_chars (q # ps)" True] 3 ok by auto
  then show ?case
    using 3 ok by (simp add: pair_fields.simps [of s])
qed

lemma pair_array_length:
  "length (pair_array_chars ps) \<le> fst (apt_pair_array_generate ps)"
  "\<forall>p \<in> set ps. fst p \<noteq> [] \<Longrightarrow> length (pair_array_chars ps) = fst (apt_pair_array_generate ps)"
  by (induction ps rule: pair_array_chars.induct)
     (auto simp: apt_pair_array_generate_def pair_chars_def pair_length_def)

text \<open>A boolean and a size are read back from what is printed of them.\<close>

lemma boolean_value_roundtrip: "apt_boolean_value_parse (apt_boolean_value_generate b) = Some b"
proof (cases b)
  case True
  have "apt_boolean_value_parse (apt_boolean_value_generate True) = Some True" by code_simp
  with True show ?thesis by simp
next
  case False
  have "apt_boolean_value_parse (apt_boolean_value_generate False) = Some False" by code_simp
  with False show ?thesis by simp
qed

lemma size_value_roundtrip:
  "apr_fmt_ok apr \<Longrightarrow> v < 2 ^ 63 \<Longrightarrow> apt_size_value_parse (apt_size_value_generate apr v) = v"
  using atol_dec [of v "[]"] by (simp add: apt_size_value_parse_def apt_size_value_generate_def apr_fmt_okD)

lemma id_resource_roundtrip:
  assumes "sep \<notin> set ident" "APT_NUL \<notin> set ident"
  shows "apt_id_resource_parse (apt_id_resource_generate ident resource sep) sep = Some (ident, resource)"
proof -
  have "takeWhile (\<lambda>c. c \<noteq> sep \<and> c \<noteq> APT_NUL) (ident @ sep # resource) = ident"
    using assms by (induction ident) auto
  then show ?thesis
    by (simp add: apt_id_resource_parse_def apt_id_resource_generate_def Let_def)
qed

section \<open>Properties\<close>

text \<open>
  A header line that \<open>apt_text_name_value_insert\<close> accepts is read back by \<open>apt_text_header_read\<close> as the same
  name and value, with the cursor left just after the line, whatever follows in the buffer. The name is not empty,
  does not start with white space and holds no colon; neither holds an end of line; the value does not start with
  white space.
\<close>

lemma header_line_roundtrip:
  assumes "ts_wf s" "header_name_ok nm" "header_value_ok v"
    and "apt_text_name_value_insert nm v s = Some (True, s')"
  shows "apt_text_header_read (s'\<lparr>ts_pos := ts_pos s\<rparr>) = (True, nm, v, s')"
proof -
  have ext: "ts_ext s (nm @ [CHR '':'', APT_TOKEN_SP] @ v @ CRLF) s'" and le: "ts_pos s' \<le> ts_end s"
    using ts_writes_name_value [OF assms(1), of nm v] assms(4) by (auto simp: ts_writes_def ts_ext_def)
  have "ts_rest (s'\<lparr>ts_pos := ts_pos s\<rparr>) = nm @ [CHR '':'', APT_TOKEN_SP] @ v @ CRLF @ ts_rest s'"
    using ts_ext_rest [OF assms(1) ext le] by simp
  from header_read_line [OF assms(2,3) this] show ?thesis
    using ext by (simp add: ts_ext_def)
qed

text \<open>
  C30: \<open>apt_var_length_value_generate\<close> solves the self-referential length: the number it stores and prints is the
  given one plus the number of digits of the number printed, for every value below \<open>10^18\<close>, so that no 64-bit
  operation wraps; it refuses exactly when there are more digits than allowed.
\<close>

theorem var_length_self_referential:
  assumes "val < 10 ^ 18"
  shows "\<exists>total. total = val + length (dec total) \<and>
    apt_var_length_value_generate val max_count =
      (total, if max_count < length (dec total) then None else Some (dec total))"
  using var_length_generate(1) [OF assms, of max_count] by (metis fst_conv)

theorem var_length_self_referential_witness:
  "\<exists>total. total = 96 + length (dec total) \<and>
    apt_var_length_value_generate 96 4 = (total, if 4 < length (dec total) then None else Some (dec total))"
  by (rule var_length_self_referential) simp

text \<open>
  C24: an array of name-value pairs is read back from the string generated for it. The string has exactly the
  computed length, so the buffer is filled and not overrun, and parsing it appends the pairs, when no name is
  empty or holds \<open>=\<close>, neither names nor values hold \<open>;\<close>, and none starts with a space.
\<close>

theorem pair_array_roundtrip:
  assumes "\<forall>p \<in> set ps. pair_ok p"
  shows "length (snd (apt_pair_array_generate ps)) = fst (apt_pair_array_generate ps) \<and>
    apt_pair_array_parse arr (snd (apt_pair_array_generate ps)) = arr @ map Some ps"
  using assms pair_array_length(2) [of ps] pair_fields_chars [of "ts_of (pair_array_chars ps)" ps]
  by (auto simp: apt_pair_array_parse_def apt_pair_array_generate_def pair_ok_def)

theorem pair_array_roundtrip_witness:
  "apt_pair_array_parse [] ''a=1;b;c=x=y'' = [Some (''a'', ''1''), Some (''b'', ''''), Some (''c'', ''x=y'')]"
proof -
  let ?ps = "[(''a'', ''1''), (''b'', ''''), (''c'', ''x=y'')]"
  have "snd (apt_pair_array_generate ?ps) = ''a=1;b;c=x=y''"
    by (simp add: apt_pair_array_generate_def pair_chars_def)
  then show ?thesis
    using pair_array_roundtrip [of ?ps "[]"] by (simp add: pair_ok_def)
qed

end
