(* ===== verification/Apt_Header_Section.thy ===== *)
theory Apt_Header_Section
  imports Apt_Text_Stream
begin

text \<open>
  Header fields and header sections: \<open>libs/apr-toolkit/src/apt_header_field.c\<close> and the parser and generator of
  header sections of \<open>apt_text_message.c\<close>. A section is a ring of field objects and an array of pointers to some
  of them, indexed by the numeric identifier of the field. Field objects have addresses, so that the array can
  point into the ring; \<open>pool\<close> is the next address to allocate.
\<close>

section \<open>Header fields\<close>

definition UNKNOWN_HEADER_FIELD_ID :: nat where "UNKNOWN_HEADER_FIELD_ID = 2 ^ 64 - 1"

record apt_header_field =
  hf_name :: apt_str
  hf_value :: apt_str
  hf_id :: nat

definition apt_header_field_alloc :: apt_header_field where
  "apt_header_field_alloc = \<lparr>hf_name = [], hf_value = [], hf_id = UNKNOWN_HEADER_FIELD_ID\<rparr>"

definition apt_header_field_create :: "apt_str option \<Rightarrow> apt_str option \<Rightarrow> apt_header_field option" where
  "apt_header_field_create name val =
     (case (name, val) of
        (Some n, Some v) \<Rightarrow> Some \<lparr>hf_name = n, hf_value = v, hf_id = UNKNOWN_HEADER_FIELD_ID\<rparr>
      | _ \<Rightarrow> None)"

definition apt_header_field_create_from_line :: "apt_str option \<Rightarrow> char \<Rightarrow> apt_header_field option" where
  "apt_header_field_create_from_line line separator =
     (case line of None \<Rightarrow> None
      | Some l \<Rightarrow>
          (case apt_text_field_read (ts_of l) separator True of
             (False, _, _) \<Rightarrow> None
           | (True, name, s) \<Rightarrow>
               (let (b, item, _) = apt_text_field_read s APT_NUL True
                in Some \<lparr>hf_name = name, hf_value = (if b then item else []), hf_id = UNKNOWN_HEADER_FIELD_ID\<rparr>)))"

definition apt_header_field_copy :: "apt_header_field \<Rightarrow> apt_header_field" where
  "apt_header_field_copy src = \<lparr>hf_name = hf_name src, hf_value = hf_value src, hf_id = hf_id src\<rparr>"

section \<open>Header sections\<close>

type_synonym field_obj = "nat \<times> apt_header_field"

record apt_header_section =
  hs_ring :: "field_obj list"
  hs_arr :: "nat option list"

definition apt_header_section_init :: apt_header_section where
  "apt_header_section_init = \<lparr>hs_ring = [], hs_arr = []\<rparr>"

definition apt_header_section_array_alloc :: "nat \<Rightarrow> apt_header_section \<Rightarrow> bool \<times> apt_header_section" where
  "apt_header_section_array_alloc n h =
     (if n = 0 then (False, h) else (True, h\<lparr>hs_arr := replicate n None\<rparr>))"

definition apt_header_section_field_add :: "field_obj \<Rightarrow> apt_header_section \<Rightarrow> bool \<times> apt_header_section" where
  "apt_header_section_field_add f h =
     (let k = hf_id (snd f)
      in if k < length (hs_arr h)
         then (if hs_arr h ! k \<noteq> None then (False, h)
               else (True, h\<lparr>hs_arr := (hs_arr h)[k := Some (fst f)], hs_ring := hs_ring h @ [f]\<rparr>))
         else (True, h\<lparr>hs_ring := hs_ring h @ [f]\<rparr>))"

fun ring_insert_by_id :: "field_obj \<Rightarrow> field_obj list \<Rightarrow> field_obj list" where
  "ring_insert_by_id f [] = [f]"
| "ring_insert_by_id f (it # ring) =
     (if hf_id (snd f) < hf_id (snd it) then f # it # ring else it # ring_insert_by_id f ring)"

definition apt_header_section_field_insert :: "field_obj \<Rightarrow> apt_header_section \<Rightarrow> bool \<times> apt_header_section" where
  "apt_header_section_field_insert f h =
     (let k = hf_id (snd f)
      in if k < length (hs_arr h)
         then (if hs_arr h ! k \<noteq> None then (False, h)
               else (True, h\<lparr>hs_arr := (hs_arr h)[k := Some (fst f)], hs_ring := ring_insert_by_id f (hs_ring h)\<rparr>))
         else (True, h\<lparr>hs_ring := hs_ring h @ [f]\<rparr>))"

definition apt_header_section_field_set :: "field_obj \<Rightarrow> apt_header_section \<Rightarrow> bool \<times> apt_header_section" where
  "apt_header_section_field_set f h =
     (let k = hf_id (snd f)
      in if length (hs_arr h) \<le> k then (False, h)
         else if hs_arr h ! k \<noteq> None then (False, h)
         else (True, h\<lparr>hs_arr := (hs_arr h)[k := Some (fst f)]\<rparr>))"

definition apt_header_section_field_remove :: "field_obj \<Rightarrow> apt_header_section \<Rightarrow> bool \<times> apt_header_section" where
  "apt_header_section_field_remove f h =
     (let k = hf_id (snd f);
          arr = (if k < length (hs_arr h) then (hs_arr h)[k := None] else hs_arr h)
      in (True, h\<lparr>hs_arr := arr, hs_ring := filter (\<lambda>g. fst g \<noteq> fst f) (hs_ring h)\<rparr>))"

definition apt_header_section_field_check :: "apt_header_section \<Rightarrow> nat \<Rightarrow> bool" where
  "apt_header_section_field_check h k = (if k < length (hs_arr h) then hs_arr h ! k \<noteq> None else False)"

text \<open>The pointer of the array, followed into the ring.\<close>

definition apt_header_section_field_get :: "apt_header_section \<Rightarrow> nat \<Rightarrow> field_obj option" where
  "apt_header_section_field_get h k =
     (if k < length (hs_arr h)
      then (case hs_arr h ! k of None \<Rightarrow> None
            | Some a \<Rightarrow> map_option (Pair a) (map_of (hs_ring h) a))
      else None)"

section \<open>Parsing and generating\<close>

text \<open>The lines that continue a value: each starts with white space. An unfinished line is dropped.\<close>

function fold_lines :: "apt_text_stream \<Rightarrow> apt_str list \<times> apt_text_stream" where
  "fold_lines s =
     (case ts_rest s of [] \<Rightarrow> ([], s)
      | c # _ \<Rightarrow>
          if \<not> apt_text_is_wsp c then ([], s)
          else
            (let s1 = apt_text_white_spaces_skip (s\<lparr>ts_pos := ts_pos s + 1\<rparr>);
                 (b, line, s2) = apt_text_line_read s1;
                 (lines, s3) = fold_lines s2
             in (if b then line # lines else lines, s3)))"
  by pat_completeness auto

lemma line_read_pos:
  "apt_text_line_read s = (b, line, s') \<Longrightarrow> ts_pos s \<le> ts_pos s' \<and> ts_end s' = ts_end s"
  by (auto simp: apt_text_line_read_def split: prod.splits option.splits)

lemma ts_rest_Cons: "ts_rest s = c # cs \<Longrightarrow> ts_pos s < ts_end s"
  by (cases "ts_end s - ts_pos s") (auto simp: ts_rest_def)

lemma ts_rest_nonempty: "ts_rest s \<noteq> [] \<Longrightarrow> ts_pos s < ts_end s"
  by (cases "ts_rest s") (auto dest: ts_rest_Cons)

termination fold_lines
proof (relation "measure (\<lambda>s. ts_end s - ts_pos s)")
  fix s c cs s1 x b y line s2
  assume "ts_rest s = c # cs" "s1 = apt_text_white_spaces_skip (s\<lparr>ts_pos := ts_pos s + 1\<rparr>)"
    "x = apt_text_line_read s1" "(b, y) = x" "(line, s2) = y"
  then show "(s2, s) \<in> measure (\<lambda>s. ts_end s - ts_pos s)"
    using line_read_pos [of s1 b line s2] ts_rest_Cons [of s c cs]
    by (auto simp: apt_text_white_spaces_skip_def ts_skip_def)
qed simp

declare fold_lines.simps [simp del]

definition apt_header_field_parse :: "apt_text_stream \<Rightarrow> apt_header_field option \<times> apt_text_stream" where
  "apt_header_field_parse s =
     (let (b, name, val, s1) = apt_text_header_read s
      in if \<not> b then (None, s1)
         else
           (let (folded, s2) = (if name = [] then ([], s1) else fold_lines s1)
            in (Some \<lparr>hf_name = name, hf_value = val @ concat folded, hf_id = UNKNOWN_HEADER_FIELD_ID\<rparr>, s2)))"

definition apt_header_field_generate ::
  "apt_header_field \<Rightarrow> apt_text_stream \<Rightarrow> (bool \<times> apt_text_stream) option"
where
  "apt_header_field_generate f s = apt_text_name_value_insert (hf_name f) (hf_value f) s"

lemma header_scan_pos: "fst (header_scan cs i nb nl vb) \<Longrightarrow> i < fst (snd (header_scan cs i nb nl vb))"
proof (induction cs arbitrary: i nb nl vb)
  case (Cons c cs)
  have "i < fst (snd (header_scan cs (Suc i) nb' nl' vb'))" if "fst (header_scan cs (Suc i) nb' nl' vb')" for nb' nl' vb'
    using Cons.IH [OF that] by simp
  then show ?case
    using Cons.prems
    by (cases "c = APT_TOKEN_CR"; cases "c = APT_TOKEN_LF"; cases "nl = 0") (simp_all add: Let_def split del: if_split)
qed simp

lemma header_read_pos:
  assumes "apt_text_header_read s = (b, name, val, s')"
  shows "ts_end s' = ts_end s"
    and "is_eos s' \<or> ts_pos s < ts_pos s' \<and> ts_pos s < ts_end s"
proof -
  obtain status n nb nl vb vl where sc: "header_scan (ts_rest s) 0 None 0 None = (status, n, nb, nl, vb, vl)"
    by (metis prod_cases6)
  show "ts_end s' = ts_end s"
    using assms sc by (auto simp: apt_text_header_read_def Let_def split: if_splits)
  show "is_eos s' \<or> ts_pos s < ts_pos s' \<and> ts_pos s < ts_end s"
  proof (cases status)
    case True
    then obtain c cs where "ts_rest s = c # cs" using sc by (cases "ts_rest s") auto
    then have "ts_pos s < ts_end s" by (rule ts_rest_Cons)
    moreover have "0 < n" using header_scan_pos [of "ts_rest s" 0 None 0 None] sc True by simp
    ultimately show ?thesis
      using assms sc True by (auto simp: apt_text_header_read_def Let_def)
  next
    case False
    then show ?thesis
      using assms sc by (auto simp: apt_text_header_read_def Let_def)
  qed
qed

lemma line_read_eos: "apt_text_line_read s = (b, line, s') \<Longrightarrow> is_eos s \<Longrightarrow> is_eos s'"
  by (auto simp: apt_text_line_read_def split: prod.splits option.splits)

lemma fold_lines_stop:
  "ts_rest s = [] \<or> \<not> apt_text_is_wsp (hd (ts_rest s)) \<Longrightarrow> fold_lines s = ([], s)"
  by (subst fold_lines.simps) (auto split: list.splits)

lemma fold_lines_pos:
  "fold_lines s = (ls, s') \<Longrightarrow> ts_pos s \<le> ts_pos s' \<and> ts_end s' = ts_end s \<and> (is_eos s \<longrightarrow> is_eos s')"
proof (induction s arbitrary: ls s' rule: fold_lines.induct)
  case (1 s)
  show ?case
  proof (cases "ts_rest s = [] \<or> \<not> apt_text_is_wsp (hd (ts_rest s))")
    case True
    then show ?thesis using 1(2) fold_lines_stop [OF True] by simp
  next
    case False
    then obtain c cs where c: "ts_rest s = c # cs" "\<not> \<not> apt_text_is_wsp c" by (cases "ts_rest s") auto
    define s1 where "s1 = apt_text_white_spaces_skip (s\<lparr>ts_pos := ts_pos s + 1\<rparr>)"
    obtain b line s2 where s2: "apt_text_line_read s1 = (b, line, s2)" by (metis prod_cases3)
    obtain ls2 s3 where s3: "fold_lines s2 = (ls2, s3)" by fastforce
    have "s' = s3"
      using 1(2) c s2 s3 unfolding s1_def by (simp add: fold_lines.simps [of s] split: if_splits)
    moreover have "ts_pos s \<le> ts_pos s1" "ts_end s1 = ts_end s" "is_eos s1 = is_eos s"
      by (simp_all add: s1_def apt_text_white_spaces_skip_def ts_skip_def)
    ultimately show ?thesis
      using 1(1) [OF c s1_def s2 [symmetric] refl refl s3] line_read_pos [OF s2] line_read_eos [OF s2] by auto
  qed
qed

lemma field_parse_progress:
  assumes "apt_header_field_parse s = (f, s')" "\<not> apt_text_is_eos s'"
  shows "ts_end s' - ts_pos s' < ts_end s - ts_pos s"
proof -
  obtain b name val s1 where r: "apt_text_header_read s = (b, name, val, s1)" by (metis prod_cases4)
  have "ts_pos s1 \<le> ts_pos s' \<and> ts_end s' = ts_end s1 \<and> (is_eos s1 \<longrightarrow> is_eos s')"
    using assms(1) r fold_lines_pos [of s1] by (auto simp: apt_header_field_parse_def split: if_splits prod.splits)
  then show ?thesis
    using header_read_pos [OF r] assms(2) by (auto simp: apt_text_is_eos_def)
qed

function apt_header_section_parse ::
  "nat \<Rightarrow> apt_header_section \<Rightarrow> apt_text_stream \<Rightarrow> bool \<times> apt_header_section \<times> apt_text_stream \<times> nat"
where
  "apt_header_section_parse pool h s =
     (case apt_header_field_parse s of
        (Some f, s') \<Rightarrow>
          if hf_name f \<noteq> [] then
            (let h' = snd (apt_header_section_field_add (pool, f) h)
             in if apt_text_is_eos s' then (False, h', s', pool + 1)
                else apt_header_section_parse (pool + 1) h' s')
          else (True, h, s', pool + 1)
      | (None, s') \<Rightarrow>
          if apt_text_is_eos s' then (False, h, s', pool) else apt_header_section_parse pool h s')"
  by pat_completeness auto
termination
  by (relation "measure (\<lambda>(pool, h, s). ts_end s - ts_pos s)") (auto dest: field_parse_progress [OF sym])

declare apt_header_section_parse.simps [simp del]

text \<open>The result of generating a field is not used.\<close>

fun ring_generate :: "field_obj list \<Rightarrow> apt_text_stream \<Rightarrow> apt_text_stream option" where
  "ring_generate [] s = Some s"
| "ring_generate (f # ring) s = do { (_, s') \<leftarrow> apt_header_field_generate (snd f) s; ring_generate ring s' }"

definition apt_header_section_generate ::
  "apt_header_section \<Rightarrow> apt_text_stream \<Rightarrow> (bool \<times> apt_text_stream) option"
where
  "apt_header_section_generate h s = do { s' \<leftarrow> ring_generate (hs_ring h) s; apt_text_eol_insert s' }"

section \<open>The text of a section\<close>

definition field_line :: "apt_header_field \<Rightarrow> string" where
  "field_line f = hf_name f @ [CHR '':'', APT_TOKEN_SP] @ hf_value f @ CRLF"

definition ring_text :: "field_obj list \<Rightarrow> string" where
  "ring_text ring = concat (map (\<lambda>f. field_line (snd f)) ring)"

definition field_ok :: "apt_header_field \<Rightarrow> bool" where
  "field_ok f \<longleftrightarrow> header_name_ok (hf_name f) \<and> header_value_ok (hf_value f)"

lemma ring_generate_text:
  assumes "ts_wf s" "ts_pos s + length (ring_text ring) < ts_end s"
  shows "\<exists>s'. ring_generate ring s = Some s' \<and> ts_wf s' \<and> ts_ext s (ring_text ring) s'"
  using assms
proof (induction ring arbitrary: s)
  case (Cons f ring)
  have "ts_writes s (field_line (snd f)) (apt_header_field_generate (snd f) s)"
    using ts_writes_name_value [OF Cons.prems(1)] by (simp add: field_line_def apt_header_field_generate_def)
  with Cons.prems(2) obtain s1 where s1: "apt_header_field_generate (snd f) s = Some (True, s1)" "ts_wf s1"
      "ts_ext s (field_line (snd f)) s1"
    by (auto simp: ts_writes_def ring_text_def split: option.splits)
  moreover have "ts_pos s1 + length (ring_text ring) < ts_end s1"
    using Cons.prems(2) s1(3) by (simp add: ts_ext_def ring_text_def)
  ultimately obtain s2 where "ring_generate ring s1 = Some s2" "ts_wf s2" "ts_ext s1 (ring_text ring) s2"
    using Cons.IH by blast
  with s1 show ?case
    using ts_ext_trans [OF s1(3)] by (auto simp: ring_text_def)
qed (simp add: ring_text_def)

lemma section_generate_text:
  assumes "ts_wf s" "ts_pos s + length (ring_text (hs_ring h) @ CRLF) < ts_end s"
  obtains s' where "apt_header_section_generate h s = Some (True, s')" "ts_wf s'"
    and "ts_ext s (ring_text (hs_ring h) @ CRLF) s'"
proof -
  obtain s1 where s1: "ring_generate (hs_ring h) s = Some s1" "ts_wf s1" "ts_ext s (ring_text (hs_ring h)) s1"
    using ring_generate_text [OF assms(1), of "hs_ring h"] assms(2) by auto
  have "ts_pos s1 + 2 < ts_end s1"
    using assms(2) s1(3) by (simp add: ts_ext_def)
  then obtain s2 where "apt_text_eol_insert s1 = Some (True, s2)" "ts_wf s2" "ts_ext s1 CRLF s2"
    using ts_writes_eol [OF s1(2)] by (auto simp: ts_writes_def split: option.splits)
  with s1 that show ?thesis
    using ts_ext_trans [OF s1(3)] by (auto simp: apt_header_section_generate_def)
qed

text \<open>Reading a line back: what follows the line does not continue it.\<close>

lemma field_parse_line:
  assumes "ts_wf s" "field_ok f" "ts_rest s = field_line f @ rest" "rest \<noteq> []" "\<not> apt_text_is_wsp (hd rest)"
  defines "s' \<equiv> s\<lparr>ts_pos := ts_pos s + length (field_line f)\<rparr>"
  shows "apt_header_field_parse s = (Some (f\<lparr>hf_id := UNKNOWN_HEADER_FIELD_ID\<rparr>), s')"
    and "ts_wf s'" and "ts_rest s' = rest"
proof -
  show wf: "ts_wf s'" and rest: "ts_rest s' = rest"
    using ts_advance [OF assms(1), of "length (field_line f)"] assms(3) by (simp_all add: s'_def)
  have "apt_text_header_read s = (True, hf_name f, hf_value f, s')"
    using header_read_line [of "hf_name f" "hf_value f" s rest] assms(2,3)
    by (simp add: field_ok_def field_line_def s'_def)
  moreover have "fold_lines s' = ([], s')"
    using assms(5) rest by (intro fold_lines_stop) simp
  moreover have "hf_name f \<noteq> []"
    using assms(2) by (simp add: field_ok_def header_name_ok_def)
  ultimately show "apt_header_field_parse s = (Some (f\<lparr>hf_id := UNKNOWN_HEADER_FIELD_ID\<rparr>), s')"
    by (simp add: apt_header_field_parse_def)
qed

text \<open>The ring that parsing the text of a ring appends: the same fields, not yet identified, at new addresses.\<close>

definition parsed_ring :: "nat \<Rightarrow> field_obj list \<Rightarrow> field_obj list" where
  "parsed_ring pool ring =
     map2 (\<lambda>a f. (a, (snd f)\<lparr>hf_id := UNKNOWN_HEADER_FIELD_ID\<rparr>)) [pool ..< pool + length ring] ring"

lemma parsed_ring_simps [simp]:
  "parsed_ring pool [] = []"
  "parsed_ring pool (f # ring) = (pool, (snd f)\<lparr>hf_id := UNKNOWN_HEADER_FIELD_ID\<rparr>) # parsed_ring (Suc pool) ring"
  by (simp_all add: parsed_ring_def upt_conv_Cons del: upt_Suc)

lemma section_parse_text:
  assumes "ts_wf s" "\<not> is_eos s" "ts_rest s = ring_text ring @ CRLF @ rest"
    and "\<forall>f \<in> set ring. field_ok (snd f)" "length (hs_arr h) \<le> UNKNOWN_HEADER_FIELD_ID"
  shows "apt_header_section_parse pool h s =
    (True, h\<lparr>hs_ring := hs_ring h @ parsed_ring pool ring\<rparr>,
     s\<lparr>ts_pos := ts_pos s + length (ring_text ring @ CRLF)\<rparr>, pool + length ring + 1)"
  using assms
proof (induction ring arbitrary: pool h s)
  case Nil
  then have "apt_text_header_read s = (True, [], [], s\<lparr>ts_pos := ts_pos s + 2\<rparr>)"
    using header_read_empty [of s rest] by (simp add: ring_text_def)
  then show ?case
    by (simp add: apt_header_section_parse.simps [of pool h s] apt_header_field_parse_def ring_text_def)
next
  case (Cons f ring)
  let ?s1 = "s\<lparr>ts_pos := ts_pos s + length (field_line (snd f))\<rparr>"
  have ok: "field_ok (snd f)" and ne: "hf_name (snd f) \<noteq> []"
    using Cons.prems(4) by (simp_all add: field_ok_def header_name_ok_def)
  have hd: "\<not> apt_text_is_wsp (hd (ring_text ring @ CRLF @ rest))"
    using Cons.prems(4) by (cases ring) (simp_all add: ring_text_def field_ok_def header_name_ok_def field_line_def
      apt_text_is_wsp_def)
  have rs: "ts_rest s = field_line (snd f) @ ring_text ring @ CRLF @ rest"
    using Cons.prems(3) by (simp add: ring_text_def)
  note p = field_parse_line [OF Cons.prems(1) ok rs _ hd]
  have eos: "\<not> apt_text_is_eos ?s1"
    using p(3) Cons.prems(2) ts_rest_nonempty [of ?s1] by (simp add: apt_text_is_eos_def)
  show ?case
    using p eos ne Cons.IH [of ?s1 "h\<lparr>hs_ring := hs_ring h @ [(pool, (snd f)\<lparr>hf_id := UNKNOWN_HEADER_FIELD_ID\<rparr>)]\<rparr>" "Suc pool"]
      Cons.prems(2,4,5)
    by (simp add: apt_header_section_parse.simps [of pool h s] apt_header_section_field_add_def Let_def ring_text_def add.assoc)
qed

section \<open>The array of pointers\<close>

text \<open>
  The invariant of a section: field objects have distinct addresses, and a pointer of the array leads to a field
  of the ring that has the identifier of the slot.
\<close>

definition hs_wf :: "apt_header_section \<Rightarrow> bool" where
  "hs_wf h \<longleftrightarrow> distinct (map fst (hs_ring h)) \<and>
     (\<forall>k < length (hs_arr h). \<forall>a. hs_arr h ! k = Some a \<longrightarrow> (\<exists>f. (a, f) \<in> set (hs_ring h) \<and> hf_id f = k))"

definition hs_addrs :: "apt_header_section \<Rightarrow> nat set" where
  "hs_addrs h = fst ` set (hs_ring h)"

lemma hs_wf_init [simp]: "hs_wf apt_header_section_init"
  by (simp add: hs_wf_def apt_header_section_init_def)

lemma hs_wf_alloc: "distinct (map fst (hs_ring h)) \<Longrightarrow> hs_wf (snd (apt_header_section_array_alloc n h)) \<or> n = 0"
  by (simp add: hs_wf_def apt_header_section_array_alloc_def)

lemma field_check_iff: "hs_wf h \<Longrightarrow> apt_header_section_field_check h k \<longleftrightarrow> apt_header_section_field_get h k \<noteq> None"
  by (auto simp: hs_wf_def apt_header_section_field_check_def apt_header_section_field_get_def
      map_of_eq_None_iff image_iff split: option.splits)

text \<open>
  What a client relies on, whichever operation puts fields into the section: a field whose slot is taken is refused,
  and any other one is found afterwards under its identifier, along with what was found before.
\<close>

locale field_section =
  fixes put :: "field_obj \<Rightarrow> apt_header_section \<Rightarrow> bool \<times> apt_header_section"
  assumes put_taken: "\<lbrakk>hs_wf h; apt_header_section_field_get h (hf_id (snd f)) \<noteq> None\<rbrakk> \<Longrightarrow> put f h = (False, h)"
    and put_free: "\<lbrakk>hs_wf h; hf_id (snd f) < length (hs_arr h); fst f \<notin> hs_addrs h;
      apt_header_section_field_get h (hf_id (snd f)) = None\<rbrakk> \<Longrightarrow>
      \<exists>h'. put f h = (True, h') \<and> hs_wf h' \<and> length (hs_arr h') = length (hs_arr h) \<and>
        hs_addrs h' = insert (fst f) (hs_addrs h) \<and>
        apt_header_section_field_get h' = (apt_header_section_field_get h)(hf_id (snd f) \<mapsto> f)"
begin

text \<open>Fields with distinct identifiers and addresses are all accepted, and all found again.\<close>

lemma put_all:
  assumes "hs_wf h" "distinct (map (\<lambda>f. hf_id (snd f)) fs)" "distinct (map fst fs)"
    and "\<forall>f \<in> set fs. hf_id (snd f) < length (hs_arr h) \<and> apt_header_section_field_get h (hf_id (snd f)) = None \<and>
      fst f \<notin> hs_addrs h"
  shows "apt_header_section_field_get (fold (\<lambda>f h. snd (put f h)) fs h) =
    (apt_header_section_field_get h)(map (\<lambda>f. hf_id (snd f)) fs [\<mapsto>] fs)"
  using assms
proof (induction fs arbitrary: h)
  case (Cons f fs)
  obtain h' where h': "put f h = (True, h')" "hs_wf h'" "length (hs_arr h') = length (hs_arr h)"
      "hs_addrs h' = insert (fst f) (hs_addrs h)"
      "apt_header_section_field_get h' = (apt_header_section_field_get h)(hf_id (snd f) \<mapsto> f)"
    using put_free [of h f] Cons.prems by auto
  have "\<forall>g \<in> set fs. hf_id (snd g) < length (hs_arr h') \<and> apt_header_section_field_get h' (hf_id (snd g)) = None \<and>
      fst g \<notin> hs_addrs h'"
    using Cons.prems h' by (auto simp: image_iff)
  then have "apt_header_section_field_get (fold (\<lambda>f h. snd (put f h)) fs h') =
      (apt_header_section_field_get h')(map (\<lambda>f. hf_id (snd f)) fs [\<mapsto>] fs)"
    using Cons.IH [OF h'(2)] Cons.prems by simp
  moreover have "fold (\<lambda>f h. snd (put f h)) (f # fs) h = fold (\<lambda>f h. snd (put f h)) fs h'"
    by (simp add: h'(1))
  ultimately show ?case
    by (simp only: list.map map_upds_Cons h'(5))
qed simp

lemma put_refused: "hs_wf h \<Longrightarrow> apt_header_section_field_get h (hf_id (snd f)) = Some g \<Longrightarrow> put f h = (False, h)"
  by (rule put_taken) simp_all

end

lemma set_ring_insert [simp]: "set (ring_insert_by_id f ring) = insert f (set ring)"
  by (induction ring) auto

lemma distinct_ring_insert:
  "distinct (map fst (ring_insert_by_id f ring)) \<longleftrightarrow> fst f \<notin> fst ` set ring \<and> distinct (map fst ring)"
  by (induction ring) auto

text \<open>Both operations only differ in the place of the new field in the ring.\<close>

lemma section_put:
  assumes "hs_wf h" "hf_id (snd f) < length (hs_arr h)" "fst f \<notin> hs_addrs h"
    and "set ring' = insert f (set (hs_ring h))" "distinct (map fst ring')"
  defines "h' \<equiv> h\<lparr>hs_arr := (hs_arr h)[hf_id (snd f) := Some (fst f)], hs_ring := ring'\<rparr>"
  shows "hs_wf h'" and "hs_addrs h' = insert (fst f) (hs_addrs h)"
    and "apt_header_section_field_get h' = (apt_header_section_field_get h)(hf_id (snd f) \<mapsto> f)"
proof -
  show "hs_wf h'" and "hs_addrs h' = insert (fst f) (hs_addrs h)"
    using assms by (auto simp: hs_wf_def hs_addrs_def nth_list_update intro: exI [of _ "snd f"]) blast
  have d: "distinct (map fst (hs_ring h))" using assms(1) by (simp add: hs_wf_def)
  have new: "map_of ring' (fst f) = Some (snd f)"
    using assms(4,5) by (intro map_of_is_SomeI) auto
  have old: "map_of ring' a = map_of (hs_ring h) a" if addr: "a \<in> hs_addrs h" for a
  proof -
    obtain g where g: "(a, g) \<in> set (hs_ring h)" using addr unfolding hs_addrs_def by force
    then have "map_of ring' a = Some g" using assms(4,5) by (intro map_of_is_SomeI) auto
    moreover have "map_of (hs_ring h) a = Some g" using g d by (rule map_of_is_SomeI [rotated])
    ultimately show ?thesis by simp
  qed
  have ptr: "a \<in> hs_addrs h" if "hs_arr h ! k = Some a" "k < length (hs_arr h)" for k a
    using assms(1) that unfolding hs_wf_def hs_addrs_def by (metis fst_conv image_eqI)
  show "apt_header_section_field_get h' = (apt_header_section_field_get h)(hf_id (snd f) \<mapsto> f)"
    using assms(2) new old ptr
    by (auto simp: h'_def apt_header_section_field_get_def fun_eq_iff nth_list_update split: option.splits)
qed

interpretation fadd: field_section apt_header_section_field_add
proof
  fix h :: apt_header_section and f
  assume h: "hs_wf h"
  show "apt_header_section_field_add f h = (False, h)" if "apt_header_section_field_get h (hf_id (snd f)) \<noteq> None"
    using that field_check_iff [OF h, of "hf_id (snd f)"]
    by (auto simp: apt_header_section_field_add_def apt_header_section_field_check_def Let_def split: if_splits)
  assume a: "hf_id (snd f) < length (hs_arr h)" "fst f \<notin> hs_addrs h" "apt_header_section_field_get h (hf_id (snd f)) = None"
  have "distinct (map fst (hs_ring h @ [f]))"
    using h a(2) by (auto simp: hs_wf_def hs_addrs_def)
  from section_put [OF h a(1,2) _ this] a field_check_iff [OF h, of "hf_id (snd f)"]
  show "\<exists>h'. apt_header_section_field_add f h = (True, h') \<and> hs_wf h' \<and> length (hs_arr h') = length (hs_arr h) \<and>
        hs_addrs h' = insert (fst f) (hs_addrs h) \<and>
        apt_header_section_field_get h' = (apt_header_section_field_get h)(hf_id (snd f) \<mapsto> f)"
    by (auto simp: apt_header_section_field_add_def apt_header_section_field_check_def Let_def)
qed

interpretation fins: field_section apt_header_section_field_insert
proof
  fix h :: apt_header_section and f
  assume h: "hs_wf h"
  show "apt_header_section_field_insert f h = (False, h)" if "apt_header_section_field_get h (hf_id (snd f)) \<noteq> None"
    using that field_check_iff [OF h, of "hf_id (snd f)"]
    by (auto simp: apt_header_section_field_insert_def apt_header_section_field_check_def Let_def split: if_splits)
  assume a: "hf_id (snd f) < length (hs_arr h)" "fst f \<notin> hs_addrs h" "apt_header_section_field_get h (hf_id (snd f)) = None"
  have "distinct (map fst (ring_insert_by_id f (hs_ring h)))"
    using h a(2) by (auto simp: hs_wf_def hs_addrs_def distinct_ring_insert)
  from section_put [OF h a(1,2) _ this] a field_check_iff [OF h, of "hf_id (snd f)"]
  show "\<exists>h'. apt_header_section_field_insert f h = (True, h') \<and> hs_wf h' \<and> length (hs_arr h') = length (hs_arr h) \<and>
        hs_addrs h' = insert (fst f) (hs_addrs h) \<and>
        apt_header_section_field_get h' = (apt_header_section_field_get h)(hf_id (snd f) \<mapsto> f)"
    by (auto simp: apt_header_section_field_insert_def apt_header_section_field_check_def Let_def)
qed

lemma ring_insert_sorted:
  "sorted (map (\<lambda>f. hf_id (snd f)) ring) \<Longrightarrow> sorted (map (\<lambda>f. hf_id (snd f)) (ring_insert_by_id f ring))"
  by (induction ring) (auto simp: order.strict_implies_order)

section \<open>Properties\<close>

lemma section_text_parsed:
  assumes "ts_wf s" "\<not> is_eos s" "\<forall>f \<in> set (hs_ring h). field_ok (snd f)"
    and "ts_pos s + length (ring_text (hs_ring h)) + 2 < ts_end s"
  obtains s' where "apt_header_section_generate h s = Some (True, s')"
    "apt_header_section_parse pool apt_header_section_init (s'\<lparr>ts_pos := ts_pos s\<rparr>) =
      (True, \<lparr>hs_ring = parsed_ring pool (hs_ring h), hs_arr = []\<rparr>, s', pool + length (hs_ring h) + 1)"
proof -
  obtain s' where s': "apt_header_section_generate h s = Some (True, s')" "ts_wf s'"
      "ts_ext s (ring_text (hs_ring h) @ CRLF) s'"
    using section_generate_text [OF assms(1), of h] assms(4) by auto
  let ?r = "s'\<lparr>ts_pos := ts_pos s\<rparr>"
  have le: "ts_pos s' \<le> ts_end s" using assms(4) s'(3) by (simp add: ts_ext_def)
  have "ts_rest ?r = ring_text (hs_ring h) @ CRLF @ ts_rest s'"
    using ts_ext_rest [OF assms(1) s'(3) le] by simp
  moreover have "ts_wf ?r" "\<not> is_eos ?r"
    using s'(3) assms(1,2) by (auto simp: ts_wf_def ts_ext_def)
  ultimately have "apt_header_section_parse pool apt_header_section_init ?r =
      (True, \<lparr>hs_ring = parsed_ring pool (hs_ring h), hs_arr = []\<rparr>, s', pool + length (hs_ring h) + 1)"
    using section_parse_text [of ?r "hs_ring h" "ts_rest s'" apt_header_section_init pool] assms(3) s'(3)
    by (simp add: apt_header_section_init_def ts_ext_def)
  with s'(1) that show ?thesis by blast
qed

text \<open>
  C15: a header section that fits into the buffer is generated completely, and parsing the generated text gives a
  section with the same names and values in the same order, and the cursor behind the blank line. Names and values
  are those a header line can hold.
\<close>

theorem header_section_roundtrip:
  assumes "ts_wf s" "\<not> is_eos s" "\<forall>f \<in> set (hs_ring h). field_ok (snd f)"
    and "ts_pos s + length (ring_text (hs_ring h)) + 2 < ts_end s"
  shows "\<exists>s' h'. apt_header_section_generate h s = Some (True, s') \<and>
    apt_header_section_parse pool apt_header_section_init (s'\<lparr>ts_pos := ts_pos s\<rparr>) =
      (True, h', s', pool + length (hs_ring h) + 1) \<and>
    map (\<lambda>f. (hf_name (snd f), hf_value (snd f))) (hs_ring h') =
    map (\<lambda>f. (hf_name (snd f), hf_value (snd f))) (hs_ring h)"
proof -
  obtain s' where "apt_header_section_generate h s = Some (True, s')"
      "apt_header_section_parse pool apt_header_section_init (s'\<lparr>ts_pos := ts_pos s\<rparr>) =
        (True, \<lparr>hs_ring = parsed_ring pool (hs_ring h), hs_arr = []\<rparr>, s', pool + length (hs_ring h) + 1)"
    by (rule section_text_parsed [OF assms, of pool])
  moreover have "map (\<lambda>f. (hf_name (snd f), hf_value (snd f))) (parsed_ring pool ring) =
      map (\<lambda>f. (hf_name (snd f), hf_value (snd f))) ring" for ring
    by (induction ring arbitrary: pool) simp_all
  ultimately show ?thesis by auto
qed

theorem header_section_roundtrip_witness:
  "\<exists>s' h'. apt_header_section_generate
      \<lparr>hs_ring = [(0, \<lparr>hf_name = ''A'', hf_value = ''1'', hf_id = 0\<rparr>), (1, \<lparr>hf_name = ''B'', hf_value = '''', hf_id = 1\<rparr>)],
       hs_arr = []\<rparr> (ts_of (replicate 20 APT_NUL)) = Some (True, s') \<and>
    apt_header_section_parse 7 apt_header_section_init (s'\<lparr>ts_pos := 0\<rparr>) = (True, h', s', 10) \<and>
    map (\<lambda>f. (hf_name (snd f), hf_value (snd f))) (hs_ring h') = [(''A'', ''1''), (''B'', '''')]"
proof -
  let ?h = "\<lparr>hs_ring = [(0, \<lparr>hf_name = ''A'', hf_value = ''1'', hf_id = 0\<rparr>),
    (1, \<lparr>hf_name = ''B'', hf_value = '''', hf_id = 1\<rparr>)], hs_arr = []\<rparr>"
  let ?s = "ts_of (replicate 20 APT_NUL)"
  have fits: "ts_pos ?s + length (ring_text (hs_ring ?h)) + 2 < ts_end ?s" by code_simp
  have eos: "\<not> is_eos ?s" by code_simp
  have ok: "\<forall>f \<in> set (hs_ring ?h). field_ok (snd f)" by code_simp
  have pos: "ts_pos ?s = 0" by code_simp
  from header_section_roundtrip [OF ts_wf_ts_of eos ok fits, of 7] show ?thesis
    unfolding pos by simp
qed





end
