(* ===== verification/Mrcp_Start_Line.thy ===== *)
theory Mrcp_Start_Line
  imports Apt_Header_Section
begin

text \<open>
  The start line of MRCP messages: \<open>libs/mrcp/message/src/mrcp_start_line.c\<close>, for both versions of the protocol,
  and the length field of version 2, which counts its own digits. Request identifiers are 32-bit words.
\<close>

section \<open>Data\<close>

datatype mrcp_version_e = MRCP_VERSION_UNKNOWN | MRCP_VERSION_1 | MRCP_VERSION_2

datatype mrcp_request_state_e =
  MRCP_REQUEST_STATE_COMPLETE | MRCP_REQUEST_STATE_INPROGRESS | MRCP_REQUEST_STATE_PENDING | MRCP_REQUEST_STATE_UNKNOWN

datatype mrcp_message_type_e =
  MRCP_MESSAGE_TYPE_UNKNOWN | MRCP_MESSAGE_TYPE_REQUEST | MRCP_MESSAGE_TYPE_RESPONSE | MRCP_MESSAGE_TYPE_EVENT

definition MRCP_STATUS_CODE_UNKNOWN :: nat where "MRCP_STATUS_CODE_UNKNOWN = 0"
definition MRCP_STATUS_CODE_SUCCESS :: nat where "MRCP_STATUS_CODE_SUCCESS = 200"
definition MRCP_STATUS_CODE_METHOD_NOT_ALLOWED :: nat where "MRCP_STATUS_CODE_METHOD_NOT_ALLOWED = 401"
definition MRCP_STATUS_CODE_METHOD_NOT_VALID :: nat where "MRCP_STATUS_CODE_METHOD_NOT_VALID = 402"
definition MRCP_STATUS_CODE_MISSING_PARAM :: nat where "MRCP_STATUS_CODE_MISSING_PARAM = 406"
definition MRCP_STATUS_CODE_METHOD_FAILED :: nat where "MRCP_STATUS_CODE_METHOD_FAILED = 407"
definition MRCP_STATUS_CODE_NOT_FOUND :: nat where "MRCP_STATUS_CODE_NOT_FOUND = 405"

type_synonym mrcp_request_id = u32

record mrcp_start_line =
  message_type :: mrcp_message_type_e
  version :: mrcp_version_e
  sl_length :: nat
  request_id :: mrcp_request_id
  method_name :: apt_str
  method_id :: nat
  status_code :: nat
  request_state :: mrcp_request_state_e

text \<open>The method identifier is not initialised: it keeps whatever the memory held.\<close>

definition mrcp_start_line_init :: "nat \<Rightarrow> mrcp_start_line" where
  "mrcp_start_line_init garbage =
     \<lparr>message_type = MRCP_MESSAGE_TYPE_UNKNOWN, version = MRCP_VERSION_UNKNOWN, sl_length = 0, request_id = 0,
      method_name = [], method_id = garbage, status_code = MRCP_STATUS_CODE_UNKNOWN,
      request_state = MRCP_REQUEST_STATE_UNKNOWN\<rparr>"

section \<open>Fields of the line\<close>

definition MRCP_NAME :: string where "MRCP_NAME = ''MRCP''"
definition MAX_DIGIT_COUNT :: nat where "MAX_DIGIT_COUNT = 6"

definition mrcp_request_state_string_table :: "apt_str_table_item list" where
  "mrcp_request_state_string_table =
     [\<lparr>item_value = ''COMPLETE'', item_key = 0\<rparr>, \<lparr>item_value = ''IN-PROGRESS'', item_key = 0\<rparr>,
      \<lparr>item_value = ''PENDING'', item_key = 0\<rparr>]"

definition version_number :: "mrcp_version_e \<Rightarrow> nat" where
  "version_number v = (case v of MRCP_VERSION_UNKNOWN \<Rightarrow> 0 | MRCP_VERSION_1 \<Rightarrow> 1 | MRCP_VERSION_2 \<Rightarrow> 2)"

definition request_state_number :: "mrcp_request_state_e \<Rightarrow> nat" where
  "request_state_number r =
     (case r of MRCP_REQUEST_STATE_COMPLETE \<Rightarrow> 0 | MRCP_REQUEST_STATE_INPROGRESS \<Rightarrow> 1
      | MRCP_REQUEST_STATE_PENDING \<Rightarrow> 2 | MRCP_REQUEST_STATE_UNKNOWN \<Rightarrow> 3)"

definition request_state_of :: "nat \<Rightarrow> mrcp_request_state_e" where
  "request_state_of n =
     (if n = 0 then MRCP_REQUEST_STATE_COMPLETE else if n = 1 then MRCP_REQUEST_STATE_INPROGRESS
      else if n = 2 then MRCP_REQUEST_STATE_PENDING else MRCP_REQUEST_STATE_UNKNOWN)"

text \<open>A field is followed by a space or an end of line in the buffer, which no version number equals.\<close>

definition mrcp_version_parse :: "apt_str \<Rightarrow> mrcp_version_e" where
  "mrcp_version_parse field =
     (if length field \<le> length MRCP_NAME \<or> \<not> strncaseeq field MRCP_NAME (length MRCP_NAME) then MRCP_VERSION_UNKNOWN
      else
        (case drop (length MRCP_NAME) field of
           c # d # _ \<Rightarrow>
             if c = CHR ''/'' then
               (if d = CHR ''1'' then MRCP_VERSION_1 else if d = CHR ''2'' then MRCP_VERSION_2 else MRCP_VERSION_UNKNOWN)
             else MRCP_VERSION_UNKNOWN
         | _ \<Rightarrow> MRCP_VERSION_UNKNOWN))"

definition mrcp_version_generate ::
  "apr_fmt \<Rightarrow> mrcp_version_e \<Rightarrow> apt_text_stream \<Rightarrow> (bool \<times> apt_text_stream) option"
where
  "mrcp_version_generate apr v s =
     (if ts_end s \<le> ts_pos s + length MRCP_NAME + 1 then Some (False, s)
      else do {
        s1 \<leftarrow> ts_put MRCP_NAME s;
        s2 \<leftarrow> ts_put [CHR ''/''] s1;
        (b, s3) \<leftarrow> apt_text_size_value_insert apr (version_number v) s2;
        if \<not> b then Some (False, s3)
        else if ts_end s3 \<le> ts_pos s3 + 2 then Some (False, s3)
        else do { s4 \<leftarrow> ts_put ''.0'' s3; Some (True, s4) }
      })"

definition mrcp_request_state_parse :: "apt_str \<Rightarrow> mrcp_request_state_e" where
  "mrcp_request_state_parse str =
     request_state_of (apt_string_table_id_find mrcp_request_state_string_table 3 str)"

definition mrcp_request_state_generate ::
  "mrcp_request_state_e \<Rightarrow> apt_text_stream \<Rightarrow> (bool \<times> apt_text_stream) option"
where
  "mrcp_request_state_generate r s =
     (let name = apt_string_table_str_get mrcp_request_state_string_table 3 (request_state_number r)
      in if request_state_number r < 3
         then do { n \<leftarrow> name; s' \<leftarrow> ts_put n s; Some (True, s') }
         else Some (True, s))"

text \<open>The status code is an enumeration, stored in 32 bits.\<close>

definition mrcp_status_code_parse :: "apt_str \<Rightarrow> nat" where
  "mrcp_status_code_parse field = apt_size_value_parse field mod 2 ^ 32"

definition mrcp_status_code_generate ::
  "apr_fmt \<Rightarrow> nat \<Rightarrow> apt_text_stream \<Rightarrow> (bool \<times> apt_text_stream) option"
where
  "mrcp_status_code_generate apr code s = apt_text_size_value_insert apr code s"

definition mrcp_request_id_parse :: "apt_str \<Rightarrow> mrcp_request_id" where
  "mrcp_request_id_parse field = word_of_int (atol field)"

definition mrcp_request_id_generate ::
  "apr_fmt \<Rightarrow> mrcp_request_id \<Rightarrow> apt_text_stream \<Rightarrow> (bool \<times> apt_text_stream) option"
where
  "mrcp_request_id_generate apr i s = ts_print (apr_snprintf_d apr (ts_end s - ts_pos s) i) s"

section \<open>Version 1\<close>

definition mrcp_request_line_parse ::
  "mrcp_start_line \<Rightarrow> apt_text_stream \<Rightarrow> bool \<times> mrcp_start_line"
where
  "mrcp_request_line_parse sl s =
     (case apt_text_field_read s APT_TOKEN_SP True of
        (False, _, _) \<Rightarrow> (False, sl)
      | (True, f1, s1) \<Rightarrow>
          (let sl = sl\<lparr>request_id := mrcp_request_id_parse f1\<rparr> in
           case apt_text_field_read s1 APT_TOKEN_SP True of
             (False, _, _) \<Rightarrow> (False, sl)
           | (True, f2, s2) \<Rightarrow>
               (let sl = sl\<lparr>request_state := mrcp_request_state_parse f2\<rparr>;
                    finish = (\<lambda>sl f. let sl = sl\<lparr>version := mrcp_version_parse f\<rparr>
                                     in (version sl \<noteq> MRCP_VERSION_UNKNOWN, sl))
                in if request_state sl = MRCP_REQUEST_STATE_UNKNOWN
                   then finish (sl\<lparr>message_type := MRCP_MESSAGE_TYPE_REQUEST\<rparr>) f2
                   else
                     (let sl = sl\<lparr>message_type := MRCP_MESSAGE_TYPE_EVENT\<rparr> in
                      case apt_text_field_read s2 APT_TOKEN_SP True of
                        (False, _, _) \<Rightarrow> (False, sl)
                      | (True, f3, _) \<Rightarrow> finish sl f3))))"

definition request_line_field_generate :: "apr_fmt \<Rightarrow> mrcp_start_line \<Rightarrow> apt_text_stream \<Rightarrow> apt_text_stream option" where
  "request_line_field_generate apr sl s =
     (if message_type sl = MRCP_MESSAGE_TYPE_REQUEST then
        (if status_code sl \<noteq> MRCP_STATUS_CODE_UNKNOWN
         then do { (_, t) \<leftarrow> mrcp_status_code_generate apr (status_code sl) s; ts_put [APT_TOKEN_SP] t }
         else Some s)
      else if message_type sl = MRCP_MESSAGE_TYPE_EVENT then
        do { (_, t) \<leftarrow> mrcp_request_state_generate (request_state sl) s; ts_put [APT_TOKEN_SP] t }
      else Some s)"

definition mrcp_request_line_generate ::
  "apr_fmt \<Rightarrow> mrcp_start_line \<Rightarrow> apt_text_stream \<Rightarrow> (bool \<times> apt_text_stream) option"
where
  "mrcp_request_line_generate apr sl s = do {
     s1 \<leftarrow> ts_put (method_name sl) s;
     s2 \<leftarrow> ts_put [APT_TOKEN_SP] s1;
     (_, s3) \<leftarrow> mrcp_request_id_generate apr (request_id sl) s2;
     s4 \<leftarrow> ts_put [APT_TOKEN_SP] s3;
     s5 \<leftarrow> request_line_field_generate apr sl s4;
     (_, s6) \<leftarrow> mrcp_version_generate apr (version sl) s5;
     Some (True, s6)
   }"

definition mrcp_response_line_parse ::
  "mrcp_start_line \<Rightarrow> apt_text_stream \<Rightarrow> bool \<times> mrcp_start_line"
where
  "mrcp_response_line_parse sl s =
     (let sl = sl\<lparr>sl_length := 0\<rparr>;
          (b0, sl, s) =
            (if version sl = MRCP_VERSION_2 then
               (case apt_text_field_read s APT_TOKEN_SP True of
                  (False, _, s') \<Rightarrow> (False, sl, s')
                | (True, f, s') \<Rightarrow> (True, sl\<lparr>sl_length := apt_size_value_parse f\<rparr>, s'))
             else (True, sl, s))
      in if \<not> b0 then (False, sl)
         else
           (case apt_text_field_read s APT_TOKEN_SP True of
              (False, _, _) \<Rightarrow> (False, sl)
            | (True, f1, s1) \<Rightarrow>
                (let sl = sl\<lparr>request_id := mrcp_request_id_parse f1\<rparr> in
                 case apt_text_field_read s1 APT_TOKEN_SP True of
                   (False, _, _) \<Rightarrow> (False, sl)
                 | (True, f2, s2) \<Rightarrow>
                     (let sl = sl\<lparr>status_code := mrcp_status_code_parse f2\<rparr> in
                      case apt_text_field_read s2 APT_TOKEN_SP True of
                        (False, _, _) \<Rightarrow> (False, sl)
                      | (True, f3, _) \<Rightarrow> (True, sl\<lparr>request_state := mrcp_request_state_parse f3\<rparr>)))))"

definition mrcp_response_line_generate ::
  "apr_fmt \<Rightarrow> mrcp_start_line \<Rightarrow> apt_text_stream \<Rightarrow> (bool \<times> apt_text_stream) option"
where
  "mrcp_response_line_generate apr sl s = do {
     (_, s1) \<leftarrow> mrcp_version_generate apr (version sl) s;
     s2 \<leftarrow> ts_put [APT_TOKEN_SP] s1;
     (_, s3) \<leftarrow> mrcp_request_id_generate apr (request_id sl) s2;
     s4 \<leftarrow> ts_put [APT_TOKEN_SP] s3;
     (_, s5) \<leftarrow> mrcp_status_code_generate apr (status_code sl) s4;
     s6 \<leftarrow> ts_put [APT_TOKEN_SP] s5;
     (_, s7) \<leftarrow> mrcp_request_state_generate (request_state sl) s6;
     Some (True, s7)
   }"

section \<open>Version 2\<close>

definition mrcp_v2_start_line_parse ::
  "mrcp_start_line \<Rightarrow> apt_text_stream \<Rightarrow> bool \<times> mrcp_start_line"
where
  "mrcp_v2_start_line_parse sl s =
     (case apt_text_field_read s APT_TOKEN_SP True of
        (False, _, _) \<Rightarrow> (False, sl)
      | (True, f0, s0) \<Rightarrow>
          (let sl = sl\<lparr>sl_length := apt_size_value_parse f0\<rparr> in
           case apt_text_field_read s0 APT_TOKEN_SP True of
             (False, _, _) \<Rightarrow> (False, sl)
           | (True, f1, s1) \<Rightarrow>
               (let sl = sl\<lparr>request_id := mrcp_request_id_parse f1\<rparr>
                in if request_id sl = 0 \<and> hd f1 \<noteq> CHR ''0'' then
                     (let sl = sl\<lparr>message_type := MRCP_MESSAGE_TYPE_REQUEST, method_name := f1\<rparr> in
                      case apt_text_field_read s1 APT_TOKEN_SP True of
                        (False, _, _) \<Rightarrow> (False, sl)
                      | (True, f2, s2) \<Rightarrow>
                          (let sl = sl\<lparr>request_id := mrcp_request_id_parse f2\<rparr> in
                           case apt_text_field_read s2 APT_TOKEN_SP True of
                             (True, f3, _) \<Rightarrow>
                               (True, sl\<lparr>request_state := mrcp_request_state_parse f3,
                                         message_type := MRCP_MESSAGE_TYPE_EVENT\<rparr>)
                           | (False, _, _) \<Rightarrow> (True, sl)))
                   else
                     (let sl = sl\<lparr>message_type := MRCP_MESSAGE_TYPE_RESPONSE\<rparr> in
                      case apt_text_field_read s1 APT_TOKEN_SP True of
                        (False, _, _) \<Rightarrow> (False, sl)
                      | (True, f2, s2) \<Rightarrow>
                          (let sl = sl\<lparr>status_code := mrcp_status_code_parse f2\<rparr> in
                           case apt_text_field_read s2 APT_TOKEN_SP True of
                             (False, _, _) \<Rightarrow> (False, sl)
                           | (True, f3, _) \<Rightarrow> (True, sl\<lparr>request_state := mrcp_request_state_parse f3\<rparr>))))))"

text \<open>The fields after the length.\<close>

definition v2_fields_generate :: "apr_fmt \<Rightarrow> mrcp_start_line \<Rightarrow> apt_text_stream \<Rightarrow> apt_text_stream option" where
  "v2_fields_generate apr sl s =
     (if message_type sl = MRCP_MESSAGE_TYPE_RESPONSE then do {
        (_, t1) \<leftarrow> mrcp_request_id_generate apr (request_id sl) s;
        t2 \<leftarrow> ts_put [APT_TOKEN_SP] t1;
        (_, t3) \<leftarrow> mrcp_status_code_generate apr (status_code sl) t2;
        t4 \<leftarrow> ts_put [APT_TOKEN_SP] t3;
        (_, t5) \<leftarrow> mrcp_request_state_generate (request_state sl) t4;
        Some t5
      } else do {
        t1 \<leftarrow> ts_put (method_name sl) s;
        t2 \<leftarrow> ts_put [APT_TOKEN_SP] t1;
        (_, t3) \<leftarrow> mrcp_request_id_generate apr (request_id sl) t2;
        if message_type sl = MRCP_MESSAGE_TYPE_EVENT then do {
          t4 \<leftarrow> ts_put [APT_TOKEN_SP] t3;
          (_, t5) \<leftarrow> mrcp_request_state_generate (request_state sl) t4;
          Some t5
        } else Some t3
      })"

text \<open>The length is first the offset of the reserved digits.\<close>

definition mrcp_v2_start_line_generate ::
  "apr_fmt \<Rightarrow> mrcp_start_line \<Rightarrow> apt_text_stream \<Rightarrow> (bool \<times> mrcp_start_line \<times> apt_text_stream) option"
where
  "mrcp_v2_start_line_generate apr sl s = do {
     (_, s1) \<leftarrow> mrcp_version_generate apr (version sl) s;
     s2 \<leftarrow> ts_put [APT_TOKEN_SP] s1;
     let sl = sl\<lparr>sl_length := ts_pos s2 - ts_pos s\<rparr>;
     s3 \<leftarrow> ts_put (replicate (MAX_DIGIT_COUNT + 1) APT_TOKEN_SP) s2;
     s4 \<leftarrow> v2_fields_generate apr sl s3;
     Some (True, sl, s4)
   }"

section \<open>The start line\<close>

definition mrcp_start_line_parse :: "mrcp_start_line \<Rightarrow> apt_str \<Rightarrow> bool \<times> mrcp_start_line" where
  "mrcp_start_line_parse sl str =
     (let sl = sl\<lparr>message_type := MRCP_MESSAGE_TYPE_UNKNOWN\<rparr> in
      case apt_text_field_read (ts_of str) APT_TOKEN_SP True of
        (False, _, _) \<Rightarrow> (False, sl)
      | (True, field, line) \<Rightarrow>
          if take (length MRCP_NAME) field = MRCP_NAME then
            (let sl = sl\<lparr>version := mrcp_version_parse field\<rparr>
             in case version sl of
                  MRCP_VERSION_1 \<Rightarrow> mrcp_response_line_parse (sl\<lparr>message_type := MRCP_MESSAGE_TYPE_RESPONSE\<rparr>) line
                | MRCP_VERSION_2 \<Rightarrow> mrcp_v2_start_line_parse sl line
                | MRCP_VERSION_UNKNOWN \<Rightarrow> (False, sl))
          else mrcp_request_line_parse (sl\<lparr>method_name := field\<rparr>) line)"

definition mrcp_start_line_generate ::
  "apr_fmt \<Rightarrow> mrcp_start_line \<Rightarrow> apt_text_stream \<Rightarrow> (bool \<times> mrcp_start_line \<times> apt_text_stream) option"
where
  "mrcp_start_line_generate apr sl s = do {
     (status, sl, s1) \<leftarrow>
       (case version sl of
          MRCP_VERSION_1 \<Rightarrow>
            (case message_type sl of
               MRCP_MESSAGE_TYPE_REQUEST \<Rightarrow> do { (b, t) \<leftarrow> mrcp_request_line_generate apr sl s; Some (b, sl, t) }
             | MRCP_MESSAGE_TYPE_RESPONSE \<Rightarrow> do { (b, t) \<leftarrow> mrcp_response_line_generate apr sl s; Some (b, sl, t) }
             | MRCP_MESSAGE_TYPE_EVENT \<Rightarrow> do { (b, t) \<leftarrow> mrcp_request_line_generate apr sl s; Some (b, sl, t) }
             | MRCP_MESSAGE_TYPE_UNKNOWN \<Rightarrow> Some (False, sl, s))
        | MRCP_VERSION_2 \<Rightarrow> mrcp_v2_start_line_generate apr sl s
        | MRCP_VERSION_UNKNOWN \<Rightarrow> Some (False, sl, s));
     if \<not> status then Some (False, sl, s1)
     else do { (b, s2) \<leftarrow> apt_text_eol_insert s1; Some (b, sl, s2) }
   }"

text \<open>
  The digits, their terminator and then a space are stored into the reserved place, and what precedes is moved up to
  the digits' end: the text then starts later.
\<close>

definition mrcp_start_line_finalize ::
  "mrcp_start_line \<Rightarrow> nat \<Rightarrow> apt_text_stream \<Rightarrow> (bool \<times> mrcp_start_line \<times> apt_text_stream) option"
where
  "mrcp_start_line_finalize sl content_length s =
     (let len = ts_pos s - ts_buf s + content_length
      in if version sl = MRCP_VERSION_2 then
           (let field = ts_buf s + sl_length sl;
                len = (len + 2 ^ 64 - MAX_DIGIT_COUNT) mod 2 ^ 64
            in case apt_var_length_value_generate len MAX_DIGIT_COUNT of
                 (_, None) \<Rightarrow> Some (False, sl, s)
               | (len, Some digits) \<Rightarrow>
                   if length (ts_mem s) < field + length digits + 1 then None
                   else
                     (let mem = mem_store (ts_mem s) field (digits @ [APT_TOKEN_SP]);
                          n = sl_length sl + length digits;
                          k = MAX_DIGIT_COUNT - length digits;
                          s' = (if k = 0 then s\<lparr>ts_mem := mem\<rparr>
                                else s\<lparr>ts_mem := mem_move mem (ts_buf s + k) (ts_buf s) n,
                                       ts_buf := ts_buf s + k, ts_length := ts_length s - k\<rparr>)
                      in Some (True, sl\<lparr>sl_length := len\<rparr>, s')))
         else Some (True, sl\<lparr>sl_length := len\<rparr>, s))"

section \<open>What is generated\<close>

text \<open>Sequences of stores that stay within the window.\<close>

definition ts_emits :: "apt_text_stream \<Rightarrow> string \<Rightarrow> apt_text_stream option \<Rightarrow> bool" where
  "ts_emits s cs r \<longleftrightarrow> (\<exists>s'. r = Some s' \<and> ts_wf s' \<and> ts_ext s cs s')"

lemma ts_emits_put:
  assumes "ts_wf s" "ts_pos s + length cs \<le> ts_end s"
  shows "ts_emits s cs (ts_put cs s)"
proof -
  obtain s' where s': "ts_put cs s = Some s'" "ts_ext s cs s'"
    using ts_put_ext [of s cs] assms by (auto simp: ts_wf_def)
  moreover have "ts_wf s'"
    by (rule ts_ext_wf [OF assms(1) s'(2)]) (use s'(2) assms(2) in \<open>simp add: ts_ext_def\<close>)
  ultimately show ?thesis by (auto simp: ts_emits_def)
qed

lemma ts_emits_bind:
  assumes "ts_emits s cs r"
    and "\<And>s'. ts_wf s' \<Longrightarrow> ts_ext s cs s' \<Longrightarrow> ts_emits s' ds (k s')"
  shows "ts_emits s (cs @ ds) (do { s' \<leftarrow> r; k s' })"
proof -
  obtain s' where s': "r = Some s'" "ts_wf s'" "ts_ext s cs s'" using assms(1) by (auto simp: ts_emits_def)
  then obtain s'' where "k s' = Some s''" "ts_wf s''" "ts_ext s' ds s''"
    using assms(2) by (auto simp: ts_emits_def)
  with s' show ?thesis using ts_ext_trans by (auto simp: ts_emits_def)
qed

lemma ts_emits_bind2:
  assumes "ts_emits s cs (map_option snd r)"
    and "\<And>s'. ts_wf s' \<Longrightarrow> ts_ext s cs s' \<Longrightarrow> ts_emits s' ds (k s')"
  shows "ts_emits s (cs @ ds) (do { (_, s') \<leftarrow> r; k s' })"
  using ts_emits_bind [OF assms] by (cases r) (auto split: prod.splits)

lemma ts_emits_Some [simp]: "ts_wf s \<Longrightarrow> ts_emits s [] (Some s)"
  by (simp add: ts_emits_def)

lemma ts_ext_pos: "ts_ext s cs s' \<Longrightarrow> ts_pos s' = ts_pos s + length cs \<and> ts_end s' = ts_end s"
  by (simp add: ts_ext_def)

lemma ts_emits_print:
  assumes "ts_wf s" "ts_pos s + length cs < ts_end s"
  shows "ts_emits s cs (map_option snd (ts_print cs s))"
proof -
  have "ts_pos s + length (cs @ [APT_NUL]) \<le> length (ts_mem s)"
    using assms by (auto simp: ts_wf_def)
  then obtain s1 where s1: "ts_put (cs @ [APT_NUL]) s = Some s1" "ts_ext s (cs @ [APT_NUL]) s1"
    by (rule ts_put_ext)
  have "take (ts_pos s + length cs) (take (ts_pos s1) (ts_mem s1)) =
        take (ts_pos s + length cs) (take (ts_pos s) (ts_mem s) @ cs @ [APT_NUL])"
    using s1(2) unfolding ts_ext_def by (intro arg_cong [where f = "take _"]) blast
  then have "ts_ext s cs (s1\<lparr>ts_pos := ts_pos s + length cs\<rparr>)" "ts_wf (s1\<lparr>ts_pos := ts_pos s + length cs\<rparr>)"
    using s1(2) assms by (auto simp: ts_ext_def ts_wf_def)
  then show ?thesis
    using s1(1) assms by (auto simp: ts_print_def ts_emits_def)
qed

definition version_text :: "mrcp_version_e \<Rightarrow> string" where
  "version_text v = ''MRCP/'' @ dec (version_number v) @ ''.0''"

definition state_text :: "mrcp_request_state_e \<Rightarrow> string" where
  "state_text r = (case r of MRCP_REQUEST_STATE_COMPLETE \<Rightarrow> ''COMPLETE'' | MRCP_REQUEST_STATE_INPROGRESS \<Rightarrow> ''IN-PROGRESS''
     | MRCP_REQUEST_STATE_PENDING \<Rightarrow> ''PENDING'' | MRCP_REQUEST_STATE_UNKNOWN \<Rightarrow> [])"

definition id_text :: "mrcp_request_id \<Rightarrow> string" where
  "id_text i = dec_int (sint i)"

lemma length_version_text [simp]: "length (version_text v) = 8"
  by (cases v) (simp_all add: version_text_def version_number_def dec_small)

lemma emits_version:
  assumes "apr_fmt_ok apr" "ts_wf s" "ts_pos s + 8 < ts_end s"
  shows "ts_emits s (version_text v) (map_option snd (mrcp_version_generate apr v s))"
proof -
  have d: "length (dec (version_number v)) = 1" by (cases v) (simp_all add: version_number_def dec_small)
  have put: "ts_put ''MRCP/'' s = do { s1 \<leftarrow> ts_put MRCP_NAME s; ts_put [CHR ''/''] s1 }"
    by (simp add: ts_put_append MRCP_NAME_def)
  obtain s2 where s2: "ts_put ''MRCP/'' s = Some s2" "ts_wf s2" "ts_ext s ''MRCP/'' s2"
    using ts_emits_put [OF assms(2), of "''MRCP/''"] assms(3) by (auto simp: ts_emits_def)
  have "do { s1 \<leftarrow> ts_put MRCP_NAME s; ts_put [CHR ''/''] s1 } = Some s2"
    using put s2(1) by simp
  then obtain s1 where s1: "ts_put MRCP_NAME s = Some s1" "ts_put [CHR ''/''] s1 = Some s2"
    by (rule bind_eq_SomeE)
  have "ts_pos s2 + length (dec (version_number v)) < ts_end s2"
    using s2(3) assms(3) d by (simp add: ts_ext_def)
  then obtain s3 where s3: "apt_text_size_value_insert apr (version_number v) s2 = Some (True, s3)" "ts_wf s3"
      "ts_ext s2 (dec (version_number v)) s3"
    using size_value_insert_ext [OF assms(1) s2(2)] by blast
  have room: "ts_pos s3 + 2 < ts_end s3"
    using s2(3) s3(3) assms(3) d by (simp add: ts_ext_def)
  then obtain s4 where s4: "ts_put ''.0'' s3 = Some s4" "ts_wf s4" "ts_ext s3 ''.0'' s4"
    using ts_emits_put [OF s3(2), of "''.0''"] by (auto simp: ts_emits_def)
  have "ts_ext s (version_text v) s4"
    using ts_ext_trans [OF s2(3) ts_ext_trans [OF s3(3) s4(3)]] by (simp add: version_text_def)
  moreover have "mrcp_version_generate apr v s = Some (True, s4)"
    using assms(3) room s1 s3(1) s4(1) by (simp add: mrcp_version_generate_def MRCP_NAME_def)
  ultimately show ?thesis using s4(2) by (simp add: ts_emits_def)
qed

lemma emits_request_id:
  assumes "apr_fmt_ok apr" "ts_wf s" "ts_pos s + length (id_text i) < ts_end s"
  shows "ts_emits s (id_text i) (map_option snd (mrcp_request_id_generate apr i s))"
proof -
  have "take (ts_end s - ts_pos s - 1) (id_text i) = id_text i"
    using assms(3) by simp
  then show ?thesis
    using ts_emits_print [OF assms(2,3)] by (simp add: mrcp_request_id_generate_def id_text_def apr_fmt_okD [OF assms(1)])
qed

lemma emits_status_code:
  assumes "apr_fmt_ok apr" "ts_wf s" "ts_pos s + length (dec c) < ts_end s"
  shows "ts_emits s (dec c) (map_option snd (mrcp_status_code_generate apr c s))"
proof -
  obtain s' where "apt_text_size_value_insert apr c s = Some (True, s')" "ts_wf s'" "ts_ext s (dec c) s'"
    by (rule size_value_insert_ext [OF assms])
  then show ?thesis by (simp add: mrcp_status_code_generate_def ts_emits_def)
qed

lemma emits_request_state:
  assumes "ts_wf s" "ts_pos s + length (state_text r) \<le> ts_end s"
  shows "ts_emits s (state_text r) (map_option snd (mrcp_request_state_generate r s))"
proof (cases r)
  case MRCP_REQUEST_STATE_UNKNOWN
  then show ?thesis
    using assms by (simp add: mrcp_request_state_generate_def state_text_def request_state_number_def)
qed (use ts_emits_put [OF assms(1), of "state_text r"] assms(2) in \<open>auto simp: mrcp_request_state_generate_def
  state_text_def request_state_number_def apt_string_table_str_get_def mrcp_request_state_string_table_def ts_emits_def\<close>)

text \<open>The end of a version 2 line, after the length.\<close>

definition v2_tail :: "mrcp_start_line \<Rightarrow> string" where
  "v2_tail sl =
     (if message_type sl = MRCP_MESSAGE_TYPE_RESPONSE
      then id_text (request_id sl) @ [APT_TOKEN_SP] @ dec (status_code sl) @ [APT_TOKEN_SP] @ state_text (request_state sl)
      else method_name sl @ [APT_TOKEN_SP] @ id_text (request_id sl) @
        (if message_type sl = MRCP_MESSAGE_TYPE_EVENT then [APT_TOKEN_SP] @ state_text (request_state sl) else []))"

lemma emits_v2_tail:
  assumes "apr_fmt_ok apr" "ts_wf s" "ts_pos s + length (v2_tail sl) < ts_end s"
  shows "ts_emits s (v2_tail sl) (v2_fields_generate apr sl s)"
proof (cases "message_type sl = MRCP_MESSAGE_TYPE_RESPONSE")
  case True
  have "ts_emits s (id_text (request_id sl) @ [APT_TOKEN_SP] @ dec (status_code sl) @ [APT_TOKEN_SP] @ state_text (request_state sl) @ [])
     (do {
          (_, t1) \<leftarrow> mrcp_request_id_generate apr (request_id sl) s;
          t2 \<leftarrow> ts_put [APT_TOKEN_SP] t1;
          (_, t3) \<leftarrow> mrcp_status_code_generate apr (status_code sl) t2;
          t4 \<leftarrow> ts_put [APT_TOKEN_SP] t3;
          (_, t5) \<leftarrow> mrcp_request_state_generate (request_state sl) t4;
          Some t5
        })"
    using assms True
    by (intro ts_emits_bind ts_emits_bind2 emits_request_id emits_status_code emits_request_state ts_emits_put ts_emits_Some)
       (auto simp: v2_tail_def dest!: ts_ext_pos)
  then show ?thesis using True by (simp add: v2_tail_def v2_fields_generate_def)
next
  case False
  have "ts_emits s (method_name sl @ [APT_TOKEN_SP] @ id_text (request_id sl) @
        (if message_type sl = MRCP_MESSAGE_TYPE_EVENT then [APT_TOKEN_SP] @ state_text (request_state sl) @ [] else []))
     (do {
          t1 \<leftarrow> ts_put (method_name sl) s;
          t2 \<leftarrow> ts_put [APT_TOKEN_SP] t1;
          (_, t3) \<leftarrow> mrcp_request_id_generate apr (request_id sl) t2;
          if message_type sl = MRCP_MESSAGE_TYPE_EVENT then do {
            t4 \<leftarrow> ts_put [APT_TOKEN_SP] t3;
            (_, t5) \<leftarrow> mrcp_request_state_generate (request_state sl) t4;
            Some t5
          } else Some t3
        })"
  proof (cases "message_type sl = MRCP_MESSAGE_TYPE_EVENT")
    case True
    then have len: "ts_pos s + (length (method_name sl) + (1 + (length (id_text (request_id sl)) +
        (1 + length (state_text (request_state sl)))))) < ts_end s"
      using assms(3) by (simp add: v2_tail_def)
    show ?thesis
      unfolding True simp_thms if_True
      by (intro ts_emits_bind ts_emits_bind2 emits_request_id emits_request_state ts_emits_put ts_emits_Some assms(1,2))
         (use len in \<open>auto dest!: ts_ext_pos\<close>)
  next
    case no_event: False
    have len: "ts_pos s + (length (method_name sl) + (1 + length (id_text (request_id sl)))) < ts_end s"
      using assms(3) False no_event by (simp add: v2_tail_def)
    have "ts_emits s (method_name sl @ [APT_TOKEN_SP] @ id_text (request_id sl) @ [])
        (do { t1 \<leftarrow> ts_put (method_name sl) s; t2 \<leftarrow> ts_put [APT_TOKEN_SP] t1;
              (_, t3) \<leftarrow> mrcp_request_id_generate apr (request_id sl) t2; Some t3 })"
      by (intro ts_emits_bind ts_emits_bind2 emits_request_id ts_emits_put ts_emits_Some assms(1,2))
         (use len in \<open>auto dest!: ts_ext_pos\<close>)
    then show ?thesis
      using no_event by simp
  qed
  then show ?thesis using False by (simp add: v2_tail_def v2_fields_generate_def cong: if_cong)
qed

section \<open>What is parsed\<close>

lemma digit_not_sp: "isdigit c \<Longrightarrow> c \<noteq> APT_TOKEN_SP"
  by (auto simp: isdigit_def)

lemma dec_field [simp]: "dec n \<noteq> []" "APT_TOKEN_SP \<notin> set (dec n)" "hd (dec n) \<noteq> APT_TOKEN_SP"
  using dec_digits [of n] dec_nonempty [of n] dec_hd_digit [of n] digit_not_sp by auto

lemma id_field [simp]: "id_text i \<noteq> []" "APT_TOKEN_SP \<notin> set (id_text i)" "hd (id_text i) \<noteq> APT_TOKEN_SP"
  by (auto simp: id_text_def dec_int_def)

lemma request_id_roundtrip: "mrcp_request_id_parse (id_text i) = i"
proof -
  have "- (2 ^ 63) \<le> sint i" "sint i < 2 ^ 63"
    using sint_greater_eq [of i] sint_less [of i] by simp_all
  then show ?thesis
    using atol_dec_int [of "sint i" "[]"] by (simp add: mrcp_request_id_parse_def id_text_def)
qed

lemma id_text_zero: "id_text 0 = ''0''"
  by code_simp

lemma status_code_roundtrip: "c < 2 ^ 32 \<Longrightarrow> mrcp_status_code_parse (dec c) = c"
  using atol_dec [of c "[]"] by (simp add: mrcp_status_code_parse_def apt_size_value_parse_def)

lemma size_parse_dec: "n < 2 ^ 63 \<Longrightarrow> apt_size_value_parse (dec n) = n"
  using atol_dec [of n "[]"] by (simp add: apt_size_value_parse_def)

lemma request_state_roundtrip: "mrcp_request_state_parse (state_text r) = r"
proof -
  have "mrcp_request_state_parse ''COMPLETE'' = MRCP_REQUEST_STATE_COMPLETE" by code_simp
  moreover have "mrcp_request_state_parse ''IN-PROGRESS'' = MRCP_REQUEST_STATE_INPROGRESS" by code_simp
  moreover have "mrcp_request_state_parse ''PENDING'' = MRCP_REQUEST_STATE_PENDING" by code_simp
  moreover have "mrcp_request_state_parse [] = MRCP_REQUEST_STATE_UNKNOWN" by code_simp
  ultimately show ?thesis by (cases r) (simp_all add: state_text_def)
qed

lemma state_field:
  assumes "r \<noteq> MRCP_REQUEST_STATE_UNKNOWN"
  shows "state_text r \<noteq> []" "APT_TOKEN_SP \<notin> set (state_text r)" "hd (state_text r) \<noteq> APT_TOKEN_SP"
  using assms by (cases r; simp add: state_text_def)+

lemma version_text_eqs:
  "version_text MRCP_VERSION_1 = ''MRCP/1.0''" "version_text MRCP_VERSION_2 = ''MRCP/2.0''"
  "version_text MRCP_VERSION_UNKNOWN = ''MRCP/0.0''"
  by code_simp+

lemma version_field [simp]:
  "version_text v \<noteq> []" "APT_TOKEN_SP \<notin> set (version_text v)" "hd (version_text v) \<noteq> APT_TOKEN_SP"
  by (cases v; simp add: version_text_eqs)+

lemma version_roundtrip: "mrcp_version_parse (version_text v) = v"
proof -
  have "mrcp_version_parse (version_text MRCP_VERSION_1) = MRCP_VERSION_1" by code_simp
  moreover have "mrcp_version_parse (version_text MRCP_VERSION_2) = MRCP_VERSION_2" by code_simp
  moreover have "mrcp_version_parse (version_text MRCP_VERSION_UNKNOWN) = MRCP_VERSION_UNKNOWN" by code_simp
  ultimately show ?thesis by (cases v) simp_all
qed

lemma take_version_text: "take (length MRCP_NAME) (version_text v) = MRCP_NAME"
  by (simp add: version_text_def MRCP_NAME_def)

text \<open>A method name that can be told from a request identifier.\<close>

definition method_name_ok :: "apt_str \<Rightarrow> bool" where
  "method_name_ok nm \<longleftrightarrow> nm \<noteq> [] \<and> APT_TOKEN_SP \<notin> set nm \<and> hd nm \<noteq> CHR ''0'' \<and> mrcp_request_id_parse nm = 0 \<and>
     take (length MRCP_NAME) nm \<noteq> MRCP_NAME \<and> no_eol nm"

lemma method_name_hd: "method_name_ok nm \<Longrightarrow> hd nm \<noteq> APT_TOKEN_SP"
  by (cases nm) (auto simp: method_name_ok_def)

text \<open>Start lines whose fields all reach the wire.\<close>

definition start_line_ok :: "mrcp_start_line \<Rightarrow> bool" where
  "start_line_ok sl \<longleftrightarrow>
     (case message_type sl of
        MRCP_MESSAGE_TYPE_UNKNOWN \<Rightarrow> False
      | MRCP_MESSAGE_TYPE_REQUEST \<Rightarrow> method_name_ok (method_name sl) \<and> status_code sl = MRCP_STATUS_CODE_UNKNOWN
      | MRCP_MESSAGE_TYPE_RESPONSE \<Rightarrow> status_code sl < 2 ^ 32 \<and> request_state sl \<noteq> MRCP_REQUEST_STATE_UNKNOWN
      | MRCP_MESSAGE_TYPE_EVENT \<Rightarrow> method_name_ok (method_name sl) \<and> request_state sl \<noteq> MRCP_REQUEST_STATE_UNKNOWN)"

text \<open>What a parser that starts from \<open>sl0\<close> gets of \<open>sl\<close>.\<close>

definition received :: "mrcp_start_line \<Rightarrow> mrcp_start_line \<Rightarrow> mrcp_start_line" where
  "received sl0 sl =
     (let sl1 = sl0\<lparr>message_type := message_type sl, version := version sl, sl_length := sl_length sl,
                    request_id := request_id sl\<rparr>
      in case message_type sl of
           MRCP_MESSAGE_TYPE_RESPONSE \<Rightarrow> sl1\<lparr>status_code := status_code sl, request_state := request_state sl\<rparr>
         | MRCP_MESSAGE_TYPE_EVENT \<Rightarrow> sl1\<lparr>method_name := method_name sl, request_state := request_state sl\<rparr>
         | _ \<Rightarrow> sl1\<lparr>method_name := method_name sl\<rparr>)"

lemma parse_v2_tail:
  assumes "ts_wf s" "ts_rest s = dec (sl_length sl) @ APT_TOKEN_SP # v2_tail sl" "start_line_ok sl"
    and "sl_length sl < 2 ^ 63" "version sl = MRCP_VERSION_2" "version sl0 = MRCP_VERSION_2"
  shows "mrcp_v2_start_line_parse sl0 s = (True, received sl0 sl)"
proof -
  obtain s0 where s0: "apt_text_field_read s APT_TOKEN_SP True = (True, dec (sl_length sl), s0)" "ts_wf s0"
      "ts_rest s0 = v2_tail sl"
    using field_read_sep [OF assms(1,2), of True] by auto
  show ?thesis
  proof (cases "message_type sl = MRCP_MESSAGE_TYPE_RESPONSE")
    case True
    then have ok: "status_code sl < 2 ^ 32" "request_state sl \<noteq> MRCP_REQUEST_STATE_UNKNOWN"
      using assms(3) by (auto simp: start_line_ok_def)
    have r0: "ts_rest s0 = id_text (request_id sl) @ APT_TOKEN_SP # dec (status_code sl) @ APT_TOKEN_SP # state_text (request_state sl)"
      using s0(3) True by (simp add: v2_tail_def)
    obtain s1 where s1: "apt_text_field_read s0 APT_TOKEN_SP True = (True, id_text (request_id sl), s1)" "ts_wf s1"
        "ts_rest s1 = dec (status_code sl) @ APT_TOKEN_SP # state_text (request_state sl)"
      using field_read_sep [OF s0(2) r0, of True] by auto
    obtain s2 where s2: "apt_text_field_read s1 APT_TOKEN_SP True = (True, dec (status_code sl), s2)" "ts_wf s2"
        "ts_rest s2 = state_text (request_state sl)"
      using field_read_sep [OF s1(2,3), of True] by auto
    obtain s3 where s3: "apt_text_field_read s2 APT_TOKEN_SP True = (True, state_text (request_state sl), s3)"
      using field_read_last [OF s2(2,3), of APT_TOKEN_SP True] state_field [OF ok(2)] by auto
    have "\<not> (request_id sl = 0 \<and> hd (id_text (request_id sl)) \<noteq> CHR ''0'')"
      by (auto simp: id_text_zero)
    then show ?thesis
      using s0(1) s1(1) s2(1) s3 True ok assms(4-6)
      by (auto simp: mrcp_v2_start_line_parse_def received_def request_id_roundtrip status_code_roundtrip
          request_state_roundtrip size_parse_dec Let_def)
  next
    case False
    then have nm: "method_name_ok (method_name sl)"
      using assms(3) by (auto simp: start_line_ok_def split: mrcp_message_type_e.splits)
    define tl where "tl = (if message_type sl = MRCP_MESSAGE_TYPE_EVENT then APT_TOKEN_SP # state_text (request_state sl) else [])"
    have r0: "ts_rest s0 = method_name sl @ APT_TOKEN_SP # id_text (request_id sl) @ tl"
      using s0(3) False by (simp add: v2_tail_def tl_def)
    obtain s1 where s1: "apt_text_field_read s0 APT_TOKEN_SP True = (True, method_name sl, s1)" "ts_wf s1"
        "ts_rest s1 = id_text (request_id sl) @ tl"
      using field_read_sep [OF s0(2) r0, of True] nm method_name_hd [OF nm] by (auto simp: method_name_ok_def)
    show ?thesis
    proof (cases "message_type sl = MRCP_MESSAGE_TYPE_EVENT")
      case True
      then have ok: "request_state sl \<noteq> MRCP_REQUEST_STATE_UNKNOWN" using assms(3) by (simp add: start_line_ok_def)
      have r1: "ts_rest s1 = id_text (request_id sl) @ APT_TOKEN_SP # state_text (request_state sl)"
        using s1(3) True by (simp add: tl_def)
      obtain s2 where s2: "apt_text_field_read s1 APT_TOKEN_SP True = (True, id_text (request_id sl), s2)" "ts_wf s2"
          "ts_rest s2 = state_text (request_state sl)"
        using field_read_sep [OF s1(2) r1, of True] by auto
      obtain s3 where s3: "apt_text_field_read s2 APT_TOKEN_SP True = (True, state_text (request_state sl), s3)"
        using field_read_last [OF s2(2,3), of APT_TOKEN_SP True] state_field [OF ok] by auto
      then show ?thesis
        using s0(1) s1(1) s2(1) nm True assms(4-6)
        by (simp add: mrcp_v2_start_line_parse_def received_def request_id_roundtrip
            request_state_roundtrip size_parse_dec Let_def method_name_ok_def)
    next
      case no_event: False
      obtain s2 where s2: "apt_text_field_read s1 APT_TOKEN_SP True = (True, id_text (request_id sl), s2)" "ts_wf s2"
          "ts_rest s2 = []"
        using field_read_last [OF s1(2), of "id_text (request_id sl)" APT_TOKEN_SP True] s1(3) no_event by (auto simp: tl_def)
      obtain s3 where s3: "apt_text_field_read s2 APT_TOKEN_SP True = (False, [], s3)"
        using field_read_last [OF s2(2,3), of APT_TOKEN_SP True] by auto
      have "message_type sl = MRCP_MESSAGE_TYPE_REQUEST"
        using assms(3) False no_event by (auto simp: start_line_ok_def split: mrcp_message_type_e.splits)
      then show ?thesis
        using s0(1) s1(1) s2(1) s3 nm assms(4-6)
        by (simp add: mrcp_v2_start_line_parse_def received_def request_id_roundtrip
            size_parse_dec Let_def method_name_ok_def)
    qed
  qed
qed

section \<open>The length of a version 2 message\<close>

text \<open>A list split at given lengths.\<close>

lemma split_three:
  assumes "i + j \<le> length xs"
  obtains a b c where "xs = a @ b @ c" "length a = i" "length b = j"
proof
  show "xs = take i xs @ take j (drop i xs) @ drop (i + j) xs"
    by (metis append_take_drop_id drop_drop add.commute)
qed (use assms in simp_all)

text \<open>
  Filling in the length: the digits and a space go to where the text of the line continues, and what precedes them is
  moved up to them.
\<close>

lemma finalize_memory:
  fixes A P D Z :: string
  assumes "length A = buf" "length P = off" "length D = d" "d \<le> 6" "0 < d"
  defines "m \<equiv> A @ P @ replicate 7 APT_TOKEN_SP @ Z"
  defines "m1 \<equiv> mem_store m (buf + off) (D @ [APT_TOKEN_SP])"
  shows "d = 6 \<Longrightarrow> drop buf m1 = P @ D @ APT_TOKEN_SP # Z"
    and "drop (buf + (6 - d)) (mem_move m1 (buf + (6 - d)) buf (off + d)) = P @ D @ APT_TOKEN_SP # Z"
    and "length (mem_move m1 (buf + (6 - d)) buf (off + d)) = length m" and "length m1 = length m"
proof -
  have m1: "m1 = A @ P @ D @ APT_TOKEN_SP # replicate (6 - d) APT_TOKEN_SP @ Z"
    using assms(1-5) by (simp add: m1_def m_def mem_store_def)
  then show len: "length m1 = length m" using assms(3,4) by (simp add: m_def assms(1,2))
  show "drop buf m1 = P @ D @ APT_TOKEN_SP # Z" if "d = 6"
    using m1 that assms(1) by simp
  let ?k = "6 - d"
  have "drop (buf + ?k + (off + d)) m1 = APT_TOKEN_SP # Z"
  proof -
    have "buf + ?k + (off + d) = length (A @ P @ D) + (6 - d)" using assms(1-4) by simp
    then have "drop (buf + ?k + (off + d)) m1 = drop (6 - d) (APT_TOKEN_SP # replicate (6 - d) APT_TOKEN_SP @ Z)"
      unfolding m1 by (simp only: append.assoc [symmetric] drop_append) simp
    also have "APT_TOKEN_SP # replicate (6 - d) APT_TOKEN_SP @ Z = replicate (6 - d) APT_TOKEN_SP @ APT_TOKEN_SP # Z"
      by (simp add: replicate_append_same [symmetric])
    finally show ?thesis by simp
  qed
  moreover have "take (off + d) (drop buf m1) = P @ D"
    using m1 assms(1-3) by simp
  moreover have "length (take (buf + ?k) m1) = buf + ?k"
    using len assms(1,2,4) by (simp add: m_def)
  ultimately show "drop (buf + ?k) (mem_move m1 (buf + ?k) buf (off + d)) = P @ D @ APT_TOKEN_SP # Z"
    by (simp add: mem_move_def)
  show "length (mem_move m1 (buf + ?k) buf (off + d)) = length m"
    using len assms(1-4) by (simp add: mem_move_def m_def)
qed

lemma var_length_six:
  assumes "6 \<le> L" "L + 1 < 10 ^ 6"
  obtains n where "apt_var_length_value_generate (L - 6) MAX_DIGIT_COUNT = (n, Some (dec n))"
    and "n = L - 6 + length (dec n)" and "length (dec n) \<le> 6"
proof -
  define r where "r = apt_var_length_value_generate (L - 6) MAX_DIGIT_COUNT"
  define k where "k = length (dec (fst r))"
  have lt: "L - 6 < 10 ^ 18" using assms(2) by simp
  have r: "r = (L - 6 + k, if MAX_DIGIT_COUNT < k then None else Some (dec (L - 6 + k)))" and "k \<le> 19"
    unfolding k_def r_def by (rule var_length_generate [OF lt])+
  have "fst r = L - 6 + k"
    by (subst r) simp
  then have n: "k = length (dec (L - 6 + k))"
    using k_def by simp
  have "k \<le> 6"
  proof (rule ccontr)
    assume k: "\<not> k \<le> 6"
    have "10 ^ (k - 1) \<le> L - 6 + k"
      using length_dec_bounds [of "L - 6 + k"] k n by auto
    moreover have "(10 :: nat) ^ 6 \<le> 10 ^ (k - 1)" using k by (intro power_increasing) auto
    moreover have "(10 :: nat) ^ 7 \<le> 10 ^ (k - 1)" if "k \<noteq> 7" using k that by (intro power_increasing) auto
    ultimately show False using assms \<open>k \<le> 19\<close> by (cases "k = 7") simp_all
  qed
  with r n that [of "L - 6 + k"] show ?thesis by (simp add: r_def MAX_DIGIT_COUNT_def)
qed

lemma finalize_spec:
  assumes "version sl = MRCP_VERSION_2" "ts_buf s \<le> ts_pos s" "ts_pos s \<le> length (ts_mem s)"
    and w: "ts_written s = P @ replicate 7 APT_TOKEN_SP @ Z" and off: "length P = sl_length sl"
    and len: "length (ts_written s) + content + 1 < 10 ^ 6"
  obtains n s' where "mrcp_start_line_finalize sl content s = Some (True, sl\<lparr>sl_length := n\<rparr>, s')"
    and "ts_written s' = P @ dec n @ APT_TOKEN_SP # Z" and "n = length (ts_written s') + content"
    and "ts_pos s' = ts_pos s" "ts_end s' = ts_end s" "is_eos s' = is_eos s" "length (ts_mem s') = length (ts_mem s)"
    and "ts_buf s' \<le> ts_pos s'" "n < 10 ^ 6"
proof -
  let ?A = "take (ts_buf s) (ts_mem s)" and ?T = "drop (ts_pos s) (ts_mem s)"
  define L where "L = ts_pos s - ts_buf s + content"
  have lw: "length (ts_written s) = ts_pos s - ts_buf s"
    using assms(2,3) by (simp add: ts_written_def)
  then have pos: "ts_pos s = ts_buf s + length P + 7 + length Z" using w assms(2) by simp
  obtain n where n: "apt_var_length_value_generate (L - 6) MAX_DIGIT_COUNT = (n, Some (dec n))"
      "n = L - 6 + length (dec n)" "length (dec n) \<le> 6"
    using var_length_six [of L] len lw pos by (auto simp: L_def)
  define d where "d = length (dec n)"
  have d: "0 < d" "d \<le> 6" "length (dec n) = d" using n(3) by (simp_all add: d_def)
  have m: "ts_mem s = ?A @ P @ replicate 7 APT_TOKEN_SP @ Z @ ?T"
  proof -
    have "drop (ts_buf s) (ts_mem s) = ts_written s @ ?T"
      using assms(2) append_take_drop_id [of "ts_pos s - ts_buf s" "drop (ts_buf s) (ts_mem s)"] by (simp add: ts_written_def)
    then show ?thesis using append_take_drop_id [of "ts_buf s" "ts_mem s"] w by (metis append.assoc)
  qed
  have A: "length ?A = ts_buf s" using assms(2,3) by simp
  define m1 where "m1 = mem_store (ts_mem s) (ts_buf s + length P) (dec n @ [APT_TOKEN_SP])"
  define s' where "s' = (if d = 6 then s\<lparr>ts_mem := m1\<rparr>
    else s\<lparr>ts_mem := mem_move m1 (ts_buf s + (6 - d)) (ts_buf s) (length P + d),
           ts_buf := ts_buf s + (6 - d), ts_length := ts_length s - (6 - d)\<rparr>)"
  note fm = finalize_memory [OF A refl d(3,2,1), of P "Z @ ?T", folded m, folded m1_def]
  have drop': "drop (ts_buf s') (ts_mem s') = P @ dec n @ APT_TOKEN_SP # Z @ ?T"
    and len': "length (ts_mem s') = length (ts_mem s)"
    using fm by (auto simp: s'_def)
  have buf': "ts_buf s' = ts_buf s + (6 - d)" and pos': "ts_pos s' = ts_pos s" by (simp_all add: s'_def)
  have "ts_pos s' - ts_buf s' = length (P @ dec n @ APT_TOKEN_SP # Z)"
    using buf' pos' pos d by simp
  then have w': "ts_written s' = P @ dec n @ APT_TOKEN_SP # Z"
    using drop' by (simp add: ts_written_def)
  have nl: "n = length (ts_written s') + content"
    using n(2) w' lw w d(3) by (simp add: L_def)
  have wrap: "(ts_pos s - ts_buf s + content + 2 ^ 64 - MAX_DIGIT_COUNT) mod 2 ^ 64 = L - 6"
  proof -
    have "ts_pos s - ts_buf s + content + 2 ^ 64 - MAX_DIGIT_COUNT = (L - 6) + 2 ^ 64"
      using pos by (simp add: L_def MAX_DIGIT_COUNT_def)
    moreover have "L - 6 < 2 ^ 64" using len lw by (simp add: L_def)
    ultimately show ?thesis by (simp only: mod_add_self2 mod_less)
  qed
  have "\<not> length (ts_mem s) < ts_buf s + sl_length sl + length (dec n) + 1"
    using off pos d assms(3) by simp
  moreover have "mem_store (ts_mem s) (ts_buf s + sl_length sl) (dec n @ [APT_TOKEN_SP]) = m1"
    by (simp add: m1_def off)
  ultimately have fin: "mrcp_start_line_finalize sl content s = Some (True, sl\<lparr>sl_length := n\<rparr>, s')"
    unfolding mrcp_start_line_finalize_def Let_def wrap n(1) using d
    by (simp add: assms(1) s'_def MAX_DIGIT_COUNT_def d(3) off)
  have le: "ts_buf s' \<le> ts_pos s'" using buf' pos' pos d by simp
  have frame: "ts_end s' = ts_end s" "is_eos s' = is_eos s" by (simp_all add: s'_def)
  have lt: "n < 10 ^ 6" using nl w' w lw len d by simp
  show ?thesis
    by (rule that [OF fin w' nl pos' frame len' le lt])
qed

text \<open>Generation of a version 2 line, up to the length.\<close>

definition v2_text :: "mrcp_start_line \<Rightarrow> string" where
  "v2_text sl = version_text MRCP_VERSION_2 @ [APT_TOKEN_SP] @ replicate 7 APT_TOKEN_SP @ v2_tail sl @ CRLF"

lemma v2_start_line_generate:
  assumes "apr_fmt_ok apr" "ts_wf s" "version sl = MRCP_VERSION_2" "ts_pos s + length (v2_text sl) < ts_end s"
  obtains s' where "mrcp_start_line_generate apr sl s = Some (True, sl\<lparr>sl_length := 9\<rparr>, s')"
    and "ts_wf s'" "ts_ext s (v2_text sl) s'"
proof -
  have len: "ts_pos s + (8 + (1 + (7 + (length (v2_tail sl) + 2)))) < ts_end s"
    using assms(4) by (simp add: v2_text_def)
  obtain b s1 where s1: "mrcp_version_generate apr MRCP_VERSION_2 s = Some (b, s1)" "ts_wf s1"
      "ts_ext s (version_text MRCP_VERSION_2) s1"
    using emits_version [OF assms(1,2), of MRCP_VERSION_2] len by (auto simp: ts_emits_def)
  obtain s2 where s2: "ts_put [APT_TOKEN_SP] s1 = Some s2" "ts_wf s2" "ts_ext s1 [APT_TOKEN_SP] s2"
    using ts_emits_put [OF s1(2), of "[APT_TOKEN_SP]"] ts_ext_pos [OF s1(3)] len by (auto simp: ts_emits_def)
  obtain s3 where s3: "ts_put (replicate 7 APT_TOKEN_SP) s2 = Some s3" "ts_wf s3" "ts_ext s2 (replicate 7 APT_TOKEN_SP) s3"
    using ts_emits_put [OF s2(2), of "replicate 7 APT_TOKEN_SP"] ts_ext_pos [OF s1(3)] ts_ext_pos [OF s2(3)] len
    by (auto simp: ts_emits_def)
  let ?sl = "sl\<lparr>sl_length := 9\<rparr>"
  have tail: "v2_tail ?sl = v2_tail sl" by (simp add: v2_tail_def)
  have room: "ts_pos s3 + length (v2_tail ?sl) < ts_end s3"
    using ts_ext_pos [OF s1(3)] ts_ext_pos [OF s2(3)] ts_ext_pos [OF s3(3)] len tail by simp
  obtain s4 where s4: "v2_fields_generate apr ?sl s3 = Some s4" "ts_wf s4" "ts_ext s3 (v2_tail sl) s4"
    using emits_v2_tail [OF assms(1) s3(2) room] tail by (auto simp: ts_emits_def)
  have off: "ts_pos s2 - ts_pos s = 9"
    using ts_ext_pos [OF s1(3)] ts_ext_pos [OF s2(3)] by simp
  have v2: "mrcp_v2_start_line_generate apr sl s = Some (True, ?sl, s4)"
    using s1(1) s2(1) s3(1) s4(1) off assms(3) by (simp add: mrcp_v2_start_line_generate_def MAX_DIGIT_COUNT_def)
  have "ts_pos s4 + 2 < ts_end s4"
    using ts_ext_pos [OF s1(3)] ts_ext_pos [OF s2(3)] ts_ext_pos [OF s3(3)] ts_ext_pos [OF s4(3)] len by simp
  then obtain s5 where s5: "apt_text_eol_insert s4 = Some (True, s5)" "ts_wf s5" "ts_ext s4 CRLF s5"
    using ts_writes_eol [OF s4(2)] by (auto simp: ts_writes_def split: option.splits)
  have "ts_ext s (v2_text sl) s5"
    using ts_ext_trans [OF s1(3) ts_ext_trans [OF s2(3) ts_ext_trans [OF s3(3) ts_ext_trans [OF s4(3) s5(3)]]]]
    by (simp add: v2_text_def)
  with s5 v2 assms(3) that show ?thesis
    by (simp add: mrcp_start_line_generate_def)
qed

lemma no_eol_dec [simp]: "no_eol (dec n)"
  using dec_digits [of n] by (auto simp: no_eol_def isdigit_def)

lemma no_eol_id [simp]: "no_eol (id_text i)"
  by (simp add: id_text_def dec_int_def)

lemma no_eol_state [simp]: "no_eol (state_text r)"
  by (cases r) (simp_all add: state_text_def)

lemma no_eol_version [simp]: "no_eol (version_text v)"
  by (cases v) (simp_all add: version_text_eqs)

lemma no_eol_v2_tail: "start_line_ok sl \<Longrightarrow> no_eol (v2_tail sl)"
  by (auto simp: start_line_ok_def v2_tail_def method_name_ok_def split: mrcp_message_type_e.splits)

lemma parse_v2_line:
  assumes "start_line_ok sl" "version sl = MRCP_VERSION_2" "n < 2 ^ 63"
  shows "mrcp_start_line_parse sl0 (version_text MRCP_VERSION_2 @ APT_TOKEN_SP # dec n @ APT_TOKEN_SP # v2_tail sl) =
    (True, received sl0 (sl\<lparr>sl_length := n\<rparr>))"
proof -
  let ?sl = "sl\<lparr>sl_length := n\<rparr>" and ?rest = "dec n @ APT_TOKEN_SP # v2_tail sl"
  have sl: "start_line_ok ?sl" "v2_tail ?sl = v2_tail sl" "version ?sl = MRCP_VERSION_2"
    using assms(1,2) by (simp_all add: start_line_ok_def v2_tail_def split: mrcp_message_type_e.splits)
  let ?text = "version_text MRCP_VERSION_2 @ APT_TOKEN_SP # ?rest"
  obtain s where s: "apt_text_field_read (ts_of ?text) APT_TOKEN_SP True = (True, version_text MRCP_VERSION_2, s)"
      "ts_wf s" "ts_rest s = ?rest"
    using field_read_sep [of "ts_of ?text" "version_text MRCP_VERSION_2" APT_TOKEN_SP ?rest True] by auto
  have "mrcp_v2_start_line_parse (sl0\<lparr>message_type := MRCP_MESSAGE_TYPE_UNKNOWN, version := MRCP_VERSION_2\<rparr>) s =
      (True, received (sl0\<lparr>message_type := MRCP_MESSAGE_TYPE_UNKNOWN, version := MRCP_VERSION_2\<rparr>) ?sl)"
    using parse_v2_tail [OF s(2) _ sl(1) _ sl(3)] s(3) sl(2) assms(3) by simp
  moreover have "received (sl0\<lparr>message_type := MRCP_MESSAGE_TYPE_UNKNOWN, version := MRCP_VERSION_2\<rparr>) ?sl = received sl0 ?sl"
    by (simp add: received_def Let_def split: mrcp_message_type_e.split)
  ultimately show ?thesis
    using s(1) take_version_text [of MRCP_VERSION_2] by (simp add: mrcp_start_line_parse_def version_roundtrip Let_def)
qed

text \<open>What was written from the start of the text on.\<close>

lemma ts_ext_written:
  assumes "ts_ext s cs s'" "ts_pos s = ts_buf s" "ts_wf s"
  shows "ts_written s' = cs"
proof -
  have "ts_written s' = drop (ts_buf s) (take (ts_pos s') (ts_mem s'))"
    using assms(1) by (simp add: ts_written_def ts_ext_def drop_take)
  also have "\<dots> = drop (ts_buf s) (take (ts_pos s) (ts_mem s) @ cs)"
    using assms(1) unfolding ts_ext_def by (intro arg_cong [where f = "drop _"]) blast
  also have "\<dots> = cs"
    using assms(2,3) by (simp add: ts_wf_def)
  finally show ?thesis .
qed

text \<open>A version 1 line.\<close>

definition v1_text :: "mrcp_start_line \<Rightarrow> string" where
  "v1_text sl =
     (if message_type sl = MRCP_MESSAGE_TYPE_RESPONSE
      then version_text MRCP_VERSION_1 @ [APT_TOKEN_SP] @ id_text (request_id sl) @ [APT_TOKEN_SP] @ dec (status_code sl) @
        [APT_TOKEN_SP] @ state_text (request_state sl)
      else method_name sl @ [APT_TOKEN_SP] @ id_text (request_id sl) @ [APT_TOKEN_SP] @
        (if message_type sl = MRCP_MESSAGE_TYPE_EVENT then state_text (request_state sl) @ [APT_TOKEN_SP] else []) @
        version_text MRCP_VERSION_1)"

lemma no_eol_v1: "start_line_ok sl \<Longrightarrow> no_eol (v1_text sl)"
  by (auto simp: start_line_ok_def v1_text_def method_name_ok_def split: mrcp_message_type_e.splits)

lemma emits_response_line:
  assumes "apr_fmt_ok apr" "ts_wf s" "message_type sl = MRCP_MESSAGE_TYPE_RESPONSE" "version sl = MRCP_VERSION_1"
    and "ts_pos s + length (v1_text sl) < ts_end s"
  shows "ts_emits s (v1_text sl) (map_option snd (mrcp_response_line_generate apr sl s))"
proof -
  have len: "ts_pos s + (8 + (1 + (length (id_text (request_id sl)) + (1 + (length (dec (status_code sl)) +
      (1 + length (state_text (request_state sl)))))))) < ts_end s"
    using assms(3,5) by (simp add: v1_text_def)
  have "ts_emits s (version_text MRCP_VERSION_1 @ [APT_TOKEN_SP] @ id_text (request_id sl) @ [APT_TOKEN_SP] @
      dec (status_code sl) @ [APT_TOKEN_SP] @ state_text (request_state sl) @ [])
     (do {
       (_, s1) \<leftarrow> mrcp_version_generate apr MRCP_VERSION_1 s;
       s2 \<leftarrow> ts_put [APT_TOKEN_SP] s1;
       (_, s3) \<leftarrow> mrcp_request_id_generate apr (request_id sl) s2;
       s4 \<leftarrow> ts_put [APT_TOKEN_SP] s3;
       (_, s5) \<leftarrow> mrcp_status_code_generate apr (status_code sl) s4;
       s6 \<leftarrow> ts_put [APT_TOKEN_SP] s5;
       (_, s7) \<leftarrow> mrcp_request_state_generate (request_state sl) s6;
       Some s7
     })"
    by (intro ts_emits_bind ts_emits_bind2 emits_version emits_request_id emits_status_code emits_request_state
          ts_emits_put ts_emits_Some assms(1,2))
       (use len in \<open>auto dest!: ts_ext_pos\<close>)
  then show ?thesis
    using assms(3,4) by (simp add: mrcp_response_line_generate_def v1_text_def map_option_bind case_prod_unfold comp_def)
qed

lemma emits_request_line:
  assumes "apr_fmt_ok apr" "ts_wf s" "start_line_ok sl" "message_type sl \<noteq> MRCP_MESSAGE_TYPE_RESPONSE"
    and "version sl = MRCP_VERSION_1" "ts_pos s + length (v1_text sl) < ts_end s"
  shows "ts_emits s (v1_text sl) (map_option snd (mrcp_request_line_generate apr sl s))"
proof -
  define mid where "mid = (if message_type sl = MRCP_MESSAGE_TYPE_EVENT then state_text (request_state sl) @ [APT_TOKEN_SP] else [])"
  have len: "ts_pos s + (length (method_name sl) + (1 + (length (id_text (request_id sl)) + (1 + (length mid + 8))))) < ts_end s"
    using assms(4,6) by (simp add: v1_text_def mid_def)
  note f = request_line_field_generate_def
  have mid: "ts_emits s4 mid (request_line_field_generate apr sl s4)" if "ts_wf s4" "ts_pos s4 + length mid \<le> ts_end s4" for s4
  proof (cases "message_type sl = MRCP_MESSAGE_TYPE_EVENT")
    case True
    then have m: "mid = state_text (request_state sl) @ [APT_TOKEN_SP]" by (simp add: mid_def)
    have "ts_emits s4 (state_text (request_state sl) @ [APT_TOKEN_SP])
        (do { (_, t) \<leftarrow> mrcp_request_state_generate (request_state sl) s4; ts_put [APT_TOKEN_SP] t })"
      by (intro ts_emits_bind2 emits_request_state ts_emits_put that(1)) (use that(2) m in \<open>auto dest!: ts_ext_pos\<close>)
    then show ?thesis using True m by (simp add: f)
  next
    case False
    then show ?thesis
      using assms(3,4) that(1) by (auto simp: f mid_def start_line_ok_def split: mrcp_message_type_e.splits)
  qed
  have "ts_emits s (method_name sl @ [APT_TOKEN_SP] @ id_text (request_id sl) @ [APT_TOKEN_SP] @ mid @ version_text MRCP_VERSION_1 @ [])
    (do {
      s1 \<leftarrow> ts_put (method_name sl) s;
      s2 \<leftarrow> ts_put [APT_TOKEN_SP] s1;
      (_, s3) \<leftarrow> mrcp_request_id_generate apr (request_id sl) s2;
      s4 \<leftarrow> ts_put [APT_TOKEN_SP] s3;
      s5 \<leftarrow> request_line_field_generate apr sl s4;
      (_, s6) \<leftarrow> mrcp_version_generate apr MRCP_VERSION_1 s5;
      Some s6
    })"
    by (intro ts_emits_bind ts_emits_bind2 emits_version emits_request_id mid ts_emits_put ts_emits_Some assms(1,2))
       (use len in \<open>auto dest!: ts_ext_pos\<close>)
  then show ?thesis
    using assms(4,5)
    by (simp add: mrcp_request_line_generate_def v1_text_def mid_def map_option_bind case_prod_unfold comp_def cong: if_cong)
qed

lemma v1_start_line_generate:
  assumes "apr_fmt_ok apr" "ts_wf s" "start_line_ok sl" "version sl = MRCP_VERSION_1"
    and "ts_pos s + length (v1_text sl) + 2 < ts_end s"
  obtains s' where "mrcp_start_line_generate apr sl s = Some (True, sl, s')" "ts_wf s'" "ts_ext s (v1_text sl @ CRLF) s'"
proof -
  have line: "\<exists>s1. (if message_type sl = MRCP_MESSAGE_TYPE_RESPONSE then mrcp_response_line_generate apr sl s
      else mrcp_request_line_generate apr sl s) = Some (True, s1) \<and> ts_wf s1 \<and> ts_ext s (v1_text sl) s1"
  proof (cases "message_type sl = MRCP_MESSAGE_TYPE_RESPONSE")
    case True
    obtain b s1 where "mrcp_response_line_generate apr sl s = Some (b, s1)" "ts_wf s1" "ts_ext s (v1_text sl) s1"
      using emits_response_line [OF assms(1,2) True assms(4)] assms(5) by (auto simp: ts_emits_def)
    moreover from this have b by (auto simp: mrcp_response_line_generate_def bind_eq_Some_conv)
    ultimately show ?thesis using True by simp
  next
    case False
    obtain b s1 where "mrcp_request_line_generate apr sl s = Some (b, s1)" "ts_wf s1" "ts_ext s (v1_text sl) s1"
      using emits_request_line [OF assms(1,2,3) False assms(4)] assms(5) by (auto simp: ts_emits_def)
    moreover from this have b by (auto simp: mrcp_request_line_generate_def bind_eq_Some_conv)
    ultimately show ?thesis using False by simp
  qed
  then obtain s1 where s1: "(if message_type sl = MRCP_MESSAGE_TYPE_RESPONSE then mrcp_response_line_generate apr sl s
      else mrcp_request_line_generate apr sl s) = Some (True, s1)" "ts_wf s1" "ts_ext s (v1_text sl) s1"
    by blast
  have "ts_pos s1 + 2 < ts_end s1"
    using ts_ext_pos [OF s1(3)] assms(5) by simp
  then obtain s2 where s2: "apt_text_eol_insert s1 = Some (True, s2)" "ts_wf s2" "ts_ext s1 CRLF s2"
    using ts_writes_eol [OF s1(2)] by (auto simp: ts_writes_def split: option.splits)
  have "mrcp_start_line_generate apr sl s = Some (True, sl, s2)"
    using s1(1) s2(1) assms(3,4)
    by (auto simp: mrcp_start_line_generate_def start_line_ok_def split: mrcp_message_type_e.splits)
  with that s2(2) ts_ext_trans [OF s1(3) s2(3)] show ?thesis by blast
qed

lemma parse_v1_response:
  assumes "start_line_ok sl" "version sl = MRCP_VERSION_1" "message_type sl = MRCP_MESSAGE_TYPE_RESPONSE"
  shows "mrcp_start_line_parse sl0 (v1_text sl) = (True, received sl0 (sl\<lparr>sl_length := 0\<rparr>))"
proof -
  have ok: "status_code sl < 2 ^ 32" "request_state sl \<noteq> MRCP_REQUEST_STATE_UNKNOWN"
    using assms(1,3) by (auto simp: start_line_ok_def)
  let ?r2 = "dec (status_code sl) @ APT_TOKEN_SP # state_text (request_state sl)"
  let ?r1 = "id_text (request_id sl) @ APT_TOKEN_SP # ?r2"
  have rst: "ts_rest (ts_of (v1_text sl)) = version_text MRCP_VERSION_1 @ APT_TOKEN_SP # ?r1"
    using assms(3) by (simp add: v1_text_def)
  obtain s0 where s0: "apt_text_field_read (ts_of (v1_text sl)) APT_TOKEN_SP True = (True, version_text MRCP_VERSION_1, s0)"
      "ts_wf s0" "ts_rest s0 = ?r1"
    using field_read_sep [OF ts_wf_ts_of rst, of True] by auto
  obtain s1 where s1: "apt_text_field_read s0 APT_TOKEN_SP True = (True, id_text (request_id sl), s1)" "ts_wf s1" "ts_rest s1 = ?r2"
    using field_read_sep [OF s0(2,3), of True] by auto
  obtain s2 where s2: "apt_text_field_read s1 APT_TOKEN_SP True = (True, dec (status_code sl), s2)" "ts_wf s2"
      "ts_rest s2 = state_text (request_state sl)"
    using field_read_sep [OF s1(2,3), of True] by auto
  obtain s3 where s3: "apt_text_field_read s2 APT_TOKEN_SP True = (True, state_text (request_state sl), s3)"
    using field_read_last [OF s2(2,3), of APT_TOKEN_SP True] state_field [OF ok(2)] by auto
  show ?thesis
    using s0(1) s1(1) s2(1) s3 assms(2,3) ok(1) take_version_text [of MRCP_VERSION_1]
    by (simp add: mrcp_start_line_parse_def mrcp_response_line_parse_def version_roundtrip received_def
        request_id_roundtrip status_code_roundtrip request_state_roundtrip)
qed

lemma state_parse_version: "mrcp_request_state_parse (version_text MRCP_VERSION_1) = MRCP_REQUEST_STATE_UNKNOWN"
  by code_simp

lemma parse_v1_request:
  assumes "start_line_ok sl" "version sl = MRCP_VERSION_1" "message_type sl \<noteq> MRCP_MESSAGE_TYPE_RESPONSE"
    and "request_state sl0 = MRCP_REQUEST_STATE_UNKNOWN"
  shows "mrcp_start_line_parse sl0 (v1_text sl) = (True, received sl0 (sl\<lparr>sl_length := sl_length sl0\<rparr>))"
proof -
  have nm: "method_name_ok (method_name sl)"
    using assms(1,3) by (auto simp: start_line_ok_def split: mrcp_message_type_e.splits)
  let ?v = "version_text MRCP_VERSION_1"
  define r2 where "r2 = (if message_type sl = MRCP_MESSAGE_TYPE_EVENT then state_text (request_state sl) @ APT_TOKEN_SP # ?v else ?v)"
  have rst: "ts_rest (ts_of (v1_text sl)) = method_name sl @ APT_TOKEN_SP # id_text (request_id sl) @ APT_TOKEN_SP # r2"
    using assms(3) by (simp add: v1_text_def r2_def)
  obtain s0 where s0: "apt_text_field_read (ts_of (v1_text sl)) APT_TOKEN_SP True = (True, method_name sl, s0)"
      "ts_wf s0" "ts_rest s0 = id_text (request_id sl) @ APT_TOKEN_SP # r2"
    using field_read_sep [OF ts_wf_ts_of rst, of True] nm method_name_hd [OF nm] by (auto simp: method_name_ok_def)
  obtain s1 where s1: "apt_text_field_read s0 APT_TOKEN_SP True = (True, id_text (request_id sl), s1)" "ts_wf s1" "ts_rest s1 = r2"
    using field_read_sep [OF s0(2,3), of True] by auto
  show ?thesis
  proof (cases "message_type sl = MRCP_MESSAGE_TYPE_EVENT")
    case True
    then have ok: "request_state sl \<noteq> MRCP_REQUEST_STATE_UNKNOWN" using assms(1) by (simp add: start_line_ok_def)
    have r: "ts_rest s1 = state_text (request_state sl) @ APT_TOKEN_SP # ?v" using s1(3) True by (simp add: r2_def)
    obtain s2 where s2: "apt_text_field_read s1 APT_TOKEN_SP True = (True, state_text (request_state sl), s2)" "ts_wf s2" "ts_rest s2 = ?v"
      using field_read_sep [OF s1(2) r, of True] state_field [OF ok] by auto
    obtain s3 where s3: "apt_text_field_read s2 APT_TOKEN_SP True = (True, ?v, s3)"
      using field_read_last [OF s2(2,3), of APT_TOKEN_SP True] by auto
    show ?thesis
      using s0(1) s1(1) s2(1) s3 True ok nm assms(2)
      by (simp add: mrcp_start_line_parse_def mrcp_request_line_parse_def received_def method_name_ok_def
          request_id_roundtrip request_state_roundtrip version_roundtrip)
  next
    case False
    then have "message_type sl = MRCP_MESSAGE_TYPE_REQUEST"
      using assms(1,3) by (auto simp: start_line_ok_def split: mrcp_message_type_e.splits)
    moreover have r: "ts_rest s1 = ?v" using s1(3) False by (simp add: r2_def)
    moreover obtain s2 where "apt_text_field_read s1 APT_TOKEN_SP True = (True, ?v, s2)"
      using field_read_last [OF s1(2) r, of APT_TOKEN_SP True] by auto
    ultimately show ?thesis
      using s0(1) s1(1) nm assms(2,4)
      by (cases sl0) (simp add: mrcp_start_line_parse_def mrcp_request_line_parse_def received_def method_name_ok_def
          request_id_roundtrip state_parse_version version_roundtrip)
  qed
qed

section \<open>Properties\<close>

text \<open>
  C4: a version 2 message is framed correctly. Generate the start line at the start of a buffer, let any text
  (the headers) be written behind it, and finalise for a body of the given length, all below \<open>10^6\<close> bytes: the
  length stored in the start line is the number of bytes of the text plus the body, the first line of the text parses
  to the start line that was sent, with that length, and what follows the line is the headers.
\<close>

theorem start_line_v2_roundtrip:
  assumes "apr_fmt_ok apr" "ts_wf s" "ts_pos s = ts_buf s" "version sl = MRCP_VERSION_2" "start_line_ok sl"
    and "ts_pos s + length (v2_text sl) + length hdrs < ts_end s" "ts_end s - ts_pos s + content < 10 ^ 6"
  shows "\<exists>sl1 s1 s2 sl2 s3 line r.
    mrcp_start_line_generate apr sl s = Some (True, sl1, s1) \<and> ts_put hdrs s1 = Some s2 \<and>
    mrcp_start_line_finalize sl1 content s2 = Some (True, sl2, s3) \<and>
    sl_length sl2 = length (ts_written s3) + content \<and>
    apt_text_line_read (ts_of (ts_written s3)) = (True, line, r) \<and> ts_rest r = hdrs \<and>
    mrcp_start_line_parse sl0 line = (True, received sl0 sl2)"
proof -
  obtain s1 where s1: "mrcp_start_line_generate apr sl s = Some (True, sl\<lparr>sl_length := 9\<rparr>, s1)" "ts_wf s1"
      "ts_ext s (v2_text sl) s1"
    using v2_start_line_generate [OF assms(1,2,4)] assms(6) by auto
  obtain s2 where s2: "ts_put hdrs s1 = Some s2" "ts_wf s2" "ts_ext s1 hdrs s2"
    using ts_emits_put [OF s1(2), of hdrs] ts_ext_pos [OF s1(3)] assms(6) by (auto simp: ts_emits_def)
  let ?P = "version_text MRCP_VERSION_2 @ [APT_TOKEN_SP]" and ?Z = "v2_tail sl @ CRLF @ hdrs"
  have w: "ts_written s2 = ?P @ replicate 7 APT_TOKEN_SP @ ?Z"
    using ts_ext_written [OF ts_ext_trans [OF s1(3) s2(3)] assms(3,2)] by (simp add: v2_text_def)
  have len: "length (ts_written s2) + content + 1 < 10 ^ 6"
    using w assms(3,6,7) by (simp add: v2_text_def)
  have pre: "version (sl\<lparr>sl_length := 9\<rparr>) = MRCP_VERSION_2" "ts_buf s2 \<le> ts_pos s2" "ts_pos s2 \<le> length (ts_mem s2)"
      "length ?P = sl_length (sl\<lparr>sl_length := 9\<rparr>)"
    using assms(4) s2(2) by (simp_all add: ts_wf_def)
  have upd: "sl\<lparr>sl_length := 9, sl_length := n\<rparr> = sl\<lparr>sl_length := n\<rparr>" for n by simp
  obtain n s3 where s3: "mrcp_start_line_finalize (sl\<lparr>sl_length := 9\<rparr>) content s2 = Some (True, sl\<lparr>sl_length := n\<rparr>, s3)"
      "ts_written s3 = ?P @ dec n @ APT_TOKEN_SP # ?Z" "n = length (ts_written s3) + content" "n < 10 ^ 6"
    using finalize_spec [OF pre(1-3) w pre(4) len, unfolded upd] by blast
  let ?line = "version_text MRCP_VERSION_2 @ APT_TOKEN_SP # dec n @ APT_TOKEN_SP # v2_tail sl"
  let ?s = "ts_of (ts_written s3)"
  have rest: "ts_rest ?s = ?line @ CRLF @ hdrs" using s3(2) by simp
  have lr: "apt_text_line_read ?s = (True, ?line, ?s\<lparr>ts_pos := ts_pos ?s + (length ?line + 2)\<rparr>)"
    using line_read_crlf [OF rest] no_eol_v2_tail [OF assms(5)] by simp
  have hd: "ts_rest (?s\<lparr>ts_pos := ts_pos ?s + (length ?line + 2)\<rparr>) = hdrs"
    by (rule line_rest(2) [OF ts_wf_ts_of rest])
  have pr: "mrcp_start_line_parse sl0 ?line = (True, received sl0 (sl\<lparr>sl_length := n\<rparr>))"
    using parse_v2_line [OF assms(5,4)] s3(4) by simp
  have ln: "sl_length (sl\<lparr>sl_length := n\<rparr>) = length (ts_written s3) + content"
    using s3(3) by simp
  show ?thesis
    by (intro exI conjI, rule s1(1), rule s2(1), rule s3(1), rule ln, rule lr, rule hd, rule pr)
qed

theorem start_line_v2_roundtrip_witness:
  "\<exists>sl1 s1 s2 sl2 s3 line r.
    mrcp_start_line_generate apr_std
      ((mrcp_start_line_init 0)\<lparr>message_type := MRCP_MESSAGE_TYPE_RESPONSE, version := MRCP_VERSION_2, request_id := 7,
        status_code := 200, request_state := MRCP_REQUEST_STATE_INPROGRESS\<rparr>) (ts_of (replicate 60 APT_NUL)) =
      Some (True, sl1, s1) \<and> ts_put ''A: 1'' s1 = Some s2 \<and>
    mrcp_start_line_finalize sl1 50 s2 = Some (True, sl2, s3) \<and>
    sl_length sl2 = length (ts_written s3) + 50 \<and>
    apt_text_line_read (ts_of (ts_written s3)) = (True, line, r) \<and> ts_rest r = ''A: 1'' \<and>
    mrcp_start_line_parse (mrcp_start_line_init 0) line = (True, received (mrcp_start_line_init 0) sl2)"
proof -
  let ?sl = "(mrcp_start_line_init 0)\<lparr>message_type := MRCP_MESSAGE_TYPE_RESPONSE, version := MRCP_VERSION_2, request_id := 7,
        status_code := 200, request_state := MRCP_REQUEST_STATE_INPROGRESS\<rparr>"
  let ?s = "ts_of (replicate 60 APT_NUL)"
  have s: "ts_pos ?s = 0" "ts_buf ?s = 0" "ts_end ?s = 60"
    by (simp_all add: ts_of_def apt_text_stream_init_def apt_text_stream_reset_def)
  have p: "ts_pos ?s = ts_buf ?s" "version ?sl = MRCP_VERSION_2" "start_line_ok ?sl"
    by (simp_all add: s start_line_ok_def)
  have "length (dec 200) = 3"
    using length_dec_unique [of 2 200] by simp
  then have room: "ts_pos ?s + length (v2_text ?sl) + length ''A: 1'' < ts_end ?s"
    by (simp add: s v2_text_def v2_tail_def id_text_def dec_int_def dec_small state_text_def)
  have small: "ts_end ?s - ts_pos ?s + 50 < 10 ^ 6"
    by (simp add: s)
  show ?thesis
    by (rule start_line_v2_roundtrip [OF apr_std_ok ts_wf_ts_of p room small])
qed

text \<open>
  C23: a version 1 start line is read back as it was written: the line generated for a request, response or event is
  read as one line, and parsing it into a freshly initialised start line gives the type, the version, the request
  identifier and the fields that belong to the type.
\<close>

theorem start_line_v1_roundtrip:
  assumes "apr_fmt_ok apr" "ts_wf s" "version sl = MRCP_VERSION_1" "start_line_ok sl"
    and "ts_pos s + length (v1_text sl) + 2 < ts_end s"
  defines "sl0 \<equiv> mrcp_start_line_init (method_id sl)"
  shows "\<exists>s1 line. mrcp_start_line_generate apr sl s = Some (True, sl, s1) \<and>
    apt_text_line_read (s1\<lparr>ts_pos := ts_pos s\<rparr>) = (True, line, s1) \<and>
    mrcp_start_line_parse sl0 line = (True, received sl0 (sl\<lparr>sl_length := 0\<rparr>))"
proof -
  obtain s1 where s1: "mrcp_start_line_generate apr sl s = Some (True, sl, s1)" "ts_wf s1" "ts_ext s (v1_text sl @ CRLF) s1"
    by (rule v1_start_line_generate [OF assms(1,2,4,3,5)])
  let ?r = "s1\<lparr>ts_pos := ts_pos s\<rparr>"
  have "ts_pos s1 \<le> ts_end s" using ts_ext_pos [OF s1(3)] assms(5) by simp
  from ts_ext_rest [OF assms(2) s1(3) this] have "ts_rest ?r = v1_text sl @ CRLF @ ts_rest s1" by simp
  from line_read_crlf [OF this no_eol_v1 [OF assms(4)]]
  have "apt_text_line_read ?r = (True, v1_text sl, s1)"
    using ts_ext_pos [OF s1(3)] by simp
  moreover have "mrcp_start_line_parse sl0 (v1_text sl) = (True, received sl0 (sl\<lparr>sl_length := 0\<rparr>))"
    using parse_v1_response [OF assms(4,3), of sl0] parse_v1_request [OF assms(4,3), of sl0]
    by (cases "message_type sl = MRCP_MESSAGE_TYPE_RESPONSE") (simp_all add: sl0_def mrcp_start_line_init_def)
  ultimately show ?thesis using s1(1) by blast
qed

theorem start_line_v1_roundtrip_witness:
  "\<exists>s1 line. mrcp_start_line_generate apr_std
      ((mrcp_start_line_init 0)\<lparr>message_type := MRCP_MESSAGE_TYPE_EVENT, version := MRCP_VERSION_1,
        method_name := ''SPEAK-COMPLETE'', request_state := MRCP_REQUEST_STATE_COMPLETE\<rparr>) (ts_of (replicate 60 APT_NUL)) =
      Some (True, (mrcp_start_line_init 0)\<lparr>message_type := MRCP_MESSAGE_TYPE_EVENT, version := MRCP_VERSION_1,
        method_name := ''SPEAK-COMPLETE'', request_state := MRCP_REQUEST_STATE_COMPLETE\<rparr>, s1) \<and>
    apt_text_line_read (s1\<lparr>ts_pos := 0\<rparr>) = (True, line, s1) \<and> fst (mrcp_start_line_parse (mrcp_start_line_init 0) line)"
proof -
  let ?sl = "(mrcp_start_line_init 0)\<lparr>message_type := MRCP_MESSAGE_TYPE_EVENT, version := MRCP_VERSION_1,
        method_name := ''SPEAK-COMPLETE'', request_state := MRCP_REQUEST_STATE_COMPLETE\<rparr>"
  let ?s = "ts_of (replicate 60 APT_NUL)"
  have s: "ts_pos ?s = 0" "ts_end ?s = 60"
    by (simp_all add: ts_of_def apt_text_stream_init_def apt_text_stream_reset_def)
  have "mrcp_request_id_parse ''SPEAK-COMPLETE'' = 0"
    by (simp add: mrcp_request_id_parse_def atol_def isspace_def isdigit_def clamp_long_def)
  then have ok: "start_line_ok ?sl"
    by (simp add: start_line_ok_def method_name_ok_def MRCP_NAME_def)
  have v: "version ?sl = MRCP_VERSION_1" by simp
  have room: "ts_pos ?s + length (v1_text ?sl) + 2 < ts_end ?s"
    by (simp add: s v1_text_def id_text_zero mrcp_start_line_init_def state_text_def)
  have m: "method_id ?sl = 0" by (simp add: mrcp_start_line_init_def)
  from start_line_v1_roundtrip [OF apr_std_ok ts_wf_ts_of v ok room] show ?thesis
    unfolding s m by fastforce
qed

end
