(* ===== verification/Mrcp_Header.thy ===== *)
theory Mrcp_Header
  imports Mrcp_Start_Line
begin

text \<open>
  Header accessors (\<open>mrcp_header_accessor.c\<close>), the generic header (\<open>mrcp_generic_header.c\<close>) and the message header
  (\<open>mrcp_header.c\<close>) of \<open>libs/mrcp/message\<close>. An accessor holds the parsed data of a kind of header and the table of
  functions that parse, generate and duplicate its fields. The type of the data of the resource header is a parameter.
  Following a NULL data pointer is the fault \<^const>\<open>None\<close>.
\<close>

section \<open>Accessors\<close>

text \<open>
  The allocation function is represented by the data it initialises. Generating a field has no value when it would print
  memory that was never written.
\<close>

record 'd mrcp_header_vtable =
  allocate :: "'d option"
  parse_field :: "'d \<Rightarrow> nat \<Rightarrow> apt_str \<Rightarrow> bool \<times> 'd"
  generate_field :: "'d \<Rightarrow> nat \<Rightarrow> (bool \<times> apt_str) option"
  duplicate_field :: "'d option \<Rightarrow> 'd option \<Rightarrow> nat \<Rightarrow> apt_str \<Rightarrow> bool \<times> 'd option"
  field_table :: "apt_str_table_item list"
  field_count :: nat

record 'd mrcp_header_accessor =
  acc_data :: "'d option"
  acc_vtable :: "'d mrcp_header_vtable option"

definition mrcp_header_accessor_init :: "'d mrcp_header_accessor" where
  "mrcp_header_accessor_init = \<lparr>acc_data = None, acc_vtable = None\<rparr>"

definition mrcp_header_allocate :: "'d mrcp_header_accessor \<Rightarrow> 'd option \<times> 'd mrcp_header_accessor" where
  "mrcp_header_allocate acc =
     (if acc_data acc \<noteq> None then (acc_data acc, acc)
      else
        (case acc_vtable acc of None \<Rightarrow> (None, acc)
         | Some vt \<Rightarrow>
             (case allocate vt of None \<Rightarrow> (None, acc) | Some d \<Rightarrow> (Some d, acc\<lparr>acc_data := Some d\<rparr>))))"

definition mrcp_header_field_value_parse ::
  "'d mrcp_header_accessor \<Rightarrow> apt_header_field \<Rightarrow> (bool \<times> 'd mrcp_header_accessor \<times> apt_header_field) option"
where
  "mrcp_header_field_value_parse acc f =
     (case acc_vtable acc of None \<Rightarrow> Some (False, acc, f)
      | Some vt \<Rightarrow>
          (let k = apt_string_table_id_find (field_table vt) (field_count vt) (hf_name f)
           in if field_count vt \<le> k then Some (False, acc, f)
              else
                (let f = f\<lparr>hf_id := k\<rparr>
                 in if hf_value f = [] then Some (True, acc, f)
                    else do {
                      d \<leftarrow> acc_data acc;
                      let (b, d') = parse_field vt d k (hf_value f);
                      Some (b, acc\<lparr>acc_data := Some d'\<rparr>, f)
                    })))"

definition mrcp_header_field_value_generate ::
  "'d mrcp_header_accessor \<Rightarrow> nat \<Rightarrow> bool \<Rightarrow> apt_header_field option option"
where
  "mrcp_header_field_value_generate acc k empty_value =
     (case acc_vtable acc of None \<Rightarrow> Some None
      | Some vt \<Rightarrow>
          (let f = (case apt_string_table_str_get (field_table vt) (field_count vt) k of
                      None \<Rightarrow> apt_header_field_alloc | Some name \<Rightarrow> apt_header_field_alloc\<lparr>hf_name := name\<rparr>)
           in if empty_value then Some (Some f)
              else do {
                d \<leftarrow> acc_data acc;
                (b, val) \<leftarrow> generate_field vt d k;
                Some (if b then Some (f\<lparr>hf_value := val\<rparr>) else None)
              }))"

definition mrcp_header_field_value_duplicate ::
  "'d mrcp_header_accessor \<Rightarrow> 'd mrcp_header_accessor \<Rightarrow> nat \<Rightarrow> apt_str \<Rightarrow> bool \<times> 'd mrcp_header_accessor"
where
  "mrcp_header_field_value_duplicate acc src k val =
     (case acc_vtable acc of None \<Rightarrow> (False, acc)
      | Some vt \<Rightarrow>
          if val = [] then (True, acc)
          else (let (b, d) = duplicate_field vt (acc_data acc) (acc_data src) k val in (b, acc\<lparr>acc_data := d\<rparr>)))"

section \<open>The generic header\<close>

definition MAX_ACTIVE_REQUEST_ID_COUNT :: nat where "MAX_ACTIVE_REQUEST_ID_COUNT = 5"

definition GENERIC_HEADER_ACTIVE_REQUEST_ID_LIST :: nat where "GENERIC_HEADER_ACTIVE_REQUEST_ID_LIST = 0"
definition GENERIC_HEADER_CONTENT_LENGTH :: nat where "GENERIC_HEADER_CONTENT_LENGTH = 8"
definition GENERIC_HEADER_COUNT :: nat where "GENERIC_HEADER_COUNT = 16"

text \<open>The array of request identifiers and its count are a list of at most five elements.\<close>

record mrcp_generic_header =
  active_request_id_list :: "mrcp_request_id list"
  proxy_sync_id :: apt_str
  accept_charset :: apt_str
  content_type :: apt_str
  content_id :: apt_str
  content_base :: apt_str
  content_encoding :: apt_str
  content_location :: apt_str
  content_length :: nat
  cache_control :: apt_str
  logging_tag :: apt_str
  vendor_specific_params :: "apt_pair option list option"
  accept :: apt_str
  fetch_timeout :: nat
  set_cookie :: apt_str
  set_cookie2 :: apt_str

definition generic_header_string_table :: "apt_str_table_item list" where
  "generic_header_string_table =
     [\<lparr>item_value = ''Active-Request-Id-List'', item_key = 3\<rparr>, \<lparr>item_value = ''Proxy-Sync-Id'', item_key = 0\<rparr>,
      \<lparr>item_value = ''Accept-Charset'', item_key = 7\<rparr>, \<lparr>item_value = ''Content-Type'', item_key = 9\<rparr>,
      \<lparr>item_value = ''Content-Id'', item_key = 9\<rparr>, \<lparr>item_value = ''Content-Base'', item_key = 8\<rparr>,
      \<lparr>item_value = ''Content-Encoding'', item_key = 9\<rparr>, \<lparr>item_value = ''Content-Location'', item_key = 9\<rparr>,
      \<lparr>item_value = ''Content-Length'', item_key = 10\<rparr>, \<lparr>item_value = ''Cache-Control'', item_key = 1\<rparr>,
      \<lparr>item_value = ''Logging-Tag'', item_key = 0\<rparr>, \<lparr>item_value = ''Vendor-Specific-Parameters'', item_key = 0\<rparr>,
      \<lparr>item_value = ''Accept'', item_key = 6\<rparr>, \<lparr>item_value = ''Fetch-Timeout'', item_key = 0\<rparr>,
      \<lparr>item_value = ''Set-Cookie'', item_key = 10\<rparr>, \<lparr>item_value = ''Set-Cookie2'', item_key = 10\<rparr>]"

fun request_ids_read :: "nat \<Rightarrow> apt_text_stream \<Rightarrow> mrcp_request_id list" where
  "request_ids_read 0 s = []"
| "request_ids_read (Suc n) s =
     (case apt_text_field_read s (CHR '','') True of
        (False, _, _) \<Rightarrow> []
      | (True, field, s') \<Rightarrow> mrcp_request_id_parse field # request_ids_read n s')"

definition mrcp_request_id_list_parse :: "apt_str \<Rightarrow> mrcp_request_id list" where
  "mrcp_request_id_list_parse val = request_ids_read MAX_ACTIVE_REQUEST_ID_COUNT (ts_of val)"

text \<open>The characters are appended to those written before; \<open>len\<close> is the estimated length.\<close>

fun request_ids_print :: "apr_fmt \<Rightarrow> nat \<Rightarrow> nat \<Rightarrow> string \<Rightarrow> mrcp_request_id list \<Rightarrow> string" where
  "request_ids_print apr len i written [] = written"
| "request_ids_print apr len i written (rid # ids) =
     (let written = (if i \<noteq> 0 then written @ [CHR '',''] else written)
      in request_ids_print apr len (Suc i) (written @ apr_snprintf_d apr (len - length written) rid) ids)"

definition mrcp_request_id_list_generate :: "apr_fmt \<Rightarrow> mrcp_request_id list \<Rightarrow> apt_str" where
  "mrcp_request_id_list_generate apr ids =
     (let len = 10 * length ids + (if 1 < length ids then length ids - 1 else 0)
      in request_ids_print apr len 0 [] ids)"

definition mrcp_generic_header_init :: mrcp_generic_header where
  "mrcp_generic_header_init =
     \<lparr>active_request_id_list = [], proxy_sync_id = [], accept_charset = [], content_type = [], content_id = [],
      content_base = [], content_encoding = [], content_location = [], content_length = 0, cache_control = [],
      logging_tag = [], vendor_specific_params = None, accept = [], fetch_timeout = 0, set_cookie = [], set_cookie2 = []\<rparr>"

definition mrcp_generic_header_parse ::
  "mrcp_generic_header \<Rightarrow> nat \<Rightarrow> apt_str \<Rightarrow> bool \<times> mrcp_generic_header"
where
  "mrcp_generic_header_parse d k val =
     (if k = 0 then (True, d\<lparr>active_request_id_list := mrcp_request_id_list_parse val\<rparr>)
      else if k = 1 then (True, d\<lparr>proxy_sync_id := val\<rparr>)
      else if k = 2 then (True, d\<lparr>accept_charset := val\<rparr>)
      else if k = 3 then (True, d\<lparr>content_type := val\<rparr>)
      else if k = 4 then (True, d\<lparr>content_id := val\<rparr>)
      else if k = 5 then (True, d\<lparr>content_base := val\<rparr>)
      else if k = 6 then (True, d\<lparr>content_encoding := val\<rparr>)
      else if k = 7 then (True, d\<lparr>content_location := val\<rparr>)
      else if k = 8 then (True, d\<lparr>content_length := apt_size_value_parse val\<rparr>)
      else if k = 9 then (True, d\<lparr>cache_control := val\<rparr>)
      else if k = 10 then (True, d\<lparr>logging_tag := val\<rparr>)
      else if k = 11 then
        (let arr = (case vendor_specific_params d of None \<Rightarrow> [] | Some arr \<Rightarrow> arr)
         in (True, d\<lparr>vendor_specific_params := Some (apt_pair_array_parse arr val)\<rparr>))
      else if k = 12 then (True, d\<lparr>accept := val\<rparr>)
      else if k = 13 then (True, d\<lparr>fetch_timeout := apt_size_value_parse val\<rparr>)
      else if k = 14 then (True, d\<lparr>set_cookie := val\<rparr>)
      else if k = 15 then (True, d\<lparr>set_cookie2 := val\<rparr>)
      else (False, d))"

text \<open>
  The value of the vendor specific parameters: none for no array; no value in the model for an array with a pair that was
  not initialised or whose computed length is not the number of characters stored.
\<close>

definition vendor_params_generate :: "apt_pair option list option \<Rightarrow> apt_str option" where
  "vendor_params_generate params =
     (case params of None \<Rightarrow> Some []
      | Some arr \<Rightarrow>
          if None \<in> set arr then None
          else
            (let (n, cs) = apt_pair_array_generate (map the arr)
             in if n = length cs then Some cs else None))"

definition mrcp_generic_header_generate ::
  "apr_fmt \<Rightarrow> mrcp_generic_header \<Rightarrow> nat \<Rightarrow> (bool \<times> apt_str) option"
where
  "mrcp_generic_header_generate apr d k =
     (if k = 0 then Some (True, mrcp_request_id_list_generate apr (active_request_id_list d))
      else if k = 1 then Some (True, proxy_sync_id d)
      else if k = 2 then Some (True, accept_charset d)
      else if k = 3 then Some (True, content_type d)
      else if k = 4 then Some (True, content_id d)
      else if k = 5 then Some (True, content_base d)
      else if k = 6 then Some (True, content_encoding d)
      else if k = 7 then Some (True, content_location d)
      else if k = 8 then Some (True, apt_size_value_generate apr (content_length d))
      else if k = 9 then Some (True, cache_control d)
      else if k = 10 then Some (True, logging_tag d)
      else if k = 11 then do { v \<leftarrow> vendor_params_generate (vendor_specific_params d); Some (True, v) }
      else if k = 12 then Some (True, accept d)
      else if k = 13 then Some (True, apt_size_value_generate apr (fetch_timeout d))
      else if k = 14 then Some (True, set_cookie d)
      else if k = 15 then Some (True, set_cookie2 d)
      else Some (True, []))"

definition mrcp_generic_header_duplicate ::
  "mrcp_generic_header option \<Rightarrow> mrcp_generic_header option \<Rightarrow> nat \<Rightarrow> apt_str \<Rightarrow> bool \<times> mrcp_generic_header option"
where
  "mrcp_generic_header_duplicate dst src k val =
     (case (dst, src) of
        (Some d, Some s) \<Rightarrow>
          (if k = 0 then (True, Some d)
           else if k = 1 then (True, Some (d\<lparr>proxy_sync_id := val\<rparr>))
           else if k = 2 then (True, Some (d\<lparr>accept_charset := val\<rparr>))
           else if k = 3 then (True, Some (d\<lparr>content_type := val\<rparr>))
           else if k = 4 then (True, Some (d\<lparr>content_id := val\<rparr>))
           else if k = 5 then (True, Some (d\<lparr>content_base := val\<rparr>))
           else if k = 6 then (True, Some (d\<lparr>content_encoding := val\<rparr>))
           else if k = 7 then (True, Some (d\<lparr>content_location := val\<rparr>))
           else if k = 8 then (True, Some (d\<lparr>content_length := content_length s\<rparr>))
           else if k = 9 then (True, Some (d\<lparr>cache_control := val\<rparr>))
           else if k = 10 then (True, Some (d\<lparr>logging_tag := val\<rparr>))
           else if k = 11 then (True, Some (d\<lparr>vendor_specific_params := apt_pair_array_copy (vendor_specific_params s)\<rparr>))
           else if k = 12 then (True, Some (d\<lparr>accept := val\<rparr>))
           else if k = 13 then (True, Some (d\<lparr>fetch_timeout := fetch_timeout s\<rparr>))
           else if k = 14 then (True, Some (d\<lparr>set_cookie := val\<rparr>))
           else if k = 15 then (True, Some (d\<lparr>set_cookie2 := val\<rparr>))
           else (False, Some d))
      | _ \<Rightarrow> (False, dst))"

definition mrcp_generic_header_vtable_get :: "apr_fmt \<Rightarrow> mrcp_generic_header mrcp_header_vtable" where
  "mrcp_generic_header_vtable_get apr =
     \<lparr>allocate = Some mrcp_generic_header_init, parse_field = mrcp_generic_header_parse,
      generate_field = mrcp_generic_header_generate apr, duplicate_field = mrcp_generic_header_duplicate,
      field_table = generic_header_string_table, field_count = GENERIC_HEADER_COUNT\<rparr>"

definition active_request_id_list_append :: "mrcp_generic_header \<Rightarrow> mrcp_request_id \<Rightarrow> bool \<times> mrcp_generic_header" where
  "active_request_id_list_append d i =
     (if MAX_ACTIVE_REQUEST_ID_COUNT \<le> length (active_request_id_list d) then (False, d)
      else (True, d\<lparr>active_request_id_list := active_request_id_list d @ [i]\<rparr>))"

fun request_id_in :: "mrcp_request_id list \<Rightarrow> mrcp_request_id \<Rightarrow> bool" where
  "request_id_in [] i = False"
| "request_id_in (j # ids) i = (if j = i then True else request_id_in ids i)"

definition active_request_id_list_find :: "mrcp_generic_header \<Rightarrow> mrcp_request_id \<Rightarrow> bool" where
  "active_request_id_list_find d i = request_id_in (active_request_id_list d) i"

section \<open>The message header\<close>

record 'r mrcp_message_header =
  generic_header_accessor :: "mrcp_generic_header mrcp_header_accessor"
  resource_header_accessor :: "'r mrcp_header_accessor"
  header_section :: apt_header_section

definition mrcp_message_header_init :: "'r mrcp_message_header" where
  "mrcp_message_header_init =
     \<lparr>generic_header_accessor = mrcp_header_accessor_init, resource_header_accessor = mrcp_header_accessor_init,
      header_section = apt_header_section_init\<rparr>"

definition mrcp_message_header_data_alloc ::
  "mrcp_generic_header mrcp_header_vtable option \<Rightarrow> 'r mrcp_header_vtable option \<Rightarrow> 'r mrcp_message_header
    \<Rightarrow> bool \<times> 'r mrcp_message_header"
where
  "mrcp_message_header_data_alloc gvt rvt h =
     (case (gvt, rvt) of
        (Some g, Some r) \<Rightarrow>
          (True,
           h\<lparr>header_section := snd (apt_header_section_array_alloc (field_count g + field_count r) (header_section h)),
             generic_header_accessor := snd (mrcp_header_allocate \<lparr>acc_data = None, acc_vtable = Some g\<rparr>),
             resource_header_accessor := snd (mrcp_header_allocate \<lparr>acc_data = None, acc_vtable = Some r\<rparr>)\<rparr>)
      | _ \<Rightarrow> (False, h))"

definition mrcp_message_header_create ::
  "mrcp_generic_header mrcp_header_vtable option \<Rightarrow> 'r mrcp_header_vtable option \<Rightarrow> 'r mrcp_message_header"
where
  "mrcp_message_header_create gvt rvt = snd (mrcp_message_header_data_alloc gvt rvt mrcp_message_header_init)"

text \<open>An address that no field of the section has; storing a field object into the ring.\<close>

definition fresh_addr :: "apt_header_section \<Rightarrow> nat" where
  "fresh_addr h = Suc (fold max (map fst (hs_ring h)) (fold max (List.map_filter (\<lambda>p. p) (hs_arr h)) 0))"

definition ring_store :: "field_obj \<Rightarrow> apt_header_section \<Rightarrow> apt_header_section" where
  "ring_store f h = h\<lparr>hs_ring := map (\<lambda>g. if fst g = fst f then f else g) (hs_ring h)\<rparr>"

text \<open>The resource header is tried first, then the generic header; which of them took the field is the first result.\<close>

definition field_value_parse ::
  "'r mrcp_message_header \<Rightarrow> apt_header_field \<Rightarrow> (bool \<times> 'r mrcp_message_header \<times> apt_header_field) option"
where
  "field_value_parse h f = do {
     (b, racc, f) \<leftarrow> mrcp_header_field_value_parse (resource_header_accessor h) f;
     let h = h\<lparr>resource_header_accessor := racc\<rparr>;
     if b then Some (True, h, f\<lparr>hf_id := hf_id f + GENERIC_HEADER_COUNT\<rparr>)
     else do {
       (b, gacc, f) \<leftarrow> mrcp_header_field_value_parse (generic_header_accessor h) f;
       Some (b, h\<lparr>generic_header_accessor := gacc\<rparr>, f)
     }
   }"

definition mrcp_header_field_add ::
  "'r mrcp_message_header \<Rightarrow> field_obj \<Rightarrow> (bool \<times> 'r mrcp_message_header) option"
where
  "mrcp_header_field_add h fo =
     (if hf_name (snd fo) = [] then Some (False, h)
      else do {
        (_, h, f) \<leftarrow> field_value_parse h (snd fo);
        let (status, sec) = apt_header_section_field_add (fst fo, f) (header_section h);
        Some (status, h\<lparr>header_section := sec\<rparr>)
      })"

fun fields_parse_loop :: "nat list \<Rightarrow> 'r mrcp_message_header \<Rightarrow> 'r mrcp_message_header option" where
  "fields_parse_loop [] h = Some h"
| "fields_parse_loop (a # addrs) h = do {
     f \<leftarrow> map_of (hs_ring (header_section h)) a;
     (b, h, f) \<leftarrow> field_value_parse h f;
     let sec = ring_store (a, f) (header_section h);
     let sec = (if b then snd (apt_header_section_field_set (a, f) sec) else sec);
     fields_parse_loop addrs (h\<lparr>header_section := sec\<rparr>)
   }"

definition mrcp_header_fields_parse :: "'r mrcp_message_header \<Rightarrow> (bool \<times> 'r mrcp_message_header) option" where
  "mrcp_header_fields_parse h = do {
     h' \<leftarrow> fields_parse_loop (map fst (hs_ring (header_section h))) h;
     Some (True, h')
   }"

definition mrcp_header_accessor_value_duplicate ::
  "'r mrcp_message_header \<Rightarrow> apt_header_field \<Rightarrow> 'r mrcp_message_header \<Rightarrow> bool \<times> 'r mrcp_message_header"
where
  "mrcp_header_accessor_value_duplicate h f src =
     (if hf_id f < GENERIC_HEADER_COUNT then
        (let (b, acc) = mrcp_header_field_value_duplicate (generic_header_accessor h) (generic_header_accessor src)
                          (hf_id f) (hf_value f)
         in (b, h\<lparr>generic_header_accessor := acc\<rparr>))
      else
        (let (b, acc) = mrcp_header_field_value_duplicate (resource_header_accessor h) (resource_header_accessor src)
                          (hf_id f - GENERIC_HEADER_COUNT) (hf_value f)
         in (b, h\<lparr>resource_header_accessor := acc\<rparr>)))"

definition field_set :: "'r mrcp_message_header \<Rightarrow> field_obj \<Rightarrow> 'r mrcp_message_header \<Rightarrow> 'r mrcp_message_header" where
  "field_set src sf h =
     (let (f, sec) =
        (case apt_header_section_field_get (header_section h) (hf_id (snd sf)) of
           Some (a, f) \<Rightarrow>
             (let f = f\<lparr>hf_value := hf_value (snd sf)\<rparr> in (f, ring_store (a, f) (header_section h)))
         | None \<Rightarrow>
             (let f = apt_header_field_copy (snd sf)
              in (f, snd (apt_header_section_field_add (fresh_addr (header_section h), f) (header_section h)))))
      in snd (mrcp_header_accessor_value_duplicate (h\<lparr>header_section := sec\<rparr>) f src))"

definition mrcp_header_fields_set ::
  "'r mrcp_message_header \<Rightarrow> 'r mrcp_message_header \<Rightarrow> bool \<times> 'r mrcp_message_header"
where
  "mrcp_header_fields_set h src = (True, fold (field_set src) (hs_ring (header_section src)) h)"

definition field_get :: "'r mrcp_message_header \<Rightarrow> field_obj \<Rightarrow> 'r mrcp_message_header \<Rightarrow> 'r mrcp_message_header" where
  "field_get src mf h =
     (case apt_header_section_field_get (header_section h) (hf_id (snd mf)) of
        Some _ \<Rightarrow> h
      | None \<Rightarrow>
          (let (f, h) =
             (case apt_header_section_field_get (header_section src) (hf_id (snd mf)) of
                Some sf \<Rightarrow>
                  (let f = apt_header_field_copy (snd sf) in (f, snd (mrcp_header_accessor_value_duplicate h f src)))
              | None \<Rightarrow> (apt_header_field_copy (snd mf), h))
           in h\<lparr>header_section :=
                  snd (apt_header_section_field_add (fresh_addr (header_section h), f) (header_section h))\<rparr>))"

definition mrcp_header_fields_get ::
  "'r mrcp_message_header \<Rightarrow> 'r mrcp_message_header \<Rightarrow> 'r mrcp_message_header \<Rightarrow> bool \<times> 'r mrcp_message_header"
where
  "mrcp_header_fields_get h src mask_header = (True, fold (field_get src) (hs_ring (header_section mask_header)) h)"

definition field_inherit :: "'r mrcp_message_header \<Rightarrow> field_obj \<Rightarrow> 'r mrcp_message_header \<Rightarrow> 'r mrcp_message_header" where
  "field_inherit src sf h =
     (case apt_header_section_field_get (header_section h) (hf_id (snd sf)) of
        Some _ \<Rightarrow> h
      | None \<Rightarrow>
          (let f = apt_header_field_copy (snd sf);
               h = snd (mrcp_header_accessor_value_duplicate h f src)
           in h\<lparr>header_section :=
                  snd (apt_header_section_field_add (fresh_addr (header_section h), f) (header_section h))\<rparr>))"

definition mrcp_header_fields_inherit ::
  "'r mrcp_message_header \<Rightarrow> 'r mrcp_message_header \<Rightarrow> bool \<times> 'r mrcp_message_header"
where
  "mrcp_header_fields_inherit h src = (True, fold (field_inherit src) (hs_ring (header_section src)) h)"

section \<open>The channel identifier\<close>

record mrcp_channel_id =
  session_id :: apt_str
  resource_name :: apt_str

definition MRCP_CHANNEL_ID :: string where "MRCP_CHANNEL_ID = ''Channel-Identifier''"

definition mrcp_channel_id_init :: mrcp_channel_id where
  "mrcp_channel_id_init = \<lparr>session_id = [], resource_name = []\<rparr>"

definition is_channel_id_field :: "field_obj \<Rightarrow> bool" where
  "is_channel_id_field f \<longleftrightarrow>
     hf_value (snd f) \<noteq> [] \<and> strncaseeq (hf_name (snd f)) MRCP_CHANNEL_ID (length MRCP_CHANNEL_ID)"

definition mrcp_channel_id_parse ::
  "mrcp_channel_id \<Rightarrow> 'r mrcp_message_header \<Rightarrow> bool \<times> mrcp_channel_id \<times> 'r mrcp_message_header"
where
  "mrcp_channel_id_parse cid h =
     (case find is_channel_id_field (hs_ring (header_section h)) of
        None \<Rightarrow> (False, cid, h)
      | Some f \<Rightarrow>
          (True,
           case apt_id_resource_parse (hf_value (snd f)) (CHR ''@'') of
             None \<Rightarrow> cid | Some (s, r) \<Rightarrow> \<lparr>session_id = s, resource_name = r\<rparr>,
           h\<lparr>header_section := snd (apt_header_section_field_remove f (header_section h))\<rparr>))"

definition mrcp_channel_id_generate ::
  "mrcp_channel_id \<Rightarrow> apt_text_stream \<Rightarrow> (bool \<times> apt_text_stream) option"
where
  "mrcp_channel_id_generate cid s =
     (if ts_end s \<le> ts_pos s + length MRCP_CHANNEL_ID + 2 + length (session_id cid) + 1 + length (resource_name cid)
      then Some (False, s)
      else do {
        s1 \<leftarrow> ts_put MRCP_CHANNEL_ID s;
        s2 \<leftarrow> ts_put [CHR '':'', APT_TOKEN_SP] s1;
        s3 \<leftarrow> ts_put (session_id cid) s2;
        s4 \<leftarrow> ts_put [CHR ''@''] s3;
        s5 \<leftarrow> ts_put (resource_name cid) s4;
        apt_text_eol_insert s5
      })"

end
