(* ===== verification/Mrcp_Message.thy ===== *)
theory Mrcp_Message
  imports Mrcp_Header
begin

text \<open>
  MRCP messages and their creation: \<open>libs/mrcp/message/src/mrcp_message.c\<close>, \<open>include/mrcp_message.h\<close> and the resource
  of \<open>libs/mrcp/control/include/mrcp_resource.h\<close>. The type \<open>'r\<close> of the data of the resource header is a parameter.
\<close>

section \<open>Resources and messages\<close>

record 'r mrcp_resource =
  res_id :: nat
  res_name :: apt_str
  method_count :: nat
  event_count :: nat
  get_method_str_table :: "mrcp_version_e \<Rightarrow> apt_str_table_item list"
  get_event_str_table :: "mrcp_version_e \<Rightarrow> apt_str_table_item list"
  get_resource_header_vtable :: "mrcp_version_e \<Rightarrow> 'r mrcp_header_vtable option"

record 'r mrcp_message =
  start_line :: mrcp_start_line
  channel_id :: mrcp_channel_id
  header :: "'r mrcp_message_header"
  body :: apt_str
  resource :: "'r mrcp_resource option"

text \<open>The method identifier of a new message is whatever the allocated memory held.\<close>

definition mrcp_message_create :: "nat \<Rightarrow> 'r mrcp_message" where
  "mrcp_message_create garbage =
     \<lparr>start_line = mrcp_start_line_init garbage, channel_id = mrcp_channel_id_init, header = mrcp_message_header_init,
      body = [], resource = None\<rparr>"

definition mrcp_message_resource_set_by_id ::
  "apr_fmt \<Rightarrow> 'r mrcp_message \<Rightarrow> 'r mrcp_resource option \<Rightarrow> bool \<times> 'r mrcp_message"
where
  "mrcp_message_resource_set_by_id apr m r =
     (case r of None \<Rightarrow> (False, m)
      | Some res \<Rightarrow>
          (let sl = start_line m;
               m = m\<lparr>resource := Some res, channel_id := (channel_id m)\<lparr>resource_name := res_name res\<rparr>,
                     header := snd (mrcp_message_header_data_alloc (Some (mrcp_generic_header_vtable_get apr))
                                      (get_resource_header_vtable res (version sl)) (header m))\<rparr>;
               set_name = (\<lambda>name. case name of None \<Rightarrow> (False, m)
                                   | Some n \<Rightarrow> (True, m\<lparr>start_line := sl\<lparr>method_name := n\<rparr>\<rparr>))
           in case message_type sl of
                MRCP_MESSAGE_TYPE_REQUEST \<Rightarrow>
                  set_name (apt_string_table_str_get (get_method_str_table res (version sl)) (method_count res) (method_id sl))
              | MRCP_MESSAGE_TYPE_EVENT \<Rightarrow>
                  set_name (apt_string_table_str_get (get_event_str_table res (version sl)) (event_count res) (method_id sl))
              | _ \<Rightarrow> (True, m)))"

definition mrcp_message_resource_set ::
  "apr_fmt \<Rightarrow> 'r mrcp_message \<Rightarrow> 'r mrcp_resource option \<Rightarrow> bool \<times> 'r mrcp_message"
where
  "mrcp_message_resource_set apr m r =
     (case r of None \<Rightarrow> (False, m)
      | Some res \<Rightarrow>
          (let sl = start_line m;
               m = m\<lparr>resource := Some res,
                     header := snd (mrcp_message_header_data_alloc (Some (mrcp_generic_header_vtable_get apr))
                                      (get_resource_header_vtable res (version sl)) (header m))\<rparr>
           in case message_type sl of
                MRCP_MESSAGE_TYPE_REQUEST \<Rightarrow>
                  (let k = apt_string_table_id_find (get_method_str_table res (version sl)) (method_count res) (method_name sl)
                   in (k < method_count res, m\<lparr>start_line := sl\<lparr>method_id := k\<rparr>\<rparr>))
              | MRCP_MESSAGE_TYPE_EVENT \<Rightarrow>
                  (let k = apt_string_table_id_find (get_event_str_table res (version sl)) (event_count res) (method_name sl)
                   in (k < event_count res, m\<lparr>start_line := sl\<lparr>method_id := k\<rparr>\<rparr>))
              | _ \<Rightarrow> (True, m)))"

definition mrcp_request_create ::
  "apr_fmt \<Rightarrow> 'r mrcp_resource option \<Rightarrow> mrcp_version_e \<Rightarrow> nat \<Rightarrow> 'r mrcp_message"
where
  "mrcp_request_create apr res v mid =
     (let m = mrcp_message_create mid;
          m = m\<lparr>start_line := (start_line m)\<lparr>message_type := MRCP_MESSAGE_TYPE_REQUEST, version := v, method_id := mid\<rparr>\<rparr>
      in snd (mrcp_message_resource_set_by_id apr m res))"

definition mrcp_response_create :: "apr_fmt \<Rightarrow> nat \<Rightarrow> 'r mrcp_message option \<Rightarrow> 'r mrcp_message" where
  "mrcp_response_create apr garbage request_message =
     (let m = mrcp_message_create garbage;
          m = m\<lparr>start_line := (start_line m)\<lparr>message_type := MRCP_MESSAGE_TYPE_RESPONSE,
                 request_state := MRCP_REQUEST_STATE_COMPLETE, status_code := MRCP_STATUS_CODE_SUCCESS\<rparr>\<rparr>
      in case request_message of None \<Rightarrow> m
         | Some req \<Rightarrow>
             (let m = m\<lparr>channel_id := channel_id req,
                        start_line := (start_line m)\<lparr>request_id := request_id (start_line req),
                          version := version (start_line req), method_id := method_id (start_line req),
                          method_name := method_name (start_line req)\<rparr>\<rparr>
              in snd (mrcp_message_resource_set_by_id apr m (resource req))))"

definition mrcp_event_create :: "apr_fmt \<Rightarrow> 'r mrcp_message option \<Rightarrow> nat \<Rightarrow> 'r mrcp_message" where
  "mrcp_event_create apr request_message event_id =
     (let m = mrcp_message_create event_id;
          m = m\<lparr>start_line := (start_line m)\<lparr>message_type := MRCP_MESSAGE_TYPE_EVENT, method_id := event_id\<rparr>\<rparr>
      in case request_message of None \<Rightarrow> m
         | Some req \<Rightarrow>
             (let m = m\<lparr>channel_id := channel_id req,
                        start_line := (start_line m)\<lparr>request_id := request_id (start_line req),
                          version := version (start_line req)\<rparr>\<rparr>
              in snd (mrcp_message_resource_set_by_id apr m (resource req))))"

section \<open>Header properties of a message\<close>

definition mrcp_generic_header_get :: "'r mrcp_message \<Rightarrow> mrcp_generic_header option" where
  "mrcp_generic_header_get m = acc_data (generic_header_accessor (header m))"

definition mrcp_resource_header_get :: "'r mrcp_message \<Rightarrow> 'r option" where
  "mrcp_resource_header_get m = acc_data (resource_header_accessor (header m))"

text \<open>The data, and a way to store it back: the C code writes through the pointer it gets.\<close>

definition mrcp_generic_header_prepare :: "'r mrcp_message \<Rightarrow> mrcp_generic_header option \<times> 'r mrcp_message" where
  "mrcp_generic_header_prepare m =
     (let (d, acc) = mrcp_header_allocate (generic_header_accessor (header m))
      in (d, m\<lparr>header := (header m)\<lparr>generic_header_accessor := acc\<rparr>\<rparr>))"

definition generic_header_store :: "mrcp_generic_header \<Rightarrow> 'r mrcp_message \<Rightarrow> 'r mrcp_message" where
  "generic_header_store d m =
     m\<lparr>header := (header m)\<lparr>generic_header_accessor := (generic_header_accessor (header m))\<lparr>acc_data := Some d\<rparr>\<rparr>\<rparr>"

definition mrcp_resource_header_prepare :: "'r mrcp_message \<Rightarrow> 'r option \<times> 'r mrcp_message" where
  "mrcp_resource_header_prepare m =
     (let (d, acc) = mrcp_header_allocate (resource_header_accessor (header m))
      in (d, m\<lparr>header := (header m)\<lparr>resource_header_accessor := acc\<rparr>\<rparr>))"

definition resource_header_store :: "'r \<Rightarrow> 'r mrcp_message \<Rightarrow> 'r mrcp_message" where
  "resource_header_store d m =
     m\<lparr>header := (header m)\<lparr>resource_header_accessor := (resource_header_accessor (header m))\<lparr>acc_data := Some d\<rparr>\<rparr>\<rparr>"

definition section_field_append :: "apt_header_field \<Rightarrow> 'r mrcp_message \<Rightarrow> bool \<times> 'r mrcp_message" where
  "section_field_append f m =
     (let sec = header_section (header m);
          (b, sec') = apt_header_section_field_add (fresh_addr sec, f) sec
      in (b, m\<lparr>header := (header m)\<lparr>header_section := sec'\<rparr>\<rparr>))"

definition mrcp_generic_header_property_add :: "'r mrcp_message \<Rightarrow> nat \<Rightarrow> (bool \<times> 'r mrcp_message) option" where
  "mrcp_generic_header_property_add m k = do {
     f \<leftarrow> mrcp_header_field_value_generate (generic_header_accessor (header m)) k False;
     Some (case f of None \<Rightarrow> (False, m) | Some f \<Rightarrow> section_field_append (f\<lparr>hf_id := k\<rparr>) m)
   }"

definition mrcp_generic_header_name_property_add :: "'r mrcp_message \<Rightarrow> nat \<Rightarrow> (bool \<times> 'r mrcp_message) option" where
  "mrcp_generic_header_name_property_add m k = do {
     f \<leftarrow> mrcp_header_field_value_generate (generic_header_accessor (header m)) k True;
     Some (case f of None \<Rightarrow> (False, m) | Some f \<Rightarrow> section_field_append (f\<lparr>hf_id := k\<rparr>) m)
   }"

definition mrcp_resource_header_property_add :: "'r mrcp_message \<Rightarrow> nat \<Rightarrow> (bool \<times> 'r mrcp_message) option" where
  "mrcp_resource_header_property_add m k = do {
     f \<leftarrow> mrcp_header_field_value_generate (resource_header_accessor (header m)) k False;
     Some (case f of None \<Rightarrow> (False, m) | Some f \<Rightarrow> section_field_append (f\<lparr>hf_id := k + GENERIC_HEADER_COUNT\<rparr>) m)
   }"

definition mrcp_resource_header_name_property_add :: "'r mrcp_message \<Rightarrow> nat \<Rightarrow> (bool \<times> 'r mrcp_message) option" where
  "mrcp_resource_header_name_property_add m k = do {
     f \<leftarrow> mrcp_header_field_value_generate (resource_header_accessor (header m)) k True;
     Some (case f of None \<Rightarrow> (False, m) | Some f \<Rightarrow> section_field_append (f\<lparr>hf_id := k + GENERIC_HEADER_COUNT\<rparr>) m)
   }"

definition mrcp_generic_header_property_check :: "'r mrcp_message \<Rightarrow> nat \<Rightarrow> bool" where
  "mrcp_generic_header_property_check m k = apt_header_section_field_check (header_section (header m)) k"

definition mrcp_resource_header_property_check :: "'r mrcp_message \<Rightarrow> nat \<Rightarrow> bool" where
  "mrcp_resource_header_property_check m k =
     apt_header_section_field_check (header_section (header m)) (k + GENERIC_HEADER_COUNT)"

definition section_property_remove :: "'r mrcp_message \<Rightarrow> nat \<Rightarrow> bool \<times> 'r mrcp_message" where
  "section_property_remove m k =
     (case apt_header_section_field_get (header_section (header m)) k of
        None \<Rightarrow> (False, m)
      | Some f \<Rightarrow>
          (let (b, sec) = apt_header_section_field_remove f (header_section (header m))
           in (b, m\<lparr>header := (header m)\<lparr>header_section := sec\<rparr>\<rparr>)))"

definition mrcp_generic_header_property_remove :: "'r mrcp_message \<Rightarrow> nat \<Rightarrow> bool \<times> 'r mrcp_message" where
  "mrcp_generic_header_property_remove m k = section_property_remove m k"

definition mrcp_resource_header_property_remove :: "'r mrcp_message \<Rightarrow> nat \<Rightarrow> bool \<times> 'r mrcp_message" where
  "mrcp_resource_header_property_remove m k = section_property_remove m (k + GENERIC_HEADER_COUNT)"

definition mrcp_message_validate :: "'r mrcp_message \<Rightarrow> (bool \<times> 'r mrcp_message) option" where
  "mrcp_message_validate m =
     (if body m = [] then Some (True, m)
      else
        (case mrcp_generic_header_prepare m of
           (None, m) \<Rightarrow> Some (False, m)
         | (Some d, m) \<Rightarrow>
             if \<not> mrcp_generic_header_property_check m GENERIC_HEADER_CONTENT_LENGTH \<or> content_length d = 0
             then do {
               (_, m) \<leftarrow> mrcp_generic_header_property_add
                 (generic_header_store (d\<lparr>content_length := length (body m)\<rparr>) m) GENERIC_HEADER_CONTENT_LENGTH;
               Some (True, m)
             }
             else Some (True, m)))"

text \<open>The field after a given one in the ring, or the first one.\<close>

definition mrcp_message_next_header_field_get :: "'r mrcp_message \<Rightarrow> field_obj option \<Rightarrow> field_obj option" where
  "mrcp_message_next_header_field_get m f =
     (let ring = hs_ring (header_section (header m))
      in case f of
           None \<Rightarrow> (case ring of [] \<Rightarrow> None | g # _ \<Rightarrow> Some g)
         | Some (a, _) \<Rightarrow>
             (case drop 1 (dropWhile (\<lambda>g. fst g \<noteq> a) ring) of [] \<Rightarrow> None | g # _ \<Rightarrow> Some g))"

end
