(* ===== verification/Mrcp_Resource.thy ===== *)
theory Mrcp_Resource
  imports Mrcp_Message
begin

text \<open>
  What the headers of the four MRCP resources (\<open>libs/mrcp/resources\<close>) share: floating point values
  (\<open>apt_float_value_parse\<close>, \<open>apt_float_value_generate\<close> of \<open>apt_text_stream.c\<close>), values read into a field that keeps its
  old contents when the text is not understood, and the contract by which the state machines use the header of their
  resource.
\<close>

section \<open>Floating point values\<close>

text \<open>
  The type \<open>float\<close> of the platform is a parameter \<open>'f\<close> with the operations the code uses: conversion of a text
  (\<open>atof\<close>) and of a size, printing with the format \<open>"%f"\<close>, and the arithmetic of the conversion between fractions and
  percentages. Nothing is assumed of them.
\<close>

record 'f float_ops =
  flt_zero :: 'f
  flt_hundred :: 'f
  flt_milli :: 'f
  flt_of_size :: "nat \<Rightarrow> 'f"
  flt_to_size :: "'f \<Rightarrow> nat"
  flt_add :: "'f \<Rightarrow> 'f \<Rightarrow> 'f"
  flt_mul :: "'f \<Rightarrow> 'f \<Rightarrow> 'f"
  flt_div :: "'f \<Rightarrow> 'f \<Rightarrow> 'f"
  flt_atof :: "string \<Rightarrow> 'f"
  flt_psprintf :: "'f \<Rightarrow> string"

text \<open>The trivial instance, in which every number is the same.\<close>

definition float_unit :: "unit float_ops" where
  "float_unit =
     \<lparr>flt_zero = (), flt_hundred = (), flt_milli = (), flt_of_size = (\<lambda>_. ()), flt_to_size = (\<lambda>_. 0),
      flt_add = (\<lambda>_ _. ()), flt_mul = (\<lambda>_ _. ()), flt_div = (\<lambda>_ _. ()), flt_atof = (\<lambda>_. ()),
      flt_psprintf = (\<lambda>_. ''0.000000'')\<rparr>"

definition apt_float_value_parse :: "'f float_ops \<Rightarrow> apt_str \<Rightarrow> 'f" where
  "apt_float_value_parse fo str = (if str = [] then flt_zero fo else flt_atof fo str)"

text \<open>Trailing zeros are removed from the end, except one that follows the point; the argument is reversed.\<close>

fun strip_zeros :: "string \<Rightarrow> string" where
  "strip_zeros (c # d # cs) = (if c = CHR ''0'' \<and> d \<noteq> CHR ''.'' then strip_zeros (d # cs) else c # d # cs)"
| "strip_zeros cs = cs"

definition apt_float_value_generate :: "'f float_ops \<Rightarrow> 'f \<Rightarrow> apt_str" where
  "apt_float_value_generate fo v = rev (strip_zeros (rev (flt_psprintf fo v)))"

section \<open>Values read into a field\<close>

text \<open>An enumeration is a 32-bit unsigned integer: a size stored into it keeps its low 32 bits.\<close>

definition enum_of_size :: "nat \<Rightarrow> nat" where
  "enum_of_size v = v mod 2 ^ 32"

definition boolean_value_read :: "apt_str \<Rightarrow> bool \<Rightarrow> bool" where
  "boolean_value_read val old = (case apt_boolean_value_parse val of None \<Rightarrow> old | Some b \<Rightarrow> b)"

lemma boolean_value_read_generate [simp]: "boolean_value_read (apt_boolean_value_generate b) old = b"
  by (simp add: boolean_value_read_def boolean_value_roundtrip)

lemma completion_cause_text:
  assumes "apt_completion_cause_generate table n cause = Some v" "n \<le> 1000"
  shows "enum_of_size (apt_size_value_parse v) = cause" and "v \<noteq> []"
proof -
  from assms(1) obtain name where name: "apt_string_table_str_get table n cause = Some name"
    by (auto simp: apt_completion_cause_generate_def split: option.splits)
  then have lt: "cause < 1000"
    using assms(2) by (auto simp: apt_string_table_str_get_def split: if_splits)
  obtain ds where ds: "apt_completion_cause_generate table n cause = Some (ds @ APT_TOKEN_SP # name)"
      "apt_size_value_parse (ds @ APT_TOKEN_SP # name) = cause"
    by (rule completion_cause_chars [OF name lt])
  then have v: "v = ds @ APT_TOKEN_SP # name" using assms(1) by simp
  show "enum_of_size (apt_size_value_parse v) = cause" using ds(2) lt unfolding v enum_of_size_def by simp
  show "v \<noteq> []" unfolding v by simp
qed

section \<open>Fields on the wire\<close>

text \<open>
  The contract of the table of functions of a header, for the fields that \<open>wire_ok\<close> admits: a name of the table is found
  at its own place, and reading the text that was generated for a field stores what duplicating the field stores. The
  locale is about the three functions of a table that have to fit together, and its lemma about the accessor operations
  that call them.
\<close>

definition table_names_distinct :: "apt_str_table_item list \<Rightarrow> nat \<Rightarrow> bool" where
  "table_names_distinct table n \<longleftrightarrow>
     length table = n \<and> list_all (\<lambda>item. item_value item \<noteq> []) table \<and>
     distinct (map (\<lambda>item. map tolower (item_value item)) table)"

lemma table_names_distinctD:
  assumes "table_names_distinct table n" "k < n"
  obtains name where "apt_string_table_str_get table n k = Some name" "name \<noteq> []"
    "apt_string_table_id_find table n name = k"
proof
  let ?name = "item_value (table ! k)" and ?f = "\<lambda>item. map tolower (item_value item)"
  have len: "length table = n" and dist: "distinct (map ?f table)" and ne: "?name \<noteq> []"
    using assms by (auto simp: table_names_distinct_def list_all_length)
  show "apt_string_table_str_get table n k = Some ?name" using assms(2) by (simp add: apt_string_table_str_get_def)
  show "?name \<noteq> []" by (rule ne)
  have lt: "apt_string_table_id_find table n ?name < n"
    using ne assms(2) table_find_less_iff [of table n ?name] by blast
  from table_find_match [OF this] dist len assms(2) lt
  show "apt_string_table_id_find table n ?name = k"
    by (auto simp: distinct_conv_nth) 
qed

locale header_contract =
  fixes vt :: "'d mrcp_header_vtable"
    and wire_ok :: "'d \<Rightarrow> nat \<Rightarrow> bool"
  assumes names: "table_names_distinct (field_table vt) (field_count vt)"
    and wire: "k < field_count vt \<Longrightarrow> wire_ok s k \<Longrightarrow> generate_field vt s k = Some (True, val) \<Longrightarrow> val \<noteq> [] \<Longrightarrow>
      \<exists>d'. parse_field vt d k val = (True, d') \<and> duplicate_field vt (Some d) (Some s) k val = (True, Some d')"
begin

lemma generated_name:
  assumes "k < field_count vt" "acc_vtable src = Some vt" "mrcp_header_field_value_generate src k b = Some (Some f)"
  shows "apt_string_table_id_find (field_table vt) (field_count vt) (hf_name f) = k" and "hf_name f \<noteq> []"
proof -
  from names assms(1) obtain name where "apt_string_table_str_get (field_table vt) (field_count vt) k = Some name"
      "name \<noteq> []" "apt_string_table_id_find (field_table vt) (field_count vt) name = k"
    by (rule table_names_distinctD)
  with assms(2,3) show "apt_string_table_id_find (field_table vt) (field_count vt) (hf_name f) = k" "hf_name f \<noteq> []"
    by (auto simp: mrcp_header_field_value_generate_def Let_def split: if_splits bind_splits)
qed

lemma generated_value:
  assumes "acc_vtable src = Some vt" "acc_data src = Some s" "mrcp_header_field_value_generate src k False = Some (Some f)"
  shows "generate_field vt s k = Some (True, hf_value f)"
  using assms by (auto simp: mrcp_header_field_value_generate_def Let_def split: if_splits bind_splits)

lemma field_wire:
  assumes "acc_vtable src = Some vt" "acc_data src = Some s" "acc_vtable acc = Some vt" "acc_data acc = Some d"
    and "k < field_count vt" "wire_ok s k" "mrcp_header_field_value_generate src k False = Some (Some f)"
  defines "acc' \<equiv> snd (mrcp_header_field_value_duplicate acc src k (hf_value f))"
  shows "mrcp_header_field_value_parse acc (f\<lparr>hf_id := i\<rparr>) = Some (True, acc', f\<lparr>hf_id := k\<rparr>)"
    and "acc_vtable acc' = Some vt" and "acc_data acc' \<noteq> None"
proof -
  have id: "apt_string_table_id_find (field_table vt) (field_count vt) (hf_name f) = k"
    by (rule generated_name(1) [OF assms(5,1,7)])
  have "mrcp_header_field_value_parse acc (f\<lparr>hf_id := i\<rparr>) = Some (True, acc', f\<lparr>hf_id := k\<rparr>) \<and>
      acc_vtable acc' = Some vt \<and> acc_data acc' \<noteq> None"
  proof (cases "hf_value f = []")
    case True
    with assms(3-5) id show ?thesis
      by (simp add: mrcp_header_field_value_parse_def mrcp_header_field_value_duplicate_def acc'_def Let_def)
  next
    case False
    then obtain d' where "parse_field vt d k (hf_value f) = (True, d')"
        "duplicate_field vt (Some d) (Some s) k (hf_value f) = (True, Some d')"
      using wire [OF assms(5,6) generated_value [OF assms(1,2,7)]] by blast
    with False assms(2-5) id show ?thesis
      by (simp add: mrcp_header_field_value_parse_def mrcp_header_field_value_duplicate_def acc'_def Let_def)
  qed
  then show "mrcp_header_field_value_parse acc (f\<lparr>hf_id := i\<rparr>) = Some (True, acc', f\<lparr>hf_id := k\<rparr>)"
    "acc_vtable acc' = Some vt" "acc_data acc' \<noteq> None"
    by simp_all
qed

end

named_theorems wire_simps \<open>values of a field that survive generation and parsing\<close>

lemma completion_cause_wire [wire_simps]:
  assumes "n \<le> 1000" "(case apt_completion_cause_generate table n cause of None \<Rightarrow> [] | Some v \<Rightarrow> v) \<noteq> []"
  shows "enum_of_size (apt_size_value_parse (case apt_completion_cause_generate table n cause of None \<Rightarrow> [] | Some v \<Rightarrow> v)) = cause"
  using assms by (auto simp: completion_cause_text(1) split: option.split)

declare size_value_roundtrip [wire_simps]

end
