(* ===== verification/Mrcp_State_Machine.thy ===== *)
theory Mrcp_State_Machine
  imports Mrcp_Resource
begin

text \<open>
  The base of the state machines of the MRCP engine (\<open>libs/mrcp-engine/include/mrcp_state_machine.h\<close>) and the code the
  machines of the four resources share: the response to a request that is not valid, the completion cause of an event,
  the list of active request identifiers of a response, and the selective removal of pending requests.

  A state machine reports through two callbacks of the server session. They are represented by the result they return,
  and each call is recorded in a log, in the order of the calls. A callback is assumed not to change the state machine
  itself. Calling a callback that is not set, and following a NULL pointer, is the fault \<^const>\<open>None\<close>. Messages are values:
  no handler changes a message after it has stored or dispatched it.
\<close>

section \<open>The base\<close>

datatype 'm sm_action = Dispatch 'm | Deactivated

record 'm mrcp_state_machine =
  active :: bool
  on_dispatch :: "('m \<Rightarrow> bool) option"
  on_deactivate :: "bool option"
  sm_log :: "'m sm_action list"

definition mrcp_state_machine_init :: "'m mrcp_state_machine" where
  "mrcp_state_machine_init = \<lparr>active = True, on_dispatch = None, on_deactivate = None, sm_log = []\<rparr>"

text \<open>The virtual functions are arguments: a machine that has none answers \<open>FALSE\<close>.\<close>

definition mrcp_state_machine_update ::
  "(('m, 'z) mrcp_state_machine_scheme \<Rightarrow> 'm \<Rightarrow> (bool \<times> ('m, 'z) mrcp_state_machine_scheme) option) option
    \<Rightarrow> ('m, 'z) mrcp_state_machine_scheme \<Rightarrow> 'm \<Rightarrow> (bool \<times> ('m, 'z) mrcp_state_machine_scheme) option"
where
  "mrcp_state_machine_update f sm m = (case f of None \<Rightarrow> Some (False, sm) | Some update \<Rightarrow> update sm m)"

definition mrcp_state_machine_deactivate ::
  "(('m, 'z) mrcp_state_machine_scheme \<Rightarrow> (bool \<times> ('m, 'z) mrcp_state_machine_scheme) option) option
    \<Rightarrow> ('m, 'z) mrcp_state_machine_scheme \<Rightarrow> (bool \<times> ('m, 'z) mrcp_state_machine_scheme) option"
where
  "mrcp_state_machine_deactivate f sm =
     (case f of None \<Rightarrow> Some (False, sm) | Some deactivate \<Rightarrow> deactivate (sm\<lparr>active := False\<rparr>))"

definition call_on_dispatch ::
  "'m \<Rightarrow> ('m, 'z) mrcp_state_machine_scheme \<Rightarrow> (bool \<times> ('m, 'z) mrcp_state_machine_scheme) option"
where
  "call_on_dispatch m sm = do { f \<leftarrow> on_dispatch sm; Some (f m, sm\<lparr>sm_log := sm_log sm @ [Dispatch m]\<rparr>) }"

definition call_on_deactivate ::
  "('m, 'z) mrcp_state_machine_scheme \<Rightarrow> (bool \<times> ('m, 'z) mrcp_state_machine_scheme) option"
where
  "call_on_deactivate sm = do { b \<leftarrow> on_deactivate sm; Some (b, sm\<lparr>sm_log := sm_log sm @ [Deactivated]\<rparr>) }"

section \<open>Shared code of the handlers\<close>

definition method_not_valid_response :: "apr_fmt \<Rightarrow> 'r mrcp_message \<Rightarrow> 'r mrcp_message" where
  "method_not_valid_response apr m =
     (let r = mrcp_response_create apr 0 (Some m)
      in r\<lparr>start_line := (start_line r)\<lparr>status_code := MRCP_STATUS_CODE_METHOD_NOT_VALID\<rparr>\<rparr>)"

definition request_state_set :: "mrcp_request_state_e \<Rightarrow> 'r mrcp_message \<Rightarrow> 'r mrcp_message" where
  "request_state_set st m = m\<lparr>start_line := (start_line m)\<lparr>request_state := st\<rparr>\<rparr>"

text \<open>The completion cause, with identifier \<open>k\<close>, is stored into the header unless the message has one.\<close>

definition completion_cause_ensure :: "nat \<Rightarrow> ('r \<Rightarrow> 'r) \<Rightarrow> 'r mrcp_message \<Rightarrow> 'r mrcp_message option" where
  "completion_cause_ensure k store m =
     (if mrcp_resource_header_property_check m k then Some m
      else
        (case mrcp_resource_header_prepare m of
           (None, _) \<Rightarrow> None
         | (Some d, m) \<Rightarrow> map_option snd (mrcp_resource_header_property_add (resource_header_store (store d) m) k)))"

definition active_id_append :: "mrcp_request_id \<Rightarrow> 'r mrcp_message \<Rightarrow> 'r mrcp_message option" where
  "active_id_append rid m =
     (case mrcp_generic_header_prepare m of
        (None, _) \<Rightarrow> None
      | (Some d, m) \<Rightarrow>
          map_option snd
            (mrcp_generic_header_property_add (generic_header_store (snd (active_request_id_list_append d rid)) m)
               GENERIC_HEADER_ACTIVE_REQUEST_ID_LIST))"

text \<open>The identifiers a STOP request selects, none for a STOP request that is not selective.\<close>

definition stop_id_list :: "'r mrcp_message \<Rightarrow> mrcp_request_id list option" where
  "stop_id_list m =
     (case mrcp_generic_header_get m of
        None \<Rightarrow> None
      | Some d \<Rightarrow>
          if mrcp_generic_header_property_check m GENERIC_HEADER_ACTIVE_REQUEST_ID_LIST \<and> active_request_id_list d \<noteq> []
          then Some (active_request_id_list d) else None)"

definition stop_selects :: "'r mrcp_message \<Rightarrow> mrcp_request_id \<Rightarrow> bool" where
  "stop_selects m rid = (case stop_id_list m of None \<Rightarrow> True | Some ids \<Rightarrow> request_id_in ids rid)"

fun pending_loop ::
  "'r mrcp_message \<Rightarrow> 'r mrcp_message list \<Rightarrow> mrcp_generic_header \<Rightarrow> 'r mrcp_message list \<times> mrcp_generic_header"
where
  "pending_loop req [] d = ([], d)"
| "pending_loop req (p # queue) d =
     (if stop_selects req (request_id (start_line p))
      then pending_loop req queue (snd (active_request_id_list_append d (request_id (start_line p))))
      else (let (rest, d) = pending_loop req queue d in (p # rest, d)))"

definition pending_requests_remove ::
  "'r mrcp_message \<Rightarrow> 'r mrcp_message \<Rightarrow> 'r mrcp_message list \<Rightarrow> ('r mrcp_message list \<times> 'r mrcp_message) option"
where
  "pending_requests_remove req resp queue =
     (case mrcp_generic_header_prepare resp of
        (None, _) \<Rightarrow> None
      | (Some d, resp) \<Rightarrow>
          (let (queue, d) = pending_loop req queue d;
               resp = generic_header_store d resp
           in if active_request_id_list d \<noteq> [] then
                map_option (\<lambda>(_, resp). (queue, resp))
                  (mrcp_generic_header_property_add resp GENERIC_HEADER_ACTIVE_REQUEST_ID_LIST)
              else Some (queue, resp)))"

text \<open>The internal STOP request a machine creates from the request in progress when it is deactivated.\<close>

definition deactivate_request :: "apr_fmt \<Rightarrow> nat \<Rightarrow> 'r mrcp_message \<Rightarrow> 'r mrcp_message" where
  "deactivate_request apr stop source =
     (let m = mrcp_request_create apr (resource source) (version (start_line source)) stop
      in m\<lparr>channel_id := channel_id source,
           start_line := (start_line m)\<lparr>request_id := request_id (start_line source) + 1, method_name := ''DEACTIVATE''\<rparr>,
           header := header source\<rparr>)"

text \<open>An entry of a table of methods; a table has NULL where no handler is listed.\<close>

definition method_lookup :: "'h list \<Rightarrow> nat \<Rightarrow> 'h option" where
  "method_lookup table k = (if k < length table then Some (table ! k) else None)"

section \<open>Runs\<close>

text \<open>What a server session does with a state machine: hand it a message, or deactivate it.\<close>

datatype 'm sm_input = Update 'm | Deactivate

inductive sm_reachable ::
  "('s \<Rightarrow> 'i \<Rightarrow> (bool \<times> 's) option) \<Rightarrow> ('s \<Rightarrow> 'i \<Rightarrow> bool) \<Rightarrow> 's \<Rightarrow> 's \<Rightarrow> bool"
  for step allowed
where
  start: "sm_reachable step allowed s s"
| next_input: "sm_reachable step allowed s t \<Longrightarrow> allowed t i \<Longrightarrow> step t i = Some (b, u) \<Longrightarrow> sm_reachable step allowed s u"

section \<open>Well-formed messages\<close>

text \<open>
  A message has the header tables it gets when it is created for a resource: the generic one and one of a set of tables
  of the resource.
\<close>

definition msg_ok :: "apr_fmt \<Rightarrow> 'r mrcp_header_vtable set \<Rightarrow> 'r mrcp_message \<Rightarrow> bool" where
  "msg_ok apr vts m \<longleftrightarrow>
     acc_vtable (generic_header_accessor (header m)) = Some (mrcp_generic_header_vtable_get apr) \<and>
     (\<exists>vt \<in> vts. acc_vtable (resource_header_accessor (header m)) = Some vt) \<and>
     (\<exists>res. resource m = Some res \<and> (\<forall>v. \<exists>vt \<in> vts. get_resource_header_vtable res v = Some vt))"

named_theorems msg_simps \<open>unfolding of the accessors of a message\<close>

declare mrcp_generic_header_prepare_def [msg_simps] mrcp_resource_header_prepare_def [msg_simps]
  generic_header_store_def [msg_simps] resource_header_store_def [msg_simps] mrcp_header_allocate_def [msg_simps]
  mrcp_generic_header_property_add_def [msg_simps] mrcp_resource_header_property_add_def [msg_simps]
  mrcp_header_field_value_generate_def [msg_simps] section_field_append_def [msg_simps]

lemma response_create_ok:
  assumes "msg_ok apr vts m"
  shows "msg_ok apr vts (mrcp_response_create apr g (Some m))"
    and "message_type (start_line (mrcp_response_create apr g (Some m))) = MRCP_MESSAGE_TYPE_RESPONSE"
    and "request_id (start_line (mrcp_response_create apr g (Some m))) = request_id (start_line m)"
    and "method_id (start_line (mrcp_response_create apr g (Some m))) = method_id (start_line m)"
proof -
  obtain res vt where res: "resource m = Some res" "get_resource_header_vtable res (version (start_line m)) = Some vt" "vt \<in> vts"
      "\<forall>v. \<exists>vt \<in> vts. get_resource_header_vtable res v = Some vt"
    using assms unfolding msg_ok_def by metis
  then show "msg_ok apr vts (mrcp_response_create apr g (Some m))"
    and "message_type (start_line (mrcp_response_create apr g (Some m))) = MRCP_MESSAGE_TYPE_RESPONSE"
    and "request_id (start_line (mrcp_response_create apr g (Some m))) = request_id (start_line m)"
    and "method_id (start_line (mrcp_response_create apr g (Some m))) = method_id (start_line m)"
    by (auto simp: mrcp_response_create_def mrcp_message_create_def mrcp_message_resource_set_by_id_def Let_def
      msg_ok_def mrcp_message_header_data_alloc_def mrcp_header_allocate_def split: option.split)
qed

lemma request_create_ok:
  assumes "\<And>v. \<exists>vt \<in> vts. get_resource_header_vtable res v = Some vt"
  shows "msg_ok apr vts (mrcp_request_create apr (Some res) v k)"
proof -
  obtain vt where vt: "vt \<in> vts" "get_resource_header_vtable res v = Some vt" using assms by blast
  then have "msg_ok apr vts m" if "m = snd (mrcp_message_resource_set_by_id apr m0 (Some res))" "version (start_line m0) = v" for m m0
    unfolding that(1) using that(2) assms
    by (auto simp: mrcp_message_resource_set_by_id_def Let_def msg_ok_def mrcp_message_header_data_alloc_def
      mrcp_header_allocate_def split: option.split mrcp_message_type_e.split)
  then show ?thesis by (simp add: mrcp_request_create_def Let_def)
qed

lemma msg_ok_start_line [simp]: "msg_ok apr vts (m\<lparr>start_line := sl\<rparr>) = msg_ok apr vts m"
  by (simp add: msg_ok_def)

lemma deactivate_request_type [simp]:
  "message_type (start_line (deactivate_request apr k source)) = MRCP_MESSAGE_TYPE_REQUEST"
  by (auto simp: deactivate_request_def mrcp_request_create_def mrcp_message_resource_set_by_id_def Let_def split: option.split)

lemma generic_prepare_ok:
  assumes "msg_ok apr vts m"
  obtains d m' where "mrcp_generic_header_prepare m = (Some d, m')" "msg_ok apr vts m'"
    "start_line m' = start_line m" "header_section (header m') = header_section (header m)"
  using assms by (cases "acc_data (generic_header_accessor (header m))")
    (auto simp: msg_simps msg_ok_def mrcp_generic_header_vtable_get_def)

lemma generic_store_ok [simp]:
  "msg_ok apr vts (generic_header_store d m) \<longleftrightarrow> msg_ok apr vts m"
  "start_line (generic_header_store d m) = start_line m"
  "header_section (header (generic_header_store d m)) = header_section (header m)"
  by (auto simp: generic_header_store_def msg_ok_def)

lemma active_ids_add_ok:
  assumes "msg_ok apr vts m"
  obtains b m' where "mrcp_generic_header_property_add (generic_header_store d m) GENERIC_HEADER_ACTIVE_REQUEST_ID_LIST = Some (b, m')"
    "msg_ok apr vts m'" "start_line m' = start_line m"
proof -
  let ?f = "apt_header_field_alloc\<lparr>hf_name := ''Active-Request-Id-List'',
    hf_value := mrcp_request_id_list_generate apr (active_request_id_list d), hf_id := 0\<rparr>"
  obtain b sec where sec: "apt_header_section_field_add (fresh_addr (header_section (header m)), ?f) (header_section (header m)) = (b, sec)"
    by fastforce
  have "mrcp_generic_header_property_add (generic_header_store d m) GENERIC_HEADER_ACTIVE_REQUEST_ID_LIST =
      Some (b, (generic_header_store d m)\<lparr>header := (header (generic_header_store d m))\<lparr>header_section := sec\<rparr>\<rparr>)"
    using assms sec by (simp add: msg_simps msg_ok_def mrcp_generic_header_vtable_get_def apt_string_table_str_get_def
      GENERIC_HEADER_COUNT_def GENERIC_HEADER_ACTIVE_REQUEST_ID_LIST_def mrcp_generic_header_generate_def
      generic_header_string_table_def)
  then show thesis
    by (rule that) (use assms in \<open>auto simp: msg_ok_def generic_header_store_def\<close>)
qed

lemma active_id_append_ok:
  assumes "msg_ok apr vts m"
  obtains m' where "active_id_append rid m = Some m'" "msg_ok apr vts m'" "start_line m' = start_line m"
proof -
  obtain d m1 where m1: "mrcp_generic_header_prepare m = (Some d, m1)" "msg_ok apr vts m1" "start_line m1 = start_line m"
    by (rule generic_prepare_ok [OF assms])
  obtain b m' where "mrcp_generic_header_property_add
      (generic_header_store (snd (active_request_id_list_append d rid)) m1) GENERIC_HEADER_ACTIVE_REQUEST_ID_LIST = Some (b, m')"
      "msg_ok apr vts m'" "start_line m' = start_line m1"
    by (rule active_ids_add_ok [OF m1(2)])
  then show thesis using m1 by (intro that [of m']) (simp_all add: active_id_append_def)
qed

lemma pending_loop_queue: "fst (pending_loop req q d) = filter (\<lambda>p. \<not> stop_selects req (request_id (start_line p))) q"
  by (induction req q d rule: pending_loop.induct) (simp_all add: case_prod_unfold Let_def)

lemma pending_requests_remove_ok:
  assumes "msg_ok apr vts resp"
  obtains resp' where
    "pending_requests_remove req resp q =
       Some (filter (\<lambda>p. \<not> stop_selects req (request_id (start_line p))) q, resp')"
    "msg_ok apr vts resp'" "start_line resp' = start_line resp"
proof -
  obtain d m1 where m1: "mrcp_generic_header_prepare resp = (Some d, m1)" "msg_ok apr vts m1" "start_line m1 = start_line resp"
    by (rule generic_prepare_ok [OF assms])
  obtain q1 d1 where q1: "pending_loop req q d = (q1, d1)" by fastforce
  then have q1_eq: "q1 = filter (\<lambda>p. \<not> stop_selects req (request_id (start_line p))) q"
    using pending_loop_queue [of req q d] by simp
  obtain b m' where m': "mrcp_generic_header_property_add (generic_header_store d1 m1) GENERIC_HEADER_ACTIVE_REQUEST_ID_LIST = Some (b, m')"
      "msg_ok apr vts m'" "start_line m' = start_line m1"
    by (rule active_ids_add_ok [OF m1(2)])
  show thesis
  proof (cases "active_request_id_list d1 = []")
    case True
    then show thesis
      using m1 q1 q1_eq by (intro that [of "generic_header_store d1 m1"]) (simp_all add: pending_requests_remove_def)
  next
    case False
    then show thesis
      using m1 q1 q1_eq m' by (intro that [of m']) (simp_all add: pending_requests_remove_def)
  qed
qed

lemma section_field_append_ok [simp]:
  "msg_ok apr vts (snd (section_field_append f m)) \<longleftrightarrow> msg_ok apr vts m"
  "start_line (snd (section_field_append f m)) = start_line m"
  by (simp_all add: section_field_append_def msg_ok_def Let_def case_prod_unfold)

section \<open>The contract with the header of the resource\<close>

text \<open>The header of a resource can be allocated, and its completion cause can always be printed.\<close>

locale cause_header =
  fixes vts :: "'r mrcp_header_vtable set" and cause :: nat
  assumes allocates: "vt \<in> vts \<Longrightarrow> \<exists>d. allocate vt = Some d"
    and prints: "vt \<in> vts \<Longrightarrow> \<exists>r. generate_field vt d cause = Some r"
begin

lemma cause_ensure_ok:
  assumes "msg_ok apr vts m"
  obtains m' where "completion_cause_ensure cause store m = Some m'" "msg_ok apr vts m'" "start_line m' = start_line m"
proof (cases "mrcp_resource_header_property_check m cause")
  case True
  then show thesis using assms by (intro that [of m]) (simp_all add: completion_cause_ensure_def)
next
  case False
  obtain vt where vt: "vt \<in> vts" "acc_vtable (resource_header_accessor (header m)) = Some vt"
    using assms by (auto simp: msg_ok_def)
  obtain d m1 where m1: "mrcp_resource_header_prepare m = (Some d, m1)" "msg_ok apr vts m1" "start_line m1 = start_line m"
      "acc_vtable (resource_header_accessor (header m1)) = Some vt"
    using assms vt allocates [OF vt(1)] by (cases "acc_data (resource_header_accessor (header m))") (auto simp: msg_simps msg_ok_def)
  obtain b v where gen: "generate_field vt (store d) cause = Some (b, v)"
    using prints [OF vt(1), of "store d"] by auto
  let ?m = "resource_header_store (store d) m1"
  obtain f where "mrcp_resource_header_property_add ?m cause =
      Some (if b then section_field_append f ?m else (False, ?m))"
    using m1(4) gen by (cases b) (auto simp: mrcp_resource_header_property_add_def mrcp_header_field_value_generate_def
      resource_header_store_def Let_def split: option.splits)
  moreover have "msg_ok apr vts ?m" "start_line ?m = start_line m"
    using m1(2,3) by (auto simp: msg_ok_def resource_header_store_def)
  ultimately show thesis
    using m1(1) False by (intro that [of "snd (if b then section_field_append f ?m else (False, ?m))"])
      (simp_all add: completion_cause_ensure_def)
qed

end

section \<open>The effect of a step\<close>

text \<open>
  A step keeps the callbacks and whether the machine is active, and only appends to the log. When the machine is not
  active, it reports nothing to the client: it only sends requests to the engine, or reports that it is deactivated.
\<close>

fun quiet :: "'r mrcp_message sm_action \<Rightarrow> bool" where
  "quiet (Dispatch m) \<longleftrightarrow> message_type (start_line m) = MRCP_MESSAGE_TYPE_REQUEST"
| "quiet Deactivated \<longleftrightarrow> True"

definition sm_effect ::
  "('r mrcp_message, 'z) mrcp_state_machine_scheme \<Rightarrow> ('r mrcp_message, 'z) mrcp_state_machine_scheme \<Rightarrow> bool"
where
  "sm_effect sm sm' \<longleftrightarrow>
     active sm' = active sm \<and> on_dispatch sm' = on_dispatch sm \<and> on_deactivate sm' = on_deactivate sm \<and>
     (\<exists>new. sm_log sm' = sm_log sm @ new \<and> (\<not> active sm \<longrightarrow> (\<forall>e \<in> set new. quiet e)))"

lemma sm_effect_refl [intro!, simp]: "sm_effect sm sm"
  by (simp add: sm_effect_def)

lemma sm_effect_trans: "sm_effect a b \<Longrightarrow> sm_effect b c \<Longrightarrow> sm_effect a c"
  by (auto simp: sm_effect_def)

lemma sm_effect_log:
  assumes "sm_effect sm0 sm" "active sm \<or> quiet e"
  shows "sm_effect sm0 (sm\<lparr>sm_log := sm_log sm @ [e]\<rparr>)"
  using assms by (auto simp: sm_effect_def)

lemma call_on_dispatch_Some:
  "on_dispatch sm \<noteq> None \<Longrightarrow> \<exists>b. call_on_dispatch m sm = Some (b, sm\<lparr>sm_log := sm_log sm @ [Dispatch m]\<rparr>)"
  by (auto simp: call_on_dispatch_def)

lemma call_on_deactivate_Some:
  "on_deactivate sm \<noteq> None \<Longrightarrow> \<exists>b. call_on_deactivate sm = Some (b, sm\<lparr>sm_log := sm_log sm @ [Deactivated]\<rparr>)"
  by (auto simp: call_on_deactivate_def)

text \<open>The interface of a machine: every allowed input is processed without a fault and keeps the invariant.\<close>

locale state_machine =
  fixes step :: "('r mrcp_message, 'z) mrcp_state_machine_scheme \<Rightarrow> 'r mrcp_message sm_input
      \<Rightarrow> (bool \<times> ('r mrcp_message, 'z) mrcp_state_machine_scheme) option"
    and allowed :: "('r mrcp_message, 'z) mrcp_state_machine_scheme \<Rightarrow> 'r mrcp_message sm_input \<Rightarrow> bool"
    and invar :: "('r mrcp_message, 'z) mrcp_state_machine_scheme \<Rightarrow> bool"
  assumes progress: "invar sm \<Longrightarrow> allowed sm i \<Longrightarrow>
      \<exists>b sm'. step sm i = Some (b, sm') \<and> invar sm' \<and>
        sm_effect (case i of Update m \<Rightarrow> sm | Deactivate \<Rightarrow> sm\<lparr>active := False\<rparr>) sm'"
begin

lemma reachable_invar: "sm_reachable step allowed s t \<Longrightarrow> invar s \<Longrightarrow> invar t"
proof (induction rule: sm_reachable.induct)
  case (next_input s t i b u)
  then show ?case using progress [of t i] by auto
qed

lemma no_fault:
  assumes "sm_reachable step allowed s t" "invar s" "allowed t i"
  shows "step t i \<noteq> None"
  using progress [OF reachable_invar [OF assms(1,2)] assms(3)] by auto

lemma step_inactive:
  assumes "invar t" "allowed t i" "step t i = Some (b, u)" "\<not> active t"
  shows "\<not> active u \<and> (\<exists>new. sm_log u = sm_log t @ new \<and> (\<forall>e \<in> set new. quiet e))"
  using progress [OF assms(1,2)] assms(3,4) by (cases i) (auto simp: sm_effect_def)

lemma silent_when_inactive:
  assumes "sm_reachable step allowed s t" "invar s" "\<not> active s"
  shows "\<not> active t \<and> (\<exists>new. sm_log t = sm_log s @ new \<and> (\<forall>e \<in> set new. quiet e))"
  using assms
proof (induction rule: sm_reachable.induct)
  case (next_input s t i b u)
  then have "\<not> active t" and "\<exists>new. sm_log t = sm_log s @ new \<and> (\<forall>e \<in> set new. quiet e)" and "invar t"
    using reachable_invar by auto
  then show ?case using step_inactive [OF _ next_input(2,3)] by fastforce
qed simp

end

section \<open>The list of active request identifiers as text\<close>

text \<open>The names and values of the header fields of a message, in the order in which they are printed.\<close>

definition field_texts :: "'r mrcp_message \<Rightarrow> (apt_str \<times> apt_str) list" where
  "field_texts m = map (\<lambda>f. (hf_name (snd f), hf_value (snd f))) (hs_ring (header_section (header m)))"

text \<open>A field is only added to the section when it has none with this identifier, whatever its value.\<close>

lemma active_ids_text:
  assumes ok: "msg_ok apr vts m"
    and add: "mrcp_generic_header_property_add (generic_header_store d m) GENERIC_HEADER_ACTIVE_REQUEST_ID_LIST = Some (b, m')"
  shows "mrcp_generic_header_property_check m GENERIC_HEADER_ACTIVE_REQUEST_ID_LIST \<Longrightarrow>
      header_section (header m') = header_section (header m)"
    and "\<not> mrcp_generic_header_property_check m GENERIC_HEADER_ACTIVE_REQUEST_ID_LIST \<Longrightarrow>
      hs_arr (header_section (header m)) \<noteq> [] \<Longrightarrow>
      mrcp_generic_header_property_check m' GENERIC_HEADER_ACTIVE_REQUEST_ID_LIST \<and>
      field_texts m' = field_texts m @ [(''Active-Request-Id-List'', mrcp_request_id_list_generate apr (active_request_id_list d))]"
    and "mrcp_generic_header_get m' = Some d"
proof -
  let ?f = "apt_header_field_alloc\<lparr>hf_name := ''Active-Request-Id-List'',
    hf_value := mrcp_request_id_list_generate apr (active_request_id_list d), hf_id := 0\<rparr>"
  let ?sec = "header_section (header m)"
  obtain b1 sec where sec: "apt_header_section_field_add (fresh_addr ?sec, ?f) ?sec = (b1, sec)"
    by fastforce
  have m': "m' = (generic_header_store d m)\<lparr>header := (header (generic_header_store d m))\<lparr>header_section := sec\<rparr>\<rparr>"
    using ok add sec by (simp add: msg_simps msg_ok_def mrcp_generic_header_vtable_get_def apt_string_table_str_get_def
      GENERIC_HEADER_COUNT_def GENERIC_HEADER_ACTIVE_REQUEST_ID_LIST_def mrcp_generic_header_generate_def
      generic_header_string_table_def)
  show "header_section (header m') = ?sec" if "mrcp_generic_header_property_check m GENERIC_HEADER_ACTIVE_REQUEST_ID_LIST"
    using that sec unfolding m' by (auto simp: mrcp_generic_header_property_check_def apt_header_section_field_check_def
      GENERIC_HEADER_ACTIVE_REQUEST_ID_LIST_def apt_header_section_field_add_def split: if_splits)
  show "mrcp_generic_header_property_check m' GENERIC_HEADER_ACTIVE_REQUEST_ID_LIST \<and>
      field_texts m' = field_texts m @ [(''Active-Request-Id-List'', mrcp_request_id_list_generate apr (active_request_id_list d))]"
    if "\<not> mrcp_generic_header_property_check m GENERIC_HEADER_ACTIVE_REQUEST_ID_LIST" "hs_arr ?sec \<noteq> []"
    using that sec unfolding m' by (auto simp: mrcp_generic_header_property_check_def apt_header_section_field_check_def
      GENERIC_HEADER_ACTIVE_REQUEST_ID_LIST_def apt_header_section_field_add_def field_texts_def split: if_splits)
  show "mrcp_generic_header_get m' = Some d"
    unfolding m' by (simp add: mrcp_generic_header_get_def generic_header_store_def)
qed

lemma active_id_append_text:
  assumes ok: "msg_ok apr vts m" and app: "active_id_append rid m = Some m'"
    and free: "\<not> mrcp_generic_header_property_check m GENERIC_HEADER_ACTIVE_REQUEST_ID_LIST" "hs_arr (header_section (header m)) \<noteq> []"
    and get: "mrcp_generic_header_get m = Some d" and empty: "active_request_id_list d = []"
  shows "mrcp_generic_header_property_check m' GENERIC_HEADER_ACTIVE_REQUEST_ID_LIST \<and>
      field_texts m' = field_texts m @ [(''Active-Request-Id-List'', mrcp_request_id_list_generate apr [rid])]"
    and "map_option active_request_id_list (mrcp_generic_header_get m') = Some [rid]"
proof -
  let ?d = "d\<lparr>active_request_id_list := [rid]\<rparr>"
  have "mrcp_generic_header_prepare m = (Some d, m)"
    using get by (simp add: msg_simps mrcp_generic_header_get_def)
  then obtain b where add: "mrcp_generic_header_property_add (generic_header_store ?d m)
      GENERIC_HEADER_ACTIVE_REQUEST_ID_LIST = Some (b, m')"
    using app empty by (auto simp: active_id_append_def active_request_id_list_append_def MAX_ACTIVE_REQUEST_ID_COUNT_def)
  show "mrcp_generic_header_property_check m' GENERIC_HEADER_ACTIVE_REQUEST_ID_LIST \<and>
      field_texts m' = field_texts m @ [(''Active-Request-Id-List'', mrcp_request_id_list_generate apr [rid])]"
    using active_ids_text(2) [OF ok add free] by simp
  show "map_option active_request_id_list (mrcp_generic_header_get m') = Some [rid]"
    using active_ids_text(3) [OF ok add] by simp
qed

lemma pending_loop_ids:
  "length (active_request_id_list d) \<le> 5 \<Longrightarrow>
   active_request_id_list (snd (pending_loop req q d)) =
   take 5 (active_request_id_list d @
     map (\<lambda>p. request_id (start_line p)) (filter (\<lambda>p. stop_selects req (request_id (start_line p))) q))"
proof (induction req q d rule: pending_loop.induct)
  case (2 req p q d)
  show ?case
  proof (cases "stop_selects req (request_id (start_line p))")
    case True
    show ?thesis
      using True 2 by (cases "length (active_request_id_list d) = 5")
        (simp_all add: active_request_id_list_append_def MAX_ACTIVE_REQUEST_ID_COUNT_def)
  qed (use 2 in \<open>simp add: case_prod_unfold Let_def\<close>)
qed simp

lemma pending_requests_remove_text:
  assumes ok: "msg_ok apr vts resp" and rem: "pending_requests_remove req resp q = Some (q', resp')"
    and set: "mrcp_generic_header_property_check resp GENERIC_HEADER_ACTIVE_REQUEST_ID_LIST"
    and get: "mrcp_generic_header_get resp = Some d" "length (active_request_id_list d) \<le> 5"
  shows "field_texts resp' = field_texts resp"
    and "map_option active_request_id_list (mrcp_generic_header_get resp') = Some (take 5 (active_request_id_list d @
      map (\<lambda>p. request_id (start_line p)) (filter (\<lambda>p. stop_selects req (request_id (start_line p))) q)))"
proof -
  obtain q1 d1 where q1: "pending_loop req q d = (q1, d1)" by fastforce
  have prep: "mrcp_generic_header_prepare resp = (Some d, resp)"
    using get by (simp add: msg_simps mrcp_generic_header_get_def)
  have ids: "active_request_id_list d1 = take 5 (active_request_id_list d @
      map (\<lambda>p. request_id (start_line p)) (filter (\<lambda>p. stop_selects req (request_id (start_line p))) q))"
    using pending_loop_ids [OF get(2), of req q] q1 by simp
  have "header_section (header resp') = header_section (header resp) \<and> mrcp_generic_header_get resp' = Some d1"
  proof (cases "active_request_id_list d1 = []")
    case True
    then have "resp' = generic_header_store d1 resp"
      using rem prep q1 by (simp add: pending_requests_remove_def)
    then show ?thesis by (simp add: mrcp_generic_header_get_def generic_header_store_def)
  next
    case False
    then obtain b where add: "mrcp_generic_header_property_add (generic_header_store d1 resp)
        GENERIC_HEADER_ACTIVE_REQUEST_ID_LIST = Some (b, resp')"
      using rem prep q1 by (auto simp: pending_requests_remove_def)
    show ?thesis using active_ids_text [OF ok add] set by simp
  qed
  then show "field_texts resp' = field_texts resp"
    and "map_option active_request_id_list (mrcp_generic_header_get resp') = Some (take 5 (active_request_id_list d @
      map (\<lambda>p. request_id (start_line p)) (filter (\<lambda>p. stop_selects req (request_id (start_line p))) q)))"
    using ids by (simp_all add: field_texts_def)
qed

lemma stop_selects_all: "stop_id_list m = None \<Longrightarrow> stop_selects m rid"
  by (simp add: stop_selects_def)

lemma deactivate_request_facts [simp]:
  "method_id (start_line (deactivate_request apr k source)) = k"
  "request_id (start_line (deactivate_request apr k source)) = request_id (start_line source) + 1"
  "stop_id_list (deactivate_request apr k source) = stop_id_list source"
  by (auto simp: deactivate_request_def mrcp_request_create_def mrcp_message_resource_set_by_id_def Let_def stop_id_list_def
    mrcp_generic_header_get_def mrcp_generic_header_property_check_def split: option.split)

end
