(* ===== verification/Mrcp_Header_Wire.thy ===== *)
theory Mrcp_Header_Wire
  imports Mrcp_Resource
begin

text \<open>
  A message header on the wire: the fields of a header, generated as text by the sender, split into a header section and
  parsed field by field by the receiver (\<open>mrcp_header_fields_parse\<close> of \<open>mrcp_header.c\<close>), give the header data that
  copying the fields in memory (\<open>mrcp_header_fields_inherit\<close>) gives. The locale is the contract a resource header has to
  meet for this beside the generic header.
\<close>

section \<open>The generic header\<close>

text \<open>
  The fields of the generic header that survive: not the list of active request identifiers, which is never duplicated,
  and not the vendor specific parameters, which are appended to those of the receiver.
\<close>

definition generic_wire_ok :: "apr_fmt \<Rightarrow> mrcp_generic_header \<Rightarrow> nat \<Rightarrow> bool" where
  "generic_wire_ok apr d k \<longleftrightarrow>
     apr_fmt_ok apr \<and> k \<notin> {0, 11} \<and> (k = 8 \<longrightarrow> content_length d < 2 ^ 63) \<and> (k = 13 \<longrightarrow> fetch_timeout d < 2 ^ 63)"

lemma generic_names: "table_names_distinct generic_header_string_table GENERIC_HEADER_COUNT"
  by code_simp

lemma generic_wire:
  assumes "k < GENERIC_HEADER_COUNT" "generic_wire_ok apr s k" "val \<noteq> []"
    and "Some (True, val) = mrcp_generic_header_generate apr s k"
  shows "\<exists>d'. mrcp_generic_header_parse d k val = (True, d') \<and>
    mrcp_generic_header_duplicate (Some d) (Some s) k val = (True, Some d')"
proof -
  have "k < 16" using assms(1) by (simp add: GENERIC_HEADER_COUNT_def)
  then show ?thesis
    using assms(2-) unfolding numeral_cases
    by - (elim disjE less_zeroE, simp_all add: generic_wire_ok_def mrcp_generic_header_parse_def mrcp_generic_header_generate_def
      mrcp_generic_header_duplicate_def wire_simps)
qed

interpretation generic_fields: header_contract "mrcp_generic_header_vtable_get apr" "generic_wire_ok apr"
  for apr
proof (unfold_locales, goal_cases)
  case 1
  show ?case using generic_names by (simp add: mrcp_generic_header_vtable_get_def)
next
  case (2 k s val d)
  then show ?case using generic_wire [of k apr s val d] by (simp add: mrcp_generic_header_vtable_get_def)
qed

section \<open>Headers that are sent\<close>

text \<open>
  A field a sender puts into the section of its header: it has the identifier, the name and the value that were generated
  from the data, and its value survives. \<open>ok\<close> says which values of the resource header do.
\<close>

definition generic_sent :: "apr_fmt \<Rightarrow> 'r mrcp_message_header \<Rightarrow> apt_header_field \<Rightarrow> bool" where
  "generic_sent apr src f \<longleftrightarrow>
     hf_id f < GENERIC_HEADER_COUNT \<and> (\<exists>d. acc_data (generic_header_accessor src) = Some d \<and> generic_wire_ok apr d (hf_id f)) \<and>
     (\<exists>g. mrcp_header_field_value_generate (generic_header_accessor src) (hf_id f) False = Some (Some g) \<and>
          f = g\<lparr>hf_id := hf_id f\<rparr>)"

definition resource_sent :: "nat \<Rightarrow> ('r \<Rightarrow> nat \<Rightarrow> bool) \<Rightarrow> 'r mrcp_message_header \<Rightarrow> apt_header_field \<Rightarrow> bool" where
  "resource_sent n ok src f \<longleftrightarrow>
     (\<exists>k < n. hf_id f = k + GENERIC_HEADER_COUNT \<and>
        (\<exists>d. acc_data (resource_header_accessor src) = Some d \<and> ok d k) \<and>
        (\<exists>g. mrcp_header_field_value_generate (resource_header_accessor src) k False = Some (Some g) \<and>
             f = g\<lparr>hf_id := hf_id f\<rparr>))"

definition header_ready :: "apr_fmt \<Rightarrow> 'r mrcp_header_vtable \<Rightarrow> 'r mrcp_message_header \<Rightarrow> bool" where
  "header_ready apr vt h \<longleftrightarrow>
     acc_vtable (generic_header_accessor h) = Some (mrcp_generic_header_vtable_get apr) \<and>
     acc_data (generic_header_accessor h) \<noteq> None \<and>
     acc_vtable (resource_header_accessor h) = Some vt \<and> acc_data (resource_header_accessor h) \<noteq> None"

definition header_sent ::
  "apr_fmt \<Rightarrow> 'r mrcp_header_vtable \<Rightarrow> ('r \<Rightarrow> nat \<Rightarrow> bool) \<Rightarrow> 'r mrcp_message_header \<Rightarrow> bool"
where
  "header_sent apr vt ok src \<longleftrightarrow>
     header_ready apr vt src \<and> distinct (map (hf_id \<circ> snd) (hs_ring (header_section src))) \<and>
     (\<forall>f \<in> set (hs_ring (header_section src)).
        (generic_sent apr src (snd f) \<or> resource_sent (field_count vt) ok src (snd f)) \<and> field_ok (snd f))"

text \<open>Duplicating all fields of a list; the section of the header does not matter.\<close>

definition duplicate_all ::
  "'r mrcp_message_header \<Rightarrow> apt_header_field list \<Rightarrow> 'r mrcp_message_header \<Rightarrow> 'r mrcp_message_header"
where
  "duplicate_all src fs h = fold (\<lambda>f h. snd (mrcp_header_accessor_value_duplicate h f src)) fs h"

lemma duplicate_section:
  "mrcp_header_accessor_value_duplicate (h\<lparr>header_section := sec\<rparr>) f src =
     map_prod id (\<lambda>h. h\<lparr>header_section := sec\<rparr>) (mrcp_header_accessor_value_duplicate h f src)"
  by (auto simp: mrcp_header_accessor_value_duplicate_def split: prod.splits)

lemma duplicate_keeps_section [simp]:
  "header_section (snd (mrcp_header_accessor_value_duplicate h f src)) = header_section h"
  by (auto simp: mrcp_header_accessor_value_duplicate_def split: prod.splits)

lemma duplicate_all_Nil [simp]: "duplicate_all src [] h = h"
  by (simp add: duplicate_all_def)

lemma duplicate_all_Cons [simp]:
  "duplicate_all src (f # fs) h = duplicate_all src fs (snd (mrcp_header_accessor_value_duplicate h f src))"
  by (simp add: duplicate_all_def)

lemma duplicate_all_section:
  "duplicate_all src fs (h\<lparr>header_section := sec\<rparr>) = (duplicate_all src fs h)\<lparr>header_section := sec\<rparr>"
  by (induction fs arbitrary: h) (simp_all add: duplicate_section)

lemma duplicate_all_keeps_section [simp]: "header_section (duplicate_all src fs h) = header_section h"
  by (induction fs arbitrary: h) simp_all

lemma parsed_ring_zip:
  "parsed_ring pool ring =
     map (\<lambda>f. (fst f, (snd f)\<lparr>hf_id := UNKNOWN_HEADER_FIELD_ID\<rparr>)) (zip [pool ..< pool + length ring] (map snd ring))"
  by (simp add: parsed_ring_def zip_map2 split_def comp_def)

lemma header_field_copy [simp]: "apt_header_field_copy f = f"
  by (simp add: apt_header_field_copy_def)

text \<open>Inheriting fields that the header does not have yet duplicates all of them.\<close>

lemma fields_inherit_all:
  assumes "distinct (map (hf_id \<circ> snd) fs)"
    and "\<forall>f \<in> set fs. hf_id (snd f) < length (hs_arr (header_section h)) \<and> hs_arr (header_section h) ! hf_id (snd f) = None"
  shows "\<exists>sec. fold (field_inherit src) fs h = (duplicate_all src (map snd fs) h)\<lparr>header_section := sec\<rparr>"
  using assms
proof (induction fs arbitrary: h)
  case Nil
  show ?case by (rule exI [of _ "header_section h"]) simp
next
  case (Cons f fs)
  define sec where "sec = snd (apt_header_section_field_add (fresh_addr (header_section h), snd f) (header_section h))"
  define h1 where "h1 = (snd (mrcp_header_accessor_value_duplicate h (snd f) src))\<lparr>header_section := sec\<rparr>"
  have id: "hf_id (snd f) < length (hs_arr (header_section h))" "hs_arr (header_section h) ! hf_id (snd f) = None"
    using Cons.prems(2) by simp_all
  have "field_inherit src f h = h1"
    using id by (simp add: field_inherit_def apt_header_section_field_get_def h1_def sec_def Let_def)
  moreover have "\<exists>sec. fold (field_inherit src) fs h1 = (duplicate_all src (map snd fs) h1)\<lparr>header_section := sec\<rparr>"
    using Cons.prems id by (intro Cons.IH) (auto simp: h1_def sec_def apt_header_section_field_add_def nth_list_update Let_def)
  ultimately show ?case by (auto simp: h1_def duplicate_all_section)
qed

text \<open>The length of the body is duplicated with its field only.\<close>

lemma duplicate_content_length:
  assumes "acc_vtable (generic_header_accessor h) = Some (mrcp_generic_header_vtable_get apr)"
    and "acc_data (generic_header_accessor h) = Some d" "acc_data (generic_header_accessor src) = Some s"
    and "\<forall>f \<in> set fs. hf_id f = GENERIC_HEADER_CONTENT_LENGTH \<longrightarrow> hf_value f \<noteq> []"
  shows "\<exists>d'. acc_data (generic_header_accessor (duplicate_all src fs h)) = Some d' \<and>
    content_length d' = (if GENERIC_HEADER_CONTENT_LENGTH \<in> hf_id ` set fs then content_length s else content_length d)"
  using assms
proof (induction fs arbitrary: h d)
  case (Cons f fs)
  let ?h = "snd (mrcp_header_accessor_value_duplicate h f src)"
  have dup: "\<exists>e. snd (mrcp_generic_header_duplicate (Some d) (Some s) k v) = Some e \<and>
      content_length e = (if k = 8 then content_length s else content_length d)" for k v
    by (simp add: mrcp_generic_header_duplicate_def)
  have acc: "generic_header_accessor ?h =
      (if hf_id f < 16 \<and> hf_value f \<noteq> []
       then (generic_header_accessor h)\<lparr>acc_data := snd (mrcp_generic_header_duplicate (Some d) (Some s) (hf_id f) (hf_value f))\<rparr>
       else generic_header_accessor h)"
    using Cons.prems(1-3) by (simp add: mrcp_header_accessor_value_duplicate_def mrcp_header_field_value_duplicate_def
      mrcp_generic_header_vtable_get_def GENERIC_HEADER_COUNT_def split_def Let_def)
  obtain e where e: "acc_vtable (generic_header_accessor ?h) = Some (mrcp_generic_header_vtable_get apr)"
      "acc_data (generic_header_accessor ?h) = Some e"
      "content_length e = (if hf_id f = GENERIC_HEADER_CONTENT_LENGTH then content_length s else content_length d)"
    using Cons.prems dup [of "hf_id f" "hf_value f"] unfolding acc
    by (cases "hf_id f < 16 \<and> hf_value f \<noteq> []") (auto simp: GENERIC_HEADER_CONTENT_LENGTH_def)
  have "\<forall>f \<in> set fs. hf_id f = GENERIC_HEADER_CONTENT_LENGTH \<longrightarrow> hf_value f \<noteq> []" using Cons.prems(4) by simp
  from Cons.IH [OF e(1,2) Cons.prems(3) this] e(3) show ?case by auto
qed simp

section \<open>Receiving\<close>

text \<open>No name of the generic header is a name of the resource header, which is searched first.\<close>

definition table_without :: "apt_str_table_item list \<Rightarrow> apt_str_table_item list \<Rightarrow> bool" where
  "table_without table other \<longleftrightarrow>
     (let names = map (\<lambda>item. map tolower (item_value item)) table
      in list_all (\<lambda>item. \<not> List.member names (map tolower (item_value item))) other)"

lemma table_withoutD:
  assumes "table_without table other" "length table = n" "length other = m" "apt_string_table_str_get other m k = Some name"
  shows "n \<le> apt_string_table_id_find table n name"
proof (rule ccontr)
  assume "\<not> ?thesis"
  then obtain i where i: "i < n" "map tolower (item_value (table ! i)) = map tolower name"
    using table_find_less_iff [of table n name] by auto
  have "item_value (other ! k) = name" "k < length other"
    using assms(3,4) by (auto simp: apt_string_table_str_get_def split: if_splits)
  with i assms(1,2) show False
    by (auto simp: table_without_def list_all_length in_set_conv_nth)
qed

text \<open>The slots of a section that are in use after fields were put into the array.\<close>

lemma ring_store_arr [simp]: "hs_arr (ring_store f h) = hs_arr h"
  by (simp add: ring_store_def)

lemma field_check_ring_store [simp]: "apt_header_section_field_check (ring_store f h) = apt_header_section_field_check h"
  by (simp add: apt_header_section_field_check_def fun_eq_iff)

lemma field_check_set:
  "apt_header_section_field_check (snd (apt_header_section_field_set f h)) k \<longleftrightarrow>
     apt_header_section_field_check h k \<or> k = hf_id (snd f) \<and> k < length (hs_arr h)"
  by (auto simp: apt_header_section_field_check_def apt_header_section_field_set_def Let_def nth_list_update)

lemma field_set_length [simp]: "length (hs_arr (snd (apt_header_section_field_set f (ring_store g h)))) = length (hs_arr h)"
  by (simp add: apt_header_section_field_set_def Let_def)

locale message_contract = header_contract vt wire_ok
  for vt :: "'r mrcp_header_vtable" and wire_ok +
  assumes generic_apart: "table_without (field_table vt) generic_header_string_table"
begin

abbreviation sent :: "apr_fmt \<Rightarrow> 'r mrcp_message_header \<Rightarrow> apt_header_field \<Rightarrow> bool" where
  "sent apr src f \<equiv> generic_sent apr src f \<or> resource_sent (field_count vt) wire_ok src f"

lemma generic_name_unknown:
  assumes "acc_vtable (generic_header_accessor src) = Some (mrcp_generic_header_vtable_get apr)" "generic_sent apr src f"
  shows "field_count vt \<le> apt_string_table_id_find (field_table vt) (field_count vt) (hf_name f)"
proof -
  obtain g where g: "hf_id f < GENERIC_HEADER_COUNT" "f = g\<lparr>hf_id := hf_id f\<rparr>"
      "mrcp_header_field_value_generate (generic_header_accessor src) (hf_id f) False = Some (Some g)"
    using assms(2) by (auto simp: generic_sent_def)
  from generic_names g(1) obtain name where
      name: "apt_string_table_str_get generic_header_string_table GENERIC_HEADER_COUNT (hf_id f) = Some name"
    by (rule table_names_distinctD)
  then have "hf_name g = name"
    using assms(1) g(3) by (auto simp: mrcp_header_field_value_generate_def mrcp_generic_header_vtable_get_def Let_def
      split: if_splits bind_splits)
  then have "hf_name f = name" using g(2) by (cases f; cases g) simp
  with table_withoutD [OF generic_apart _ _ name] names show ?thesis
    by (simp add: table_names_distinct_def generic_header_string_table_def GENERIC_HEADER_COUNT_def)
qed

lemma field_received:
  assumes src: "header_ready apr vt src" and h: "header_ready apr vt h" and sent: "sent apr src f"
  defines "h' \<equiv> snd (mrcp_header_accessor_value_duplicate h f src)"
  shows "field_value_parse h (f\<lparr>hf_id := i\<rparr>) = Some (True, h', f)" and "header_ready apr vt h'"
proof -
  have "field_value_parse h (f\<lparr>hf_id := i\<rparr>) = Some (True, h', f) \<and> header_ready apr vt h'"
    using sent
  proof
    assume gs: "generic_sent apr src f"
    then obtain d g where dg: "acc_data (generic_header_accessor src) = Some d" "generic_wire_ok apr d (hf_id f)"
        "hf_id f < GENERIC_HEADER_COUNT" "f = g\<lparr>hf_id := hf_id f\<rparr>"
        "mrcp_header_field_value_generate (generic_header_accessor src) (hf_id f) False = Some (Some g)"
      by (auto simp: generic_sent_def)
    obtain e where e: "acc_data (generic_header_accessor h) = Some e" using h by (auto simp: header_ready_def)
    have "field_count vt \<le> apt_string_table_id_find (field_table vt) (field_count vt) (hf_name f)"
      using src gs generic_name_unknown by (auto simp: header_ready_def)
    then have "mrcp_header_field_value_parse (resource_header_accessor h) (f\<lparr>hf_id := i\<rparr>) =
        Some (False, resource_header_accessor h, f\<lparr>hf_id := i\<rparr>)"
      using h by (simp add: header_ready_def mrcp_header_field_value_parse_def)
    moreover have "hf_id f < field_count (mrcp_generic_header_vtable_get apr)"
      using dg(3) by (simp add: mrcp_generic_header_vtable_get_def)
    note generic_fields.field_wire [OF _ dg(1) _ e this dg(2,5)]
    moreover have "f\<lparr>hf_id := i\<rparr> = g\<lparr>hf_id := i\<rparr>" "hf_value f = hf_value g" using dg(4) by (cases f; cases g; simp)+
    ultimately show ?thesis
      using src h e dg
      by (auto simp: field_value_parse_def header_ready_def h'_def mrcp_header_accessor_value_duplicate_def
        mrcp_generic_header_vtable_get_def split: prod.splits)
  next
    assume "resource_sent (field_count vt) wire_ok src f"
    then obtain k d g where dg: "acc_data (resource_header_accessor src) = Some d" "wire_ok d k" "k < field_count vt"
        "hf_id f = k + GENERIC_HEADER_COUNT" "f = g\<lparr>hf_id := hf_id f\<rparr>"
        "mrcp_header_field_value_generate (resource_header_accessor src) k False = Some (Some g)"
      by (auto simp: resource_sent_def)
    obtain e where e: "acc_data (resource_header_accessor h) = Some e" using h by (auto simp: header_ready_def)
    note field_wire [OF _ dg(1) _ e dg(3,2,6)]
    moreover have "f\<lparr>hf_id := i\<rparr> = g\<lparr>hf_id := i\<rparr>" "hf_value f = hf_value g" using dg(5) by (cases f; cases g; simp)+
    ultimately show ?thesis
      using src h e dg
      by (auto simp: field_value_parse_def header_ready_def h'_def mrcp_header_accessor_value_duplicate_def
        split: prod.splits)
  qed
  then show "field_value_parse h (f\<lparr>hf_id := i\<rparr>) = Some (True, h', f)" "header_ready apr vt h'" by simp_all
qed

lemma fields_received_loop:
  assumes "header_ready apr vt src" "header_ready apr vt h" "\<forall>f \<in> set todo. sent apr src (snd f)"
    and "hs_ring (header_section h) = ready @ map (\<lambda>f. (fst f, (snd f)\<lparr>hf_id := i\<rparr>)) todo"
    and "distinct (map fst (ready @ todo))"
  shows "\<exists>sec. fields_parse_loop (map fst todo) h = Some ((duplicate_all src (map snd todo) h)\<lparr>header_section := sec\<rparr>) \<and>
    hs_ring sec = ready @ todo \<and>
    (\<forall>k. apt_header_section_field_check sec k \<longleftrightarrow> apt_header_section_field_check (header_section h) k \<or>
       k < length (hs_arr (header_section h)) \<and> k \<in> (hf_id \<circ> snd) ` set todo)"
  using assms(2-)
proof (induction todo arbitrary: h ready)
  case Nil
  show ?case by (rule exI [of _ "header_section h"]) (use Nil in simp)
next
  case (Cons f todo)
  let ?raw = "\<lambda>f. (fst f, (snd f)\<lparr>hf_id := i\<rparr>)"
  define h1 where "h1 = snd (mrcp_header_accessor_value_duplicate h (snd f) src)"
  define sec where "sec = snd (apt_header_section_field_set f (ring_store f (header_section h)))"
  note received = field_received(1) [OF assms(1) Cons.prems(1), where f = "snd f" and i = i, folded h1_def]
    field_received(2) [OF assms(1) Cons.prems(1), where f = "snd f", folded h1_def]
  have dist: "fst f \<notin> fst ` set ready" "fst f \<notin> fst ` set todo" using Cons.prems(4) by auto
  have get: "map_of (hs_ring (header_section h)) (fst f) = Some ((snd f)\<lparr>hf_id := i\<rparr>)"
    using Cons.prems(3) dist by (auto simp: map_of_append map_add_Some_iff map_of_eq_None_iff)
  have "hs_ring sec = hs_ring (ring_store f (header_section h))"
    by (simp add: sec_def apt_header_section_field_set_def Let_def)
  moreover have "map (\<lambda>g. if fst g = fst f then f else g) xs = xs" if "fst f \<notin> fst ` set xs" for xs :: "field_obj list"
    using that by (intro map_idI) (metis image_eqI)
  ultimately have ring: "hs_ring sec = (ready @ [f]) @ map ?raw todo"
    using Cons.prems(3) dist by (auto simp: ring_store_def image_iff)
  have step: "fields_parse_loop (map fst (f # todo)) h = fields_parse_loop (map fst todo) (h1\<lparr>header_section := sec\<rparr>)"
    using get received(1) Cons.prems(2) by (simp add: sec_def h1_def)
  have "header_ready apr vt (h1\<lparr>header_section := sec\<rparr>)"
    using received(2) Cons.prems(2) by (simp add: header_ready_def)
  then have "\<exists>sec'. fields_parse_loop (map fst todo) (h1\<lparr>header_section := sec\<rparr>) =
      Some ((duplicate_all src (map snd todo) (h1\<lparr>header_section := sec\<rparr>))\<lparr>header_section := sec'\<rparr>) \<and>
      hs_ring sec' = (ready @ [f]) @ todo \<and>
      (\<forall>k. apt_header_section_field_check sec' k \<longleftrightarrow>
         apt_header_section_field_check (header_section (h1\<lparr>header_section := sec\<rparr>)) k \<or>
         k < length (hs_arr (header_section (h1\<lparr>header_section := sec\<rparr>))) \<and> k \<in> (hf_id \<circ> snd) ` set todo)"
    by (rule Cons.IH) (use Cons.prems ring in simp_all)
  then obtain sec' where sec': "fields_parse_loop (map fst todo) (h1\<lparr>header_section := sec\<rparr>) =
      Some ((duplicate_all src (map snd todo) (h1\<lparr>header_section := sec\<rparr>))\<lparr>header_section := sec'\<rparr>)"
      "hs_ring sec' = (ready @ [f]) @ todo"
      "\<And>k. apt_header_section_field_check sec' k \<longleftrightarrow> apt_header_section_field_check sec k \<or>
         k < length (hs_arr (header_section h)) \<and> k \<in> (hf_id \<circ> snd) ` set todo"
    by (auto simp: sec_def)
  have "apt_header_section_field_check sec k \<longleftrightarrow> apt_header_section_field_check (header_section h) k \<or>
      k = hf_id (snd f) \<and> k < length (hs_arr (header_section h))" for k
    unfolding sec_def field_check_set by simp
  with step sec' show ?case
    by (intro exI [of _ sec']) (auto simp: duplicate_all_section h1_def)
qed

lemma sent_fields_free:
  assumes "header_sent apr vt wire_ok src" "f \<in> set (hs_ring (header_section src))"
  defines "h0 \<equiv> mrcp_message_header_create (Some (mrcp_generic_header_vtable_get apr)) (Some vt)"
  shows "hf_id (snd f) < length (hs_arr (header_section h0)) \<and> hs_arr (header_section h0) ! hf_id (snd f) = None"
proof -
  have "hs_arr (header_section h0) = replicate (GENERIC_HEADER_COUNT + field_count vt) None"
    by (simp add: h0_def mrcp_message_header_create_def mrcp_message_header_data_alloc_def
      apt_header_section_array_alloc_def mrcp_generic_header_vtable_get_def GENERIC_HEADER_COUNT_def)
  moreover have "hf_id (snd f) < GENERIC_HEADER_COUNT + field_count vt"
    using assms(1,2) by (auto simp: header_sent_def generic_sent_def resource_sent_def)
  ultimately show ?thesis by simp
qed

text \<open>The fields of a section that were sent, parsed into the data the receiver has allocated.\<close>

lemma header_parsed:
  assumes src: "header_sent apr vt wire_ok src" and alloc: "allocate vt \<noteq> None"
  defines "h0 \<equiv> mrcp_message_header_create (Some (mrcp_generic_header_vtable_get apr)) (Some vt)"
    and "ring \<equiv> hs_ring (header_section src)"
  shows "\<exists>sec. mrcp_header_fields_parse
      (h0\<lparr>header_section := (header_section h0)\<lparr>hs_ring := parsed_ring pool ring\<rparr>\<rparr>) =
        Some (True, (snd (mrcp_header_fields_inherit h0 src))\<lparr>header_section := sec\<rparr>) \<and>
    map snd (hs_ring sec) = map snd ring \<and>
    (\<forall>k. apt_header_section_field_check sec k \<longleftrightarrow> k \<in> (hf_id \<circ> snd) ` set ring)"
proof -
  define todo where "todo = zip [pool ..< pool + length ring] (map snd ring)"
  define h where "h = h0\<lparr>header_section := (header_section h0)\<lparr>hs_ring := parsed_ring pool ring\<rparr>\<rparr>"
  have todo: "map snd todo = map snd ring" "map fst todo = [pool ..< pool + length ring]"
    by (simp_all add: todo_def)
  have "header_ready apr vt h0"
    using alloc by (auto simp: h0_def header_ready_def mrcp_message_header_create_def mrcp_message_header_data_alloc_def
      mrcp_header_allocate_def mrcp_generic_header_vtable_get_def)
  then have ready: "header_ready apr vt h" by (simp add: h_def header_ready_def)
  have all: "\<forall>f \<in> set todo. sent apr src (snd f)"
    using src set_zip_rightD by (fastforce simp: header_sent_def ring_def todo_def)
  have raw: "hs_ring (header_section h) = map (\<lambda>f. (fst f, (snd f)\<lparr>hf_id := UNKNOWN_HEADER_FIELD_ID\<rparr>)) todo"
    by (simp add: h_def todo_def parsed_ring_zip)
  obtain sec where sec: "fields_parse_loop (map fst todo) h = Some ((duplicate_all src (map snd todo) h)\<lparr>header_section := sec\<rparr>)"
      "hs_ring sec = todo"
      "\<And>k. apt_header_section_field_check sec k \<longleftrightarrow> apt_header_section_field_check (header_section h) k \<or>
         k < length (hs_arr (header_section h)) \<and> k \<in> (hf_id \<circ> snd) ` set todo"
    using fields_received_loop [OF _ ready all, of "[]" UNKNOWN_HEADER_FIELD_ID] src raw todo(2)
    by (auto simp: header_sent_def)
  have "hs_arr (header_section h0) = replicate (GENERIC_HEADER_COUNT + field_count vt) None"
    by (simp add: h0_def mrcp_message_header_create_def mrcp_message_header_data_alloc_def
      apt_header_section_array_alloc_def mrcp_generic_header_vtable_get_def GENERIC_HEADER_COUNT_def)
  then have "\<not> apt_header_section_field_check (header_section h) k" for k
    by (simp add: h_def apt_header_section_field_check_def)
  moreover have "(hf_id \<circ> snd) ` set todo = (hf_id \<circ> snd) ` set ring"
    using arg_cong [OF todo(1), of "\<lambda>fs. set (map hf_id fs)"] by (simp add: image_comp)
  moreover have "k < length (hs_arr (header_section h))" if "k \<in> (hf_id \<circ> snd) ` set ring" for k
    using that sent_fields_free [OF src] by (auto simp: h_def h0_def ring_def)
  ultimately have slots: "apt_header_section_field_check sec k \<longleftrightarrow> k \<in> (hf_id \<circ> snd) ` set ring" for k
    using sec(3) by auto
  obtain sec' where "fold (field_inherit src) ring h0 = (duplicate_all src (map snd ring) h0)\<lparr>header_section := sec'\<rparr>"
    using fields_inherit_all [of ring h0 src] sent_fields_free [OF src] src by (auto simp: header_sent_def ring_def h0_def)
  then have "(snd (mrcp_header_fields_inherit h0 src))\<lparr>header_section := sec\<rparr> =
      (duplicate_all src (map snd todo) h)\<lparr>header_section := sec\<rparr>"
    by (simp add: mrcp_header_fields_inherit_def ring_def [symmetric] h_def duplicate_all_section todo(1))
  moreover have "map fst (hs_ring (header_section h)) = map fst todo" by (simp add: raw comp_def)
  ultimately show ?thesis
    unfolding h_def [symmetric] using sec todo(1) slots by (intro exI [of _ sec]) (simp add: mrcp_header_fields_parse_def)
qed

text \<open>The length of the body that the receiver of a header finds there.\<close>

lemma received_content_length:
  assumes src: "header_sent apr vt wire_ok src" and alloc: "allocate vt \<noteq> None"
  defines "h0 \<equiv> mrcp_message_header_create (Some (mrcp_generic_header_vtable_get apr)) (Some vt)"
    and "ring \<equiv> hs_ring (header_section src)"
  shows "\<exists>s d. acc_data (generic_header_accessor src) = Some s \<and>
    acc_data (generic_header_accessor (snd (mrcp_header_fields_inherit h0 src))) = Some d \<and>
    content_length d = (if GENERIC_HEADER_CONTENT_LENGTH \<in> (hf_id \<circ> snd) ` set ring then content_length s else 0)"
proof -
  obtain s where s: "acc_data (generic_header_accessor src) = Some s"
      "acc_vtable (generic_header_accessor src) = Some (mrcp_generic_header_vtable_get apr)"
    using src by (auto simp: header_sent_def header_ready_def)
  have h0: "acc_vtable (generic_header_accessor h0) = Some (mrcp_generic_header_vtable_get apr)"
      "acc_data (generic_header_accessor h0) = Some mrcp_generic_header_init"
    using alloc by (auto simp: h0_def mrcp_message_header_create_def mrcp_message_header_data_alloc_def
      mrcp_header_allocate_def mrcp_generic_header_vtable_get_def)
  have "hf_value (snd f) \<noteq> []" if f: "f \<in> set ring" "hf_id (snd f) = GENERIC_HEADER_CONTENT_LENGTH" for f
  proof -
    have "generic_sent apr src (snd f)"
      using f src by (auto simp: header_sent_def ring_def resource_sent_def GENERIC_HEADER_CONTENT_LENGTH_def
        GENERIC_HEADER_COUNT_def)
    then obtain g where g: "apr_fmt_ok apr" "snd f = g\<lparr>hf_id := 8\<rparr>"
        "mrcp_header_field_value_generate (generic_header_accessor src) 8 False = Some (Some g)"
      using f(2) by (auto simp: generic_sent_def generic_wire_ok_def GENERIC_HEADER_CONTENT_LENGTH_def)
    then show ?thesis
      using s by (auto simp: mrcp_header_field_value_generate_def mrcp_generic_header_vtable_get_def Let_def
        mrcp_generic_header_generate_def apt_size_value_generate_def apr_fmt_okD split: option.splits)
  qed
  then obtain d where "acc_data (generic_header_accessor (duplicate_all src (map snd ring) h0)) = Some d"
      "content_length d = (if GENERIC_HEADER_CONTENT_LENGTH \<in> (hf_id \<circ> snd) ` set ring then content_length s else 0)"
    using duplicate_content_length [OF h0 s(1), of "map snd ring"]
    by (auto simp: image_comp mrcp_generic_header_init_def)
  moreover obtain sec where "fold (field_inherit src) ring h0 = (duplicate_all src (map snd ring) h0)\<lparr>header_section := sec\<rparr>"
    using fields_inherit_all [of ring h0 src] sent_fields_free [OF src] src by (auto simp: header_sent_def ring_def h0_def)
  ultimately show ?thesis using s(1) by (simp add: mrcp_header_fields_inherit_def ring_def)
qed

text \<open>
  What a receiver makes of the text of a header: it parses the header section, allocates the header data of the resource,
  and parses the values of the fields.
\<close>

lemma header_received:
  assumes src: "header_sent apr vt wire_ok src" and alloc: "allocate vt \<noteq> None"
    and s: "ts_wf s" "\<not> is_eos s" "ts_pos s + length (ring_text (hs_ring (header_section src))) + 2 < ts_end s"
  shows "\<exists>s' sec n h'. apt_header_section_generate (header_section src) s = Some (True, s') \<and>
    apt_header_section_parse pool apt_header_section_init (s'\<lparr>ts_pos := ts_pos s\<rparr>) = (True, sec, s', n) \<and>
    mrcp_header_fields_parse
      (snd (mrcp_message_header_data_alloc (Some (mrcp_generic_header_vtable_get apr)) (Some vt)
         (mrcp_message_header_init\<lparr>header_section := sec\<rparr>))) = Some (True, h') \<and>
    map snd (hs_ring (header_section h')) = map snd (hs_ring (header_section src)) \<and>
    h' = (snd (mrcp_header_fields_inherit
           (mrcp_message_header_create (Some (mrcp_generic_header_vtable_get apr)) (Some vt)) src))
         \<lparr>header_section := header_section h'\<rparr>"
proof -
  let ?ring = "hs_ring (header_section src)"
  let ?h0 = "mrcp_message_header_create (Some (mrcp_generic_header_vtable_get apr)) (Some vt)"
  have "\<forall>f \<in> set ?ring. field_ok (snd f)" using src by (auto simp: header_sent_def)
  from section_text_parsed [OF s(1,2) this s(3), of pool]
  obtain s' where s': "apt_header_section_generate (header_section src) s = Some (True, s')"
      "apt_header_section_parse pool apt_header_section_init (s'\<lparr>ts_pos := ts_pos s\<rparr>) =
        (True, \<lparr>hs_ring = parsed_ring pool ?ring, hs_arr = []\<rparr>, s', pool + length ?ring + 1)"
    by blast
  have h: "snd (mrcp_message_header_data_alloc (Some (mrcp_generic_header_vtable_get apr)) (Some vt)
      (mrcp_message_header_init\<lparr>header_section := \<lparr>hs_ring = parsed_ring pool ?ring, hs_arr = []\<rparr>\<rparr>)) =
      ?h0\<lparr>header_section := (header_section ?h0)\<lparr>hs_ring := parsed_ring pool ?ring\<rparr>\<rparr>"
    by (simp add: mrcp_message_header_create_def mrcp_message_header_data_alloc_def
      apt_header_section_array_alloc_def mrcp_message_header_init_def apt_header_section_init_def)
  from header_parsed [OF src alloc, of pool] s' show ?thesis unfolding h [symmetric] by force
qed

end

end
