(* ===== verification/Mrcp_Recog_Resource.thy ===== *)
theory Mrcp_Recog_Resource
  imports Mrcp_Header_Wire
begin

text \<open>
  The recognizer resource: \<open>mrcp_recog_header.c\<close>, \<open>mrcp_recog_header.h\<close> and \<open>mrcp_recog_resource.c\<close> of
  \<open>libs/mrcp/resources\<close>. The two versions of MRCP share the data and differ in the string tables and in the fields
  that are percentages in version 1 and fractions in version 2.
\<close>

section \<open>Identifiers\<close>

text \<open>The identifiers of the header fields, methods and events are their positions in the enumerations.\<close>

definition RECOGNIZER_HEADER_COMPLETION_CAUSE :: nat where "RECOGNIZER_HEADER_COMPLETION_CAUSE = 7"
definition RECOGNIZER_HEADER_COUNT :: nat where "RECOGNIZER_HEADER_COUNT = 45"

definition RECOGNIZER_COMPLETION_CAUSE_SUCCESS :: nat where "RECOGNIZER_COMPLETION_CAUSE_SUCCESS = 0"
definition RECOGNIZER_COMPLETION_CAUSE_COUNT :: nat where "RECOGNIZER_COMPLETION_CAUSE_COUNT = 17"

definition RECOGNIZER_SET_PARAMS :: nat where "RECOGNIZER_SET_PARAMS = 0"
definition RECOGNIZER_GET_PARAMS :: nat where "RECOGNIZER_GET_PARAMS = 1"
definition RECOGNIZER_DEFINE_GRAMMAR :: nat where "RECOGNIZER_DEFINE_GRAMMAR = 2"
definition RECOGNIZER_RECOGNIZE :: nat where "RECOGNIZER_RECOGNIZE = 3"
definition RECOGNIZER_INTERPRET :: nat where "RECOGNIZER_INTERPRET = 4"
definition RECOGNIZER_GET_RESULT :: nat where "RECOGNIZER_GET_RESULT = 5"
definition RECOGNIZER_START_INPUT_TIMERS :: nat where "RECOGNIZER_START_INPUT_TIMERS = 6"
definition RECOGNIZER_STOP :: nat where "RECOGNIZER_STOP = 7"
definition RECOGNIZER_START_PHRASE_ENROLLMENT :: nat where "RECOGNIZER_START_PHRASE_ENROLLMENT = 8"
definition RECOGNIZER_ENROLLMENT_ROLLBACK :: nat where "RECOGNIZER_ENROLLMENT_ROLLBACK = 9"
definition RECOGNIZER_END_PHRASE_ENROLLMENT :: nat where "RECOGNIZER_END_PHRASE_ENROLLMENT = 10"
definition RECOGNIZER_MODIFY_PHRASE :: nat where "RECOGNIZER_MODIFY_PHRASE = 11"
definition RECOGNIZER_DELETE_PHRASE :: nat where "RECOGNIZER_DELETE_PHRASE = 12"
definition RECOGNIZER_METHOD_COUNT :: nat where "RECOGNIZER_METHOD_COUNT = 13"

definition RECOGNIZER_START_OF_INPUT :: nat where "RECOGNIZER_START_OF_INPUT = 0"
definition RECOGNIZER_RECOGNITION_COMPLETE :: nat where "RECOGNIZER_RECOGNITION_COMPLETE = 1"
definition RECOGNIZER_INTERPRETATION_COMPLETE :: nat where "RECOGNIZER_INTERPRETATION_COMPLETE = 2"
definition RECOGNIZER_EVENT_COUNT :: nat where "RECOGNIZER_EVENT_COUNT = 3"

section \<open>String tables\<close>

definition v1_recog_header_string_table :: "apt_str_table_item list" where
  "v1_recog_header_string_table =
     [\<lparr>item_value = ''Confidence-Threshold'', item_key = 16\<rparr>, \<lparr>item_value = ''Sensitivity-Level'', item_key = 14\<rparr>,
      \<lparr>item_value = ''Speed-Vs-Accuracy'', item_key = 4\<rparr>, \<lparr>item_value = ''N-Best-List-Length'', item_key = 1\<rparr>,
      \<lparr>item_value = ''No-Input-Timeout'', item_key = 2\<rparr>, \<lparr>item_value = ''Recognition-Timeout'', item_key = 19\<rparr>,
      \<lparr>item_value = ''Waveform-Url'', item_key = 4\<rparr>, \<lparr>item_value = ''Completion-Cause'', item_key = 16\<rparr>,
      \<lparr>item_value = ''Recognizer-Context-Block'', item_key = 16\<rparr>, \<lparr>item_value = ''Recognizer-Start-Timers'', item_key = 18\<rparr>,
      \<lparr>item_value = ''Speech-Complete-Timeout'', item_key = 7\<rparr>, \<lparr>item_value = ''Speech-Incomplete-Timeout'', item_key = 12\<rparr>,
      \<lparr>item_value = ''DTMF-Interdigit-Timeout'', item_key = 10\<rparr>, \<lparr>item_value = ''DTMF-Term-Timeout'', item_key = 14\<rparr>,
      \<lparr>item_value = ''DTMF-Term-Char'', item_key = 14\<rparr>, \<lparr>item_value = ''Failed-Uri'', item_key = 10\<rparr>,
      \<lparr>item_value = ''Failed-Uri-Cause'', item_key = 16\<rparr>, \<lparr>item_value = ''Save-Waveform'', item_key = 5\<rparr>,
      \<lparr>item_value = ''New-Audio-Channel'', item_key = 17\<rparr>, \<lparr>item_value = ''Speech-Language'', item_key = 8\<rparr>,
      \<lparr>item_value = ''Input-Type'', item_key = 10\<rparr>, \<lparr>item_value = ''Input-Waveform-Uri'', item_key = 6\<rparr>,
      \<lparr>item_value = ''Completion-Reason'', item_key = 17\<rparr>, \<lparr>item_value = ''Media-Type'', item_key = 0\<rparr>,
      \<lparr>item_value = ''Ver-Buffer-Utterance'', item_key = 0\<rparr>, \<lparr>item_value = ''Recognition-Mode'', item_key = 16\<rparr>,
      \<lparr>item_value = ''Cancel-If-Queue'', item_key = 3\<rparr>, \<lparr>item_value = ''Hotword-Max-Duration'', item_key = 10\<rparr>,
      \<lparr>item_value = ''Hotword-Min-Duration'', item_key = 20\<rparr>, \<lparr>item_value = ''Interpret-Text'', item_key = 12\<rparr>,
      \<lparr>item_value = ''DTMF-Buffer-Time'', item_key = 16\<rparr>, \<lparr>item_value = ''Clear-DTMF-Buffer'', item_key = 11\<rparr>,
      \<lparr>item_value = ''Early-No-Match'', item_key = 4\<rparr>, \<lparr>item_value = ''Num-Min-Consistent-Pronunciations'', item_key = 1\<rparr>,
      \<lparr>item_value = ''Consistency-Threshold'', item_key = 16\<rparr>, \<lparr>item_value = ''Clash-Threshold'', item_key = 2\<rparr>,
      \<lparr>item_value = ''Personal-Grammar-URI'', item_key = 9\<rparr>, \<lparr>item_value = ''Enroll-Utterance'', item_key = 10\<rparr>,
      \<lparr>item_value = ''Phrase-ID'', item_key = 8\<rparr>, \<lparr>item_value = ''Phrase-NL'', item_key = 9\<rparr>,
      \<lparr>item_value = ''Weight'', item_key = 3\<rparr>, \<lparr>item_value = ''Save-Best-Waveform'', item_key = 10\<rparr>,
      \<lparr>item_value = ''New-Phrase-ID'', item_key = 4\<rparr>, \<lparr>item_value = ''Confusable-Phrases-URI'', item_key = 4\<rparr>,
      \<lparr>item_value = ''Abort-Phrase-Enrollment'', item_key = 0\<rparr>]"

definition v2_recog_header_string_table :: "apt_str_table_item list" where
  "v2_recog_header_string_table =
     [\<lparr>item_value = ''Confidence-Threshold'', item_key = 16\<rparr>, \<lparr>item_value = ''Sensitivity-Level'', item_key = 14\<rparr>,
      \<lparr>item_value = ''Speed-Vs-Accuracy'', item_key = 4\<rparr>, \<lparr>item_value = ''N-Best-List-Length'', item_key = 1\<rparr>,
      \<lparr>item_value = ''No-Input-Timeout'', item_key = 2\<rparr>, \<lparr>item_value = ''Recognition-Timeout'', item_key = 19\<rparr>,
      \<lparr>item_value = ''Waveform-Uri'', item_key = 4\<rparr>, \<lparr>item_value = ''Completion-Cause'', item_key = 16\<rparr>,
      \<lparr>item_value = ''Recognizer-Context-Block'', item_key = 7\<rparr>, \<lparr>item_value = ''Start-Input-Timers'', item_key = 18\<rparr>,
      \<lparr>item_value = ''Speech-Complete-Timeout'', item_key = 7\<rparr>, \<lparr>item_value = ''Speech-Incomplete-Timeout'', item_key = 12\<rparr>,
      \<lparr>item_value = ''DTMF-Interdigit-Timeout'', item_key = 10\<rparr>, \<lparr>item_value = ''DTMF-Term-Timeout'', item_key = 14\<rparr>,
      \<lparr>item_value = ''DTMF-Term-Char'', item_key = 14\<rparr>, \<lparr>item_value = ''Failed-Uri'', item_key = 10\<rparr>,
      \<lparr>item_value = ''Failed-Uri-Cause'', item_key = 16\<rparr>, \<lparr>item_value = ''Save-Waveform'', item_key = 5\<rparr>,
      \<lparr>item_value = ''New-Audio-Channel'', item_key = 17\<rparr>, \<lparr>item_value = ''Speech-Language'', item_key = 8\<rparr>,
      \<lparr>item_value = ''Input-Type'', item_key = 10\<rparr>, \<lparr>item_value = ''Input-Waveform-Uri'', item_key = 6\<rparr>,
      \<lparr>item_value = ''Completion-Reason'', item_key = 13\<rparr>, \<lparr>item_value = ''Media-Type'', item_key = 0\<rparr>,
      \<lparr>item_value = ''Ver-Buffer-Utterance'', item_key = 0\<rparr>, \<lparr>item_value = ''Recognition-Mode'', item_key = 16\<rparr>,
      \<lparr>item_value = ''Cancel-If-Queue'', item_key = 3\<rparr>, \<lparr>item_value = ''Hotword-Max-Duration'', item_key = 10\<rparr>,
      \<lparr>item_value = ''Hotword-Min-Duration'', item_key = 20\<rparr>, \<lparr>item_value = ''Interpret-Text'', item_key = 12\<rparr>,
      \<lparr>item_value = ''DTMF-Buffer-Time'', item_key = 16\<rparr>, \<lparr>item_value = ''Clear-DTMF-Buffer'', item_key = 11\<rparr>,
      \<lparr>item_value = ''Early-No-Match'', item_key = 4\<rparr>, \<lparr>item_value = ''Num-Min-Consistent-Pronunciations'', item_key = 1\<rparr>,
      \<lparr>item_value = ''Consistency-Threshold'', item_key = 16\<rparr>, \<lparr>item_value = ''Clash-Threshold'', item_key = 15\<rparr>,
      \<lparr>item_value = ''Personal-Grammar-URI'', item_key = 9\<rparr>, \<lparr>item_value = ''Enroll-Utterance'', item_key = 10\<rparr>,
      \<lparr>item_value = ''Phrase-ID'', item_key = 8\<rparr>, \<lparr>item_value = ''Phrase-NL'', item_key = 9\<rparr>,
      \<lparr>item_value = ''Weight'', item_key = 3\<rparr>, \<lparr>item_value = ''Save-Best-Waveform'', item_key = 10\<rparr>,
      \<lparr>item_value = ''New-Phrase-ID'', item_key = 4\<rparr>, \<lparr>item_value = ''Confusable-Phrases-URI'', item_key = 4\<rparr>,
      \<lparr>item_value = ''Abort-Phrase-Enrollment'', item_key = 0\<rparr>]"

definition v1_recog_completion_cause_string_table :: "apt_str_table_item list" where
  "v1_recog_completion_cause_string_table =
     [\<lparr>item_value = ''success'', item_key = 1\<rparr>, \<lparr>item_value = ''no-match'', item_key = 8\<rparr>,
      \<lparr>item_value = ''no-input-timeout'', item_key = 3\<rparr>, \<lparr>item_value = ''recognition-timeout'', item_key = 0\<rparr>,
      \<lparr>item_value = ''gram-load-failure'', item_key = 7\<rparr>, \<lparr>item_value = ''gram-comp-failure'', item_key = 5\<rparr>,
      \<lparr>item_value = ''error'', item_key = 0\<rparr>, \<lparr>item_value = ''speech-too-early'', item_key = 1\<rparr>,
      \<lparr>item_value = ''too-much-speech-timeout'', item_key = 0\<rparr>, \<lparr>item_value = ''uri-failure'', item_key = 0\<rparr>,
      \<lparr>item_value = ''language-unsupported'', item_key = 0\<rparr>, \<lparr>item_value = ''cancelled'', item_key = 0\<rparr>,
      \<lparr>item_value = ''semantics-failure'', item_key = 2\<rparr>, \<lparr>item_value = ''partial-match'', item_key = 13\<rparr>,
      \<lparr>item_value = ''partial-match-maxtime'', item_key = 13\<rparr>, \<lparr>item_value = ''no-match-maxtime'', item_key = 9\<rparr>,
      \<lparr>item_value = ''gram-definition-failure'', item_key = 5\<rparr>]"

definition v2_recog_completion_cause_string_table :: "apt_str_table_item list" where
  "v2_recog_completion_cause_string_table =
     [\<lparr>item_value = ''success'', item_key = 7\<rparr>, \<lparr>item_value = ''no-match'', item_key = 4\<rparr>,
      \<lparr>item_value = ''no-input-timeout'', item_key = 3\<rparr>, \<lparr>item_value = ''hotword-maxtime'', item_key = 0\<rparr>,
      \<lparr>item_value = ''grammar-load-failure'', item_key = 8\<rparr>, \<lparr>item_value = ''grammar-compilation-failure'', item_key = 8\<rparr>,
      \<lparr>item_value = ''recognizer-error'', item_key = 0\<rparr>, \<lparr>item_value = ''speech-too-early'', item_key = 1\<rparr>,
      \<lparr>item_value = ''success-maxtime'', item_key = 15\<rparr>, \<lparr>item_value = ''uri-failure'', item_key = 0\<rparr>,
      \<lparr>item_value = ''language-unsupported'', item_key = 0\<rparr>, \<lparr>item_value = ''cancelled'', item_key = 0\<rparr>,
      \<lparr>item_value = ''semantics-failure'', item_key = 2\<rparr>, \<lparr>item_value = ''partial-match'', item_key = 13\<rparr>,
      \<lparr>item_value = ''partial-match-maxtime'', item_key = 13\<rparr>, \<lparr>item_value = ''no-match-maxtime'', item_key = 9\<rparr>,
      \<lparr>item_value = ''grammar-definition-failure'', item_key = 9\<rparr>]"

definition v1_recog_method_string_table :: "apt_str_table_item list" where
  "v1_recog_method_string_table =
     [\<lparr>item_value = ''SET-PARAMS'', item_key = 10\<rparr>, \<lparr>item_value = ''GET-PARAMS'', item_key = 10\<rparr>,
      \<lparr>item_value = ''DEFINE-GRAMMAR'', item_key = 2\<rparr>, \<lparr>item_value = ''RECOGNIZE'', item_key = 7\<rparr>,
      \<lparr>item_value = ''INTERPRET'', item_key = 0\<rparr>, \<lparr>item_value = ''GET-RESULT'', item_key = 6\<rparr>,
      \<lparr>item_value = ''RECOGNITION-START-TIMERS'', item_key = 7\<rparr>, \<lparr>item_value = ''STOP'', item_key = 2\<rparr>,
      \<lparr>item_value = ''START-PHRASE-ENROLLMENT'', item_key = 2\<rparr>, \<lparr>item_value = ''ENROLLMENT-ROLLBACK'', item_key = 2\<rparr>,
      \<lparr>item_value = ''END-PHRASE-ENROLLMENT'', item_key = 5\<rparr>, \<lparr>item_value = ''MODIFY-PHRASE'', item_key = 0\<rparr>,
      \<lparr>item_value = ''DELETE-PHRASE'', item_key = 2\<rparr>]"

definition v2_recog_method_string_table :: "apt_str_table_item list" where
  "v2_recog_method_string_table =
     [\<lparr>item_value = ''SET-PARAMS'', item_key = 10\<rparr>, \<lparr>item_value = ''GET-PARAMS'', item_key = 10\<rparr>,
      \<lparr>item_value = ''DEFINE-GRAMMAR'', item_key = 2\<rparr>, \<lparr>item_value = ''RECOGNIZE'', item_key = 0\<rparr>,
      \<lparr>item_value = ''INTERPRET'', item_key = 0\<rparr>, \<lparr>item_value = ''GET-RESULT'', item_key = 6\<rparr>,
      \<lparr>item_value = ''START-INPUT-TIMERS'', item_key = 7\<rparr>, \<lparr>item_value = ''STOP'', item_key = 2\<rparr>,
      \<lparr>item_value = ''START-PHRASE-ENROLLMENT'', item_key = 6\<rparr>, \<lparr>item_value = ''ENROLLMENT-ROLLBACK'', item_key = 2\<rparr>,
      \<lparr>item_value = ''END-PHRASE-ENROLLMENT'', item_key = 5\<rparr>, \<lparr>item_value = ''MODIFY-PHRASE'', item_key = 0\<rparr>,
      \<lparr>item_value = ''DELETE-PHRASE'', item_key = 2\<rparr>]"

definition v1_recog_event_string_table :: "apt_str_table_item list" where
  "v1_recog_event_string_table =
     [\<lparr>item_value = ''START-OF-SPEECH'', item_key = 0\<rparr>, \<lparr>item_value = ''RECOGNITION-COMPLETE'', item_key = 0\<rparr>,
      \<lparr>item_value = ''INTERPRETATION-COMPLETE'', item_key = 0\<rparr>]"

definition v2_recog_event_string_table :: "apt_str_table_item list" where
  "v2_recog_event_string_table =
     [\<lparr>item_value = ''START-OF-INPUT'', item_key = 0\<rparr>, \<lparr>item_value = ''RECOGNITION-COMPLETE'', item_key = 0\<rparr>,
      \<lparr>item_value = ''INTERPRETATION-COMPLETE'', item_key = 0\<rparr>]"

section \<open>The header\<close>

record 'f mrcp_recog_header =
  confidence_threshold :: "'f"
  sensitivity_level :: "'f"
  speed_vs_accuracy :: "'f"
  n_best_list_length :: nat
  no_input_timeout :: nat
  recognition_timeout :: nat
  waveform_uri :: apt_str
  completion_cause :: nat
  recognizer_context_block :: apt_str
  start_input_timers :: bool
  speech_complete_timeout :: nat
  speech_incomplete_timeout :: nat
  dtmf_interdigit_timeout :: nat
  dtmf_term_timeout :: nat
  dtmf_term_char :: char
  failed_uri :: apt_str
  failed_uri_cause :: apt_str
  save_waveform :: bool
  new_audio_channel :: bool
  speech_language :: apt_str
  input_type :: apt_str
  input_waveform_uri :: apt_str
  completion_reason :: apt_str
  media_type :: apt_str
  ver_buffer_utterance :: bool
  recognition_mode :: apt_str
  cancel_if_queue :: bool
  hotword_max_duration :: nat
  hotword_min_duration :: nat
  interpret_text :: apt_str
  dtmf_buffer_time :: nat
  clear_dtmf_buffer :: bool
  early_no_match :: bool
  num_min_consistent_pronunciations :: nat
  consistency_threshold :: "'f"
  clash_threshold :: "'f"
  personal_grammar_uri :: apt_str
  enroll_utterance :: bool
  phrase_id :: apt_str
  phrase_nl :: apt_str
  weight :: "'f"
  save_best_waveform :: bool
  new_phrase_id :: apt_str
  confusable_phrases_uri :: apt_str
  abort_phrase_enrollment :: bool

definition mrcp_recog_header_init :: "'f float_ops \<Rightarrow> 'f mrcp_recog_header" where
  "mrcp_recog_header_init fo =
     \<lparr>confidence_threshold = flt_zero fo,
      sensitivity_level = flt_zero fo,
      speed_vs_accuracy = flt_zero fo,
      n_best_list_length = 0,
      no_input_timeout = 0,
      recognition_timeout = 0,
      waveform_uri = [],
      completion_cause = RECOGNIZER_COMPLETION_CAUSE_COUNT,
      recognizer_context_block = [],
      start_input_timers = False,
      speech_complete_timeout = 0,
      speech_incomplete_timeout = 0,
      dtmf_interdigit_timeout = 0,
      dtmf_term_timeout = 0,
      dtmf_term_char = APT_NUL,
      failed_uri = [],
      failed_uri_cause = [],
      save_waveform = False,
      new_audio_channel = False,
      speech_language = [],
      input_type = [],
      input_waveform_uri = [],
      completion_reason = [],
      media_type = [],
      ver_buffer_utterance = False,
      recognition_mode = [],
      cancel_if_queue = False,
      hotword_max_duration = 0,
      hotword_min_duration = 0,
      interpret_text = [],
      dtmf_buffer_time = 0,
      clear_dtmf_buffer = False,
      early_no_match = False,
      num_min_consistent_pronunciations = 0,
      consistency_threshold = flt_zero fo,
      clash_threshold = flt_zero fo,
      personal_grammar_uri = [],
      enroll_utterance = False,
      phrase_id = [],
      phrase_nl = [],
      weight = flt_zero fo,
      save_best_waveform = False,
      new_phrase_id = [],
      confusable_phrases_uri = [],
      abort_phrase_enrollment = False\<rparr>"

definition mrcp_recog_header_parse :: "'f float_ops \<Rightarrow> 'f mrcp_recog_header \<Rightarrow> nat \<Rightarrow> apt_str \<Rightarrow> bool \<times> 'f mrcp_recog_header" where
  "mrcp_recog_header_parse fo d k val =
     (if k = 3 then (True, d\<lparr>n_best_list_length := apt_size_value_parse val\<rparr>)
      else if k = 4 then (True, d\<lparr>no_input_timeout := apt_size_value_parse val\<rparr>)
      else if k = 5 then (True, d\<lparr>recognition_timeout := apt_size_value_parse val\<rparr>)
      else if k = 6 then (True, d\<lparr>waveform_uri := val\<rparr>)
      else if k = 7 then (True, d\<lparr>completion_cause := enum_of_size (apt_size_value_parse val)\<rparr>)
      else if k = 8 then (True, d\<lparr>recognizer_context_block := val\<rparr>)
      else if k = 9 then (True, d\<lparr>start_input_timers := boolean_value_read val (start_input_timers d)\<rparr>)
      else if k = 10 then (True, d\<lparr>speech_complete_timeout := apt_size_value_parse val\<rparr>)
      else if k = 11 then (True, d\<lparr>speech_incomplete_timeout := apt_size_value_parse val\<rparr>)
      else if k = 12 then (True, d\<lparr>dtmf_interdigit_timeout := apt_size_value_parse val\<rparr>)
      else if k = 13 then (True, d\<lparr>dtmf_term_timeout := apt_size_value_parse val\<rparr>)
      else if k = 14 then (True, d\<lparr>dtmf_term_char := (if val = [] then APT_NUL else hd val)\<rparr>)
      else if k = 15 then (True, d\<lparr>failed_uri := val\<rparr>)
      else if k = 16 then (True, d\<lparr>failed_uri_cause := val\<rparr>)
      else if k = 17 then (True, d\<lparr>save_waveform := boolean_value_read val (save_waveform d)\<rparr>)
      else if k = 18 then (True, d\<lparr>new_audio_channel := boolean_value_read val (new_audio_channel d)\<rparr>)
      else if k = 19 then (True, d\<lparr>speech_language := val\<rparr>)
      else if k = 20 then (True, d\<lparr>input_type := val\<rparr>)
      else if k = 21 then (True, d\<lparr>input_waveform_uri := val\<rparr>)
      else if k = 22 then (True, d\<lparr>completion_reason := val\<rparr>)
      else if k = 23 then (True, d\<lparr>media_type := val\<rparr>)
      else if k = 24 then (True, d\<lparr>ver_buffer_utterance := boolean_value_read val (ver_buffer_utterance d)\<rparr>)
      else if k = 25 then (True, d\<lparr>recognition_mode := val\<rparr>)
      else if k = 26 then (True, d\<lparr>cancel_if_queue := boolean_value_read val (cancel_if_queue d)\<rparr>)
      else if k = 27 then (True, d\<lparr>hotword_max_duration := apt_size_value_parse val\<rparr>)
      else if k = 28 then (True, d\<lparr>hotword_min_duration := apt_size_value_parse val\<rparr>)
      else if k = 29 then (True, d\<lparr>interpret_text := val\<rparr>)
      else if k = 30 then (True, d\<lparr>dtmf_buffer_time := apt_size_value_parse val\<rparr>)
      else if k = 31 then (True, d\<lparr>clear_dtmf_buffer := boolean_value_read val (clear_dtmf_buffer d)\<rparr>)
      else if k = 32 then (True, d\<lparr>early_no_match := boolean_value_read val (early_no_match d)\<rparr>)
      else if k = 33 then (True, d\<lparr>num_min_consistent_pronunciations := apt_size_value_parse val\<rparr>)
      else if k = 34 then (True, d\<lparr>consistency_threshold := apt_float_value_parse fo val\<rparr>)
      else if k = 35 then (True, d\<lparr>clash_threshold := apt_float_value_parse fo val\<rparr>)
      else if k = 36 then (True, d\<lparr>personal_grammar_uri := val\<rparr>)
      else if k = 37 then (True, d\<lparr>enroll_utterance := boolean_value_read val (enroll_utterance d)\<rparr>)
      else if k = 38 then (True, d\<lparr>phrase_id := val\<rparr>)
      else if k = 39 then (True, d\<lparr>phrase_nl := val\<rparr>)
      else if k = 40 then (True, d\<lparr>weight := apt_float_value_parse fo val\<rparr>)
      else if k = 41 then (True, d\<lparr>save_best_waveform := boolean_value_read val (save_best_waveform d)\<rparr>)
      else if k = 42 then (True, d\<lparr>new_phrase_id := val\<rparr>)
      else if k = 43 then (True, d\<lparr>confusable_phrases_uri := val\<rparr>)
      else if k = 44 then (True, d\<lparr>abort_phrase_enrollment := boolean_value_read val (abort_phrase_enrollment d)\<rparr>)
      else (False, d))"

definition apt_size_value_parse_as_float :: "'f float_ops \<Rightarrow> apt_str \<Rightarrow> 'f" where
  "apt_size_value_parse_as_float fo val = flt_div fo (flt_of_size fo (apt_size_value_parse val)) (flt_hundred fo)"

definition apt_size_value_generate_from_float :: "apr_fmt \<Rightarrow> 'f float_ops \<Rightarrow> 'f \<Rightarrow> apt_str" where
  "apt_size_value_generate_from_float apr fo v =
     apt_size_value_generate apr (flt_to_size fo (flt_mul fo (flt_add fo v (flt_milli fo)) (flt_hundred fo)))"

definition mrcp_v1_recog_header_parse ::
  "'f float_ops \<Rightarrow> 'f mrcp_recog_header \<Rightarrow> nat \<Rightarrow> apt_str \<Rightarrow> bool \<times> 'f mrcp_recog_header"
where
  "mrcp_v1_recog_header_parse fo d k val =
     (if k = 0 then (True, d\<lparr>confidence_threshold := apt_size_value_parse_as_float fo val\<rparr>)
      else if k = 1 then (True, d\<lparr>sensitivity_level := apt_size_value_parse_as_float fo val\<rparr>)
      else if k = 2 then (True, d\<lparr>speed_vs_accuracy := apt_size_value_parse_as_float fo val\<rparr>)
      else mrcp_recog_header_parse fo d k val)"

definition mrcp_v2_recog_header_parse ::
  "'f float_ops \<Rightarrow> 'f mrcp_recog_header \<Rightarrow> nat \<Rightarrow> apt_str \<Rightarrow> bool \<times> 'f mrcp_recog_header"
where
  "mrcp_v2_recog_header_parse fo d k val =
     (if k = 0 then (True, d\<lparr>confidence_threshold := apt_float_value_parse fo val\<rparr>)
      else if k = 1 then (True, d\<lparr>sensitivity_level := apt_float_value_parse fo val\<rparr>)
      else if k = 2 then (True, d\<lparr>speed_vs_accuracy := apt_float_value_parse fo val\<rparr>)
      else mrcp_recog_header_parse fo d k val)"

definition mrcp_recog_header_generate :: "apr_fmt \<Rightarrow> 'f float_ops \<Rightarrow> 'f mrcp_recog_header \<Rightarrow> nat \<Rightarrow> (bool \<times> apt_str) option" where
  "mrcp_recog_header_generate apr fo d k =
     (if k = 3 then Some (True, apt_size_value_generate apr (n_best_list_length d))
      else if k = 4 then Some (True, apt_size_value_generate apr (no_input_timeout d))
      else if k = 5 then Some (True, apt_size_value_generate apr (recognition_timeout d))
      else if k = 6 then Some (True, waveform_uri d)
      else if k = 8 then Some (True, recognizer_context_block d)
      else if k = 9 then Some (True, apt_boolean_value_generate (start_input_timers d))
      else if k = 10 then Some (True, apt_size_value_generate apr (speech_complete_timeout d))
      else if k = 11 then Some (True, apt_size_value_generate apr (speech_incomplete_timeout d))
      else if k = 12 then Some (True, apt_size_value_generate apr (dtmf_interdigit_timeout d))
      else if k = 13 then Some (True, apt_size_value_generate apr (dtmf_term_timeout d))
      else if k = 14 then Some (True, [dtmf_term_char d])
      else if k = 15 then Some (True, failed_uri d)
      else if k = 16 then Some (True, failed_uri_cause d)
      else if k = 17 then Some (True, apt_boolean_value_generate (save_waveform d))
      else if k = 18 then Some (True, apt_boolean_value_generate (new_audio_channel d))
      else if k = 19 then Some (True, speech_language d)
      else if k = 20 then Some (True, input_type d)
      else if k = 21 then Some (True, input_waveform_uri d)
      else if k = 22 then Some (True, completion_reason d)
      else if k = 23 then Some (True, media_type d)
      else if k = 24 then Some (True, apt_boolean_value_generate (ver_buffer_utterance d))
      else if k = 25 then Some (True, recognition_mode d)
      else if k = 26 then Some (True, apt_boolean_value_generate (cancel_if_queue d))
      else if k = 27 then Some (True, apt_size_value_generate apr (hotword_max_duration d))
      else if k = 28 then Some (True, apt_size_value_generate apr (hotword_min_duration d))
      else if k = 29 then Some (True, interpret_text d)
      else if k = 30 then Some (True, apt_size_value_generate apr (dtmf_buffer_time d))
      else if k = 31 then Some (True, apt_boolean_value_generate (clear_dtmf_buffer d))
      else if k = 32 then Some (True, apt_boolean_value_generate (early_no_match d))
      else if k = 33 then Some (True, apt_size_value_generate apr (num_min_consistent_pronunciations d))
      else if k = 34 then Some (True, apt_float_value_generate fo (consistency_threshold d))
      else if k = 35 then Some (True, apt_float_value_generate fo (clash_threshold d))
      else if k = 36 then Some (True, personal_grammar_uri d)
      else if k = 37 then Some (True, apt_boolean_value_generate (enroll_utterance d))
      else if k = 38 then Some (True, phrase_id d)
      else if k = 39 then Some (True, phrase_nl d)
      else if k = 40 then Some (True, apt_float_value_generate fo (weight d))
      else if k = 41 then Some (True, apt_boolean_value_generate (save_best_waveform d))
      else if k = 42 then Some (True, new_phrase_id d)
      else if k = 43 then Some (True, confusable_phrases_uri d)
      else if k = 44 then Some (True, apt_boolean_value_generate (abort_phrase_enrollment d))
      else Some (True, []))"

definition mrcp_v1_recog_header_generate ::
  "apr_fmt \<Rightarrow> 'f float_ops \<Rightarrow> 'f mrcp_recog_header \<Rightarrow> nat \<Rightarrow> (bool \<times> apt_str) option"
where
  "mrcp_v1_recog_header_generate apr fo d k =
     (if k = 0 then Some (True, apt_size_value_generate_from_float apr fo (confidence_threshold d))
      else if k = 1 then Some (True, apt_size_value_generate_from_float apr fo (sensitivity_level d))
      else if k = 2 then Some (True, apt_size_value_generate_from_float apr fo (speed_vs_accuracy d))
      else if k = 7 then
        (case apt_completion_cause_generate v1_recog_completion_cause_string_table RECOGNIZER_COMPLETION_CAUSE_COUNT
                (completion_cause d) of
           None \<Rightarrow> Some (False, []) | Some v \<Rightarrow> Some (True, v))
      else mrcp_recog_header_generate apr fo d k)"

definition mrcp_v2_recog_header_generate ::
  "apr_fmt \<Rightarrow> 'f float_ops \<Rightarrow> 'f mrcp_recog_header \<Rightarrow> nat \<Rightarrow> (bool \<times> apt_str) option"
where
  "mrcp_v2_recog_header_generate apr fo d k =
     (if k = 0 then Some (True, apt_float_value_generate fo (confidence_threshold d))
      else if k = 1 then Some (True, apt_float_value_generate fo (sensitivity_level d))
      else if k = 2 then Some (True, apt_float_value_generate fo (speed_vs_accuracy d))
      else if k = 7 then
        (case apt_completion_cause_generate v2_recog_completion_cause_string_table RECOGNIZER_COMPLETION_CAUSE_COUNT
                (completion_cause d) of
           None \<Rightarrow> Some (False, []) | Some v \<Rightarrow> Some (True, v))
      else mrcp_recog_header_generate apr fo d k)"

definition mrcp_recog_header_duplicate ::
  "'f mrcp_recog_header option \<Rightarrow> 'f mrcp_recog_header option \<Rightarrow> nat \<Rightarrow> apt_str \<Rightarrow> bool \<times> 'f mrcp_recog_header option"
where
  "mrcp_recog_header_duplicate dst source k val =
     (case (dst, source) of
        (Some d, Some src) \<Rightarrow>
     (if k = 0 then (True, Some (d\<lparr>confidence_threshold := confidence_threshold src\<rparr>))
      else if k = 1 then (True, Some (d\<lparr>sensitivity_level := sensitivity_level src\<rparr>))
      else if k = 2 then (True, Some (d\<lparr>speed_vs_accuracy := speed_vs_accuracy src\<rparr>))
      else if k = 3 then (True, Some (d\<lparr>n_best_list_length := n_best_list_length src\<rparr>))
      else if k = 4 then (True, Some (d\<lparr>no_input_timeout := no_input_timeout src\<rparr>))
      else if k = 5 then (True, Some (d\<lparr>recognition_timeout := recognition_timeout src\<rparr>))
      else if k = 6 then (True, Some (d\<lparr>waveform_uri := val\<rparr>))
      else if k = 7 then (True, Some (d\<lparr>completion_cause := completion_cause src\<rparr>))
      else if k = 8 then (True, Some (d\<lparr>recognizer_context_block := val\<rparr>))
      else if k = 9 then (True, Some (d\<lparr>start_input_timers := start_input_timers src\<rparr>))
      else if k = 10 then (True, Some (d\<lparr>speech_complete_timeout := speech_complete_timeout src\<rparr>))
      else if k = 11 then (True, Some (d\<lparr>speech_incomplete_timeout := speech_incomplete_timeout src\<rparr>))
      else if k = 12 then (True, Some (d\<lparr>dtmf_interdigit_timeout := dtmf_interdigit_timeout src\<rparr>))
      else if k = 13 then (True, Some (d\<lparr>dtmf_term_timeout := dtmf_term_timeout src\<rparr>))
      else if k = 14 then (True, Some (d\<lparr>dtmf_term_char := dtmf_term_char src\<rparr>))
      else if k = 15 then (True, Some (d\<lparr>failed_uri := val\<rparr>))
      else if k = 16 then (True, Some (d\<lparr>failed_uri_cause := val\<rparr>))
      else if k = 17 then (True, Some (d\<lparr>save_waveform := save_waveform src\<rparr>))
      else if k = 18 then (True, Some (d\<lparr>new_audio_channel := new_audio_channel src\<rparr>))
      else if k = 19 then (True, Some (d\<lparr>speech_language := val\<rparr>))
      else if k = 20 then (True, Some (d\<lparr>input_type := val\<rparr>))
      else if k = 21 then (True, Some (d\<lparr>input_waveform_uri := val\<rparr>))
      else if k = 22 then (True, Some (d\<lparr>completion_reason := val\<rparr>))
      else if k = 23 then (True, Some (d\<lparr>media_type := val\<rparr>))
      else if k = 24 then (True, Some (d\<lparr>ver_buffer_utterance := ver_buffer_utterance src\<rparr>))
      else if k = 25 then (True, Some (d\<lparr>recognition_mode := val\<rparr>))
      else if k = 26 then (True, Some (d\<lparr>cancel_if_queue := cancel_if_queue src\<rparr>))
      else if k = 27 then (True, Some (d\<lparr>hotword_max_duration := hotword_max_duration src\<rparr>))
      else if k = 28 then (True, Some (d\<lparr>hotword_min_duration := hotword_min_duration src\<rparr>))
      else if k = 29 then (True, Some (d\<lparr>interpret_text := val\<rparr>))
      else if k = 30 then (True, Some (d\<lparr>dtmf_buffer_time := dtmf_buffer_time src\<rparr>))
      else if k = 31 then (True, Some (d\<lparr>clear_dtmf_buffer := clear_dtmf_buffer src\<rparr>))
      else if k = 32 then (True, Some (d\<lparr>early_no_match := early_no_match src\<rparr>))
      else if k = 33 then (True, Some (d\<lparr>num_min_consistent_pronunciations := num_min_consistent_pronunciations src\<rparr>))
      else if k = 34 then (True, Some (d\<lparr>consistency_threshold := consistency_threshold src\<rparr>))
      else if k = 35 then (True, Some (d\<lparr>clash_threshold := clash_threshold src\<rparr>))
      else if k = 36 then (True, Some (d\<lparr>personal_grammar_uri := val\<rparr>))
      else if k = 37 then (True, Some (d\<lparr>enroll_utterance := enroll_utterance src\<rparr>))
      else if k = 38 then (True, Some (d\<lparr>phrase_id := val\<rparr>))
      else if k = 39 then (True, Some (d\<lparr>phrase_nl := val\<rparr>))
      else if k = 40 then (True, Some (d\<lparr>weight := weight src\<rparr>))
      else if k = 41 then (True, Some (d\<lparr>save_best_waveform := save_best_waveform src\<rparr>))
      else if k = 42 then (True, Some (d\<lparr>new_phrase_id := val\<rparr>))
      else if k = 43 then (True, Some (d\<lparr>confusable_phrases_uri := val\<rparr>))
      else if k = 44 then (True, Some (d\<lparr>abort_phrase_enrollment := abort_phrase_enrollment src\<rparr>))
      else (False, Some d))
      | _ \<Rightarrow> (False, dst))"

definition mrcp_recog_header_vtable_get ::
  "apr_fmt \<Rightarrow> 'f float_ops \<Rightarrow> mrcp_version_e \<Rightarrow> 'f mrcp_recog_header mrcp_header_vtable"
where
  "mrcp_recog_header_vtable_get apr fo v =
     (if v = MRCP_VERSION_1 then
        \<lparr>allocate = Some (mrcp_recog_header_init fo), parse_field = mrcp_v1_recog_header_parse fo,
         generate_field = mrcp_v1_recog_header_generate apr fo, duplicate_field = mrcp_recog_header_duplicate,
         field_table = v1_recog_header_string_table, field_count = RECOGNIZER_HEADER_COUNT\<rparr>
      else
        \<lparr>allocate = Some (mrcp_recog_header_init fo), parse_field = mrcp_v2_recog_header_parse fo,
         generate_field = mrcp_v2_recog_header_generate apr fo, duplicate_field = mrcp_recog_header_duplicate,
         field_table = v2_recog_header_string_table, field_count = RECOGNIZER_HEADER_COUNT\<rparr>)"

definition mrcp_recog_completion_cause_get :: "nat \<Rightarrow> mrcp_version_e \<Rightarrow> apt_str option" where
  "mrcp_recog_completion_cause_get cause v =
     apt_string_table_str_get
       (if v = MRCP_VERSION_1 then v1_recog_completion_cause_string_table else v2_recog_completion_cause_string_table)
       RECOGNIZER_COMPLETION_CAUSE_COUNT cause"

section \<open>The resource\<close>

definition mrcp_recog_resource_create :: "apr_fmt \<Rightarrow> 'f float_ops \<Rightarrow> 'f mrcp_recog_header mrcp_resource" where
  "mrcp_recog_resource_create apr fo =
     \<lparr>res_id = 0, res_name = [], method_count = RECOGNIZER_METHOD_COUNT, event_count = RECOGNIZER_EVENT_COUNT,
      get_method_str_table = (\<lambda>v. if v = MRCP_VERSION_1 then v1_recog_method_string_table else v2_recog_method_string_table),
      get_event_str_table = (\<lambda>v. if v = MRCP_VERSION_1 then v1_recog_event_string_table else v2_recog_event_string_table),
      get_resource_header_vtable = (\<lambda>v. Some (mrcp_recog_header_vtable_get apr fo v))\<rparr>"

section \<open>Fields on the wire\<close>

text \<open>The fields that survive: not the floating point numbers, and sizes that fit into a signed 64-bit integer.\<close>

definition recog_wire_ok :: "apr_fmt \<Rightarrow> 'f mrcp_recog_header \<Rightarrow> nat \<Rightarrow> bool" where
  "recog_wire_ok apr d k \<longleftrightarrow>
     apr_fmt_ok apr \<and> k \<notin> {0, 1, 2, 34, 35, 40} \<and>
     (k = 3 \<longrightarrow> n_best_list_length d < 2 ^ 63) \<and>
     (k = 4 \<longrightarrow> no_input_timeout d < 2 ^ 63) \<and>
     (k = 5 \<longrightarrow> recognition_timeout d < 2 ^ 63) \<and>
     (k = 10 \<longrightarrow> speech_complete_timeout d < 2 ^ 63) \<and>
     (k = 11 \<longrightarrow> speech_incomplete_timeout d < 2 ^ 63) \<and>
     (k = 12 \<longrightarrow> dtmf_interdigit_timeout d < 2 ^ 63) \<and>
     (k = 13 \<longrightarrow> dtmf_term_timeout d < 2 ^ 63) \<and>
     (k = 27 \<longrightarrow> hotword_max_duration d < 2 ^ 63) \<and>
     (k = 28 \<longrightarrow> hotword_min_duration d < 2 ^ 63) \<and>
     (k = 30 \<longrightarrow> dtmf_buffer_time d < 2 ^ 63) \<and>
     (k = 33 \<longrightarrow> num_min_consistent_pronunciations d < 2 ^ 63)"

lemma recog_names:
  "table_names_distinct v1_recog_header_string_table RECOGNIZER_HEADER_COUNT"
  "table_names_distinct v2_recog_header_string_table RECOGNIZER_HEADER_COUNT"
  by code_simp+

lemma recog_common_wire:
  assumes "k < 45" "k \<noteq> 7" "recog_wire_ok apr s k" "val \<noteq> []" "Some (True, val) = mrcp_recog_header_generate apr fo s k"
  shows "\<exists>d'. mrcp_recog_header_parse fo d k val = (True, d') \<and>
    mrcp_recog_header_duplicate (Some d) (Some s) k val = (True, Some d')"
proof (cases "k \<in> {0, 1, 2, 7, 34, 35, 40}")
  case True
  with assms(2,3) show ?thesis by (auto simp: recog_wire_ok_def)
next
  case False
  with assms(1) have "k \<in> {3, 4, 5, 6, 8, 9, 10, 11, 12, 13, 14, 15, 16, 17, 18, 19, 20, 21, 22, 23} \<or>
      k \<in> {24, 25, 26, 27, 28, 29, 30, 31, 32, 33, 36, 37, 38, 39, 41, 42, 43, 44}"
    unfolding numeral_cases by auto
  then show ?thesis
    using assms(3-) unfolding insert_iff empty_iff
    by - (elim disjE FalseE; hypsubst_thin; simp add: recog_wire_ok_def mrcp_recog_header_parse_def
      mrcp_recog_header_generate_def mrcp_recog_header_duplicate_def wire_simps)
qed

lemma recog_cause_wire:
  assumes "generate_field (mrcp_recog_header_vtable_get apr fo v) s 7 = Some (True, val)"
  shows "parse_field (mrcp_recog_header_vtable_get apr fo v) d 7 val = (True, d\<lparr>completion_cause := completion_cause s\<rparr>)"
  using assms
  by (auto simp: mrcp_recog_header_vtable_get_def mrcp_v1_recog_header_generate_def mrcp_v2_recog_header_generate_def
    mrcp_v1_recog_header_parse_def mrcp_v2_recog_header_parse_def mrcp_recog_header_parse_def
    RECOGNIZER_COMPLETION_CAUSE_COUNT_def dest: completion_cause_text(1) split: if_splits option.splits)

lemma recog_wire:
  assumes "k < RECOGNIZER_HEADER_COUNT" "recog_wire_ok apr s k" "val \<noteq> []"
    and "generate_field (mrcp_recog_header_vtable_get apr fo v) s k = Some (True, val)"
  shows "\<exists>d'. parse_field (mrcp_recog_header_vtable_get apr fo v) d k val = (True, d') \<and>
    duplicate_field (mrcp_recog_header_vtable_get apr fo v) (Some d) (Some s) k val = (True, Some d')"
proof (cases "k = 7")
  case True
  with assms(4) recog_cause_wire [of apr fo v s val d] show ?thesis
    by (simp add: mrcp_recog_header_vtable_get_def mrcp_recog_header_duplicate_def)
next
  case False
  have k: "k \<noteq> 0" "k \<noteq> 1" "k \<noteq> 2" "k < 45"
    using assms(1,2) by (auto simp: recog_wire_ok_def RECOGNIZER_HEADER_COUNT_def)
  then have "Some (True, val) = mrcp_recog_header_generate apr fo s k"
    using assms(4) [symmetric] False by (simp add: mrcp_recog_header_vtable_get_def mrcp_v1_recog_header_generate_def
      mrcp_v2_recog_header_generate_def split: if_splits)
  from recog_common_wire [OF k(4) False assms(2,3) this] k show ?thesis
    by (simp add: mrcp_recog_header_vtable_get_def mrcp_v1_recog_header_parse_def mrcp_v2_recog_header_parse_def)
qed

interpretation recog_fields: header_contract "mrcp_recog_header_vtable_get apr fo v" "recog_wire_ok apr"
  for apr fo v
proof (unfold_locales, goal_cases)
  case 1
  show ?case using recog_names by (simp add: mrcp_recog_header_vtable_get_def)
next
  case (2 k s val d)
  then show ?case by (intro recog_wire) (simp_all add: mrcp_recog_header_vtable_get_def split: if_splits)
qed

lemma recog_apart:
  "table_without v1_recog_header_string_table generic_header_string_table"
  "table_without v2_recog_header_string_table generic_header_string_table"
  by code_simp+

interpretation recog_message: message_contract "mrcp_recog_header_vtable_get apr fo v" "recog_wire_ok apr"
  for apr fo v
  using recog_apart by unfold_locales (simp add: mrcp_recog_header_vtable_get_def)


text \<open>A header with two fields of the recognizer and one of the generic header.\<close>

definition recog_example :: "unit mrcp_recog_header mrcp_message_header" where
  "recog_example =
     \<lparr>generic_header_accessor =
        \<lparr>acc_data = Some (mrcp_generic_header_init\<lparr>content_type := ''text/plain''\<rparr>),
         acc_vtable = Some (mrcp_generic_header_vtable_get apr_std)\<rparr>,
      resource_header_accessor =
        \<lparr>acc_data = Some ((mrcp_recog_header_init float_unit)\<lparr>no_input_timeout := 30, save_waveform := True\<rparr>),
         acc_vtable = Some (mrcp_recog_header_vtable_get apr_std float_unit MRCP_VERSION_2)\<rparr>,
      header_section =
        \<lparr>hs_ring =
           [(0, \<lparr>hf_name = ''No-Input-Timeout'', hf_value = ''30'', hf_id = 20\<rparr>), (1, \<lparr>hf_name = ''Save-Waveform'', hf_value = ''true'', hf_id = 33\<rparr>),
            (2, \<lparr>hf_name = ''Content-Type'', hf_value = ''text/plain'', hf_id = 3\<rparr>)],
         hs_arr = []\<rparr>\<rparr>"

lemma recog_example_digits: "dec 30 = ''30''"
  by code_simp

lemma recog_example_generate:
  "mrcp_header_field_value_generate (resource_header_accessor recog_example) 4 False =
     Some (Some \<lparr>hf_name = ''No-Input-Timeout'', hf_value = ''30'', hf_id = UNKNOWN_HEADER_FIELD_ID\<rparr>)"
  "mrcp_header_field_value_generate (resource_header_accessor recog_example) 17 False =
     Some (Some \<lparr>hf_name = ''Save-Waveform'', hf_value = ''true'', hf_id = UNKNOWN_HEADER_FIELD_ID\<rparr>)"
  "mrcp_header_field_value_generate (generic_header_accessor recog_example) 3 False =
     Some (Some \<lparr>hf_name = ''Content-Type'', hf_value = ''text/plain'', hf_id = UNKNOWN_HEADER_FIELD_ID\<rparr>)"
  by (simp_all add: mrcp_header_field_value_generate_def recog_example_def mrcp_recog_header_vtable_get_def mrcp_v2_recog_header_generate_def mrcp_recog_header_generate_def v2_recog_header_string_table_def RECOGNIZER_HEADER_COUNT_def
    mrcp_generic_header_vtable_get_def mrcp_generic_header_generate_def generic_header_string_table_def
    GENERIC_HEADER_COUNT_def apt_string_table_str_get_def apt_header_field_alloc_def apt_boolean_value_generate_def
    apt_size_value_generate_def apr_std_def recog_example_digits TOKEN_TRUE_def)

lemma recog_example_sent:
  "header_sent apr_std (mrcp_recog_header_vtable_get apr_std float_unit MRCP_VERSION_2) (recog_wire_ok apr_std) recog_example"
proof -
  let ?n = "field_count (mrcp_recog_header_vtable_get apr_std float_unit MRCP_VERSION_2)"
  have "header_ready apr_std (mrcp_recog_header_vtable_get apr_std float_unit MRCP_VERSION_2) recog_example"
    by (simp add: header_ready_def recog_example_def)
  moreover have "resource_sent ?n (recog_wire_ok apr_std) recog_example
      \<lparr>hf_name = ''No-Input-Timeout'', hf_value = ''30'', hf_id = 20\<rparr>"
    unfolding resource_sent_def
    by (rule exI [of _ 4]) (simp add: recog_example_generate apr_std_ok recog_wire_ok_def
      mrcp_recog_header_vtable_get_def RECOGNIZER_HEADER_COUNT_def GENERIC_HEADER_COUNT_def, simp add: recog_example_def)
  moreover have "resource_sent ?n (recog_wire_ok apr_std) recog_example
      \<lparr>hf_name = ''Save-Waveform'', hf_value = ''true'', hf_id = 33\<rparr>"
    unfolding resource_sent_def
    by (rule exI [of _ 17]) (simp add: recog_example_generate apr_std_ok recog_wire_ok_def
      mrcp_recog_header_vtable_get_def RECOGNIZER_HEADER_COUNT_def GENERIC_HEADER_COUNT_def, simp add: recog_example_def)
  moreover have "generic_sent apr_std recog_example \<lparr>hf_name = ''Content-Type'', hf_value = ''text/plain'', hf_id = 3\<rparr>"
    unfolding generic_sent_def
    by (simp add: recog_example_generate apr_std_ok generic_wire_ok_def GENERIC_HEADER_COUNT_def) (simp add: recog_example_def)
  moreover have "list_all (\<lambda>f. field_ok (snd f)) (hs_ring (header_section recog_example))" by code_simp
  ultimately show ?thesis by (auto simp: header_sent_def recog_example_def)
qed


end
