(* ===== verification/Mrcp_Recog_State_Machine.thy ===== *)
theory Mrcp_Recog_State_Machine
  imports Mrcp_State_Machine Mrcp_Recog_Resource
begin

text \<open>
  The state machine of the recognizer: \<open>libs/mrcp-engine/src/mrcp_recog_state_machine.c\<close>. A handler takes the machine
  and a message and returns the result and the new machine, or \<^const>\<open>None\<close> when it follows a NULL pointer.
\<close>

section \<open>The machine\<close>

datatype mrcp_recog_state_e = RECOGNIZER_STATE_IDLE | RECOGNIZER_STATE_RECOGNIZING | RECOGNIZER_STATE_RECOGNIZED

type_synonym 'f recog_message = "'f mrcp_recog_header mrcp_message"

record 'f mrcp_recog_state_machine = "'f mrcp_recog_header mrcp_message mrcp_state_machine" +
  state :: mrcp_recog_state_e
  is_pending :: bool
  active_request :: "'f recog_message option"
  recog :: "'f recog_message option"
  queue :: "'f recog_message list"
  properties :: "'f mrcp_recog_header mrcp_message_header"

type_synonym 'f recog_method =
  "'f mrcp_recog_state_machine \<Rightarrow> 'f recog_message \<Rightarrow> (bool \<times> 'f mrcp_recog_state_machine) option"

definition recog_request_dispatch :: "'f recog_method" where
  "recog_request_dispatch sm m = call_on_dispatch m (sm\<lparr>active_request := Some m\<rparr>)"

definition recog_response_dispatch :: "'f recog_method" where
  "recog_response_dispatch sm m =
     (let sm = sm\<lparr>active_request := None\<rparr>
      in if \<not> active sm then call_on_deactivate sm else call_on_dispatch m sm)"

definition recog_event_dispatch :: "'f recog_method" where
  "recog_event_dispatch sm m = (if \<not> active sm then Some (False, sm) else call_on_dispatch m sm)"

definition recog_state_change :: "mrcp_recog_state_e \<Rightarrow> 'f mrcp_recog_state_machine \<Rightarrow> 'f mrcp_recog_state_machine" where
  "recog_state_change st sm =
     (let sm = sm\<lparr>state := st\<rparr> in if st = RECOGNIZER_STATE_IDLE then sm\<lparr>recog := None\<rparr> else sm)"

section \<open>Requests, responses and events\<close>

definition recog_request_set_params :: "'f recog_method" where
  "recog_request_set_params sm m =
     recog_request_dispatch (sm\<lparr>properties := snd (mrcp_header_fields_set (properties sm) (header m))\<rparr>) m"

definition recog_response_set_params :: "'f recog_method" where
  "recog_response_set_params sm m = recog_response_dispatch sm m"

definition recog_request_get_params :: "'f recog_method" where
  "recog_request_get_params sm m = recog_request_dispatch sm m"

definition recog_response_get_params :: "'f recog_method" where
  "recog_response_get_params sm m = do {
     req \<leftarrow> active_request sm;
     recog_response_dispatch sm (m\<lparr>header := snd (mrcp_header_fields_get (header m) (properties sm) (header req))\<rparr>)
   }"

definition recog_request_define_grammar :: "apr_fmt \<Rightarrow> 'f recog_method" where
  "recog_request_define_grammar apr sm m =
     (if state sm = RECOGNIZER_STATE_RECOGNIZING then recog_response_dispatch sm (method_not_valid_response apr m)
      else if state sm = RECOGNIZER_STATE_RECOGNIZED then
        recog_request_dispatch (recog_state_change RECOGNIZER_STATE_IDLE sm) m
      else recog_request_dispatch sm m)"

definition recog_cause_ensure :: "'f recog_message \<Rightarrow> 'f recog_message option" where
  "recog_cause_ensure m =
     completion_cause_ensure RECOGNIZER_HEADER_COMPLETION_CAUSE
       (\<lambda>d. d\<lparr>completion_cause := RECOGNIZER_COMPLETION_CAUSE_SUCCESS\<rparr>) m"

definition recog_response_define_grammar :: "'f recog_method" where
  "recog_response_define_grammar sm m = do { m \<leftarrow> recog_cause_ensure m; recog_response_dispatch sm m }"

definition recog_request_recognize :: "apr_fmt \<Rightarrow> 'f recog_method" where
  "recog_request_recognize apr sm m =
     (let m = m\<lparr>header := snd (mrcp_header_fields_inherit (header m) (properties sm))\<rparr>
      in if state sm = RECOGNIZER_STATE_RECOGNIZING then
           (let m = request_state_set MRCP_REQUEST_STATE_PENDING m;
                response = request_state_set MRCP_REQUEST_STATE_PENDING (mrcp_response_create apr 0 (Some m))
            in recog_response_dispatch (sm\<lparr>queue := queue sm @ [m]\<rparr>) response)
         else recog_request_dispatch sm m)"

definition recog_response_recognize :: "'f recog_method" where
  "recog_response_recognize sm m =
     (let sm = (if request_state (start_line m) = MRCP_REQUEST_STATE_INPROGRESS
                then recog_state_change RECOGNIZER_STATE_RECOGNIZING (sm\<lparr>recog := active_request sm\<rparr>) else sm)
      in if is_pending sm then Some (True, sm\<lparr>is_pending := False\<rparr>) else recog_response_dispatch sm m)"

definition recog_request_interpret :: "'f recog_method" where
  "recog_request_interpret sm m =
     recog_request_dispatch sm (m\<lparr>header := snd (mrcp_header_fields_inherit (header m) (properties sm))\<rparr>)"

definition recog_response_interpret :: "'f recog_method" where
  "recog_response_interpret sm m = recog_response_dispatch sm m"

definition recog_request_get_result :: "apr_fmt \<Rightarrow> 'f recog_method" where
  "recog_request_get_result apr sm m =
     (if state sm = RECOGNIZER_STATE_RECOGNIZED then recog_request_dispatch sm m
      else recog_response_dispatch sm (method_not_valid_response apr m))"

definition recog_response_get_result :: "'f recog_method" where
  "recog_response_get_result sm m = recog_response_dispatch sm m"

definition recog_request_recognition_start_timers :: "apr_fmt \<Rightarrow> 'f recog_method" where
  "recog_request_recognition_start_timers apr sm m =
     (if state sm = RECOGNIZER_STATE_RECOGNIZING then recog_request_dispatch sm m
      else recog_response_dispatch sm (method_not_valid_response apr m))"

definition recog_response_recognition_start_timers :: "'f recog_method" where
  "recog_response_recognition_start_timers sm m = recog_response_dispatch sm m"

definition recog_pending_requests_remove ::
  "'f mrcp_recog_state_machine \<Rightarrow> 'f recog_message \<Rightarrow> 'f recog_message
    \<Rightarrow> ('f mrcp_recog_state_machine \<times> 'f recog_message) option"
where
  "recog_pending_requests_remove sm req resp = do {
     (q, resp) \<leftarrow> pending_requests_remove req resp (queue sm);
     Some (sm\<lparr>queue := q\<rparr>, resp)
   }"

definition recog_stop_immediately :: "apr_fmt \<Rightarrow> 'f recog_method" where
  "recog_stop_immediately apr sm m = do {
     (sm, response) \<leftarrow> recog_pending_requests_remove sm m (mrcp_response_create apr 0 (Some m));
     recog_response_dispatch sm response
   }"

definition recog_request_stop :: "apr_fmt \<Rightarrow> 'f recog_method" where
  "recog_request_stop apr sm m =
     (if state sm = RECOGNIZER_STATE_RECOGNIZING then
        (if stop_id_list m = None then recog_request_dispatch sm m
         else do {
           r \<leftarrow> recog sm;
           if stop_selects m (request_id (start_line r)) then recog_request_dispatch sm m
           else recog_stop_immediately apr sm m
         })
      else if state sm = RECOGNIZER_STATE_RECOGNIZED then
        recog_stop_immediately apr (recog_state_change RECOGNIZER_STATE_IDLE sm) m
      else recog_stop_immediately apr sm m)"

text \<open>The request at the head of the queue, when there is one, is sent to the engine.\<close>

definition recog_pending_dispatch ::
  "'f recog_message option \<Rightarrow> 'f mrcp_recog_state_machine \<Rightarrow> (bool \<times> 'f mrcp_recog_state_machine) option"
where
  "recog_pending_dispatch pending sm =
     (case pending of
        None \<Rightarrow> Some (True, sm)
      | Some p \<Rightarrow> do { (_, sm) \<leftarrow> recog_request_dispatch (sm\<lparr>is_pending := True\<rparr>) p; Some (True, sm) })"

definition recog_queue_pop :: "'f mrcp_recog_state_machine \<Rightarrow> 'f recog_message option \<times> 'f mrcp_recog_state_machine" where
  "recog_queue_pop sm = (case queue sm of [] \<Rightarrow> (None, sm) | p # q \<Rightarrow> (Some p, sm\<lparr>queue := q\<rparr>))"

definition recog_response_stop :: "'f recog_method" where
  "recog_response_stop sm m = do {
     r \<leftarrow> recog sm;
     m \<leftarrow> active_id_append (request_id (start_line r)) m;
     req \<leftarrow> active_request sm;
     (sm, m) \<leftarrow> recog_pending_requests_remove sm req m;
     let (pending, sm) = recog_queue_pop (recog_state_change RECOGNIZER_STATE_IDLE sm);
     (_, sm) \<leftarrow> recog_response_dispatch sm m;
     recog_pending_dispatch pending sm
   }"

definition recog_event_start_of_input :: "'f recog_method" where
  "recog_event_start_of_input sm m =
     (case recog sm of
        None \<Rightarrow> Some (False, sm)
      | Some r \<Rightarrow>
          if request_id (start_line r) \<noteq> request_id (start_line m) then Some (False, sm)
          else recog_event_dispatch sm (request_state_set MRCP_REQUEST_STATE_INPROGRESS m))"

definition recog_stop_outstanding :: "'f mrcp_recog_state_machine \<Rightarrow> bool" where
  "recog_stop_outstanding sm =
     (case active_request sm of None \<Rightarrow> False | Some a \<Rightarrow> method_id (start_line a) = RECOGNIZER_STOP)"

definition recog_event_recognition_complete :: "'f recog_method" where
  "recog_event_recognition_complete sm m =
     (case recog sm of
        None \<Rightarrow> Some (False, sm)
      | Some r \<Rightarrow>
          if request_id (start_line r) \<noteq> request_id (start_line m) then Some (False, sm)
          else if recog_stop_outstanding sm then Some (False, sm)
          else do {
            m \<leftarrow> recog_cause_ensure m;
            (_, sm) \<leftarrow> recog_event_dispatch (recog_state_change RECOGNIZER_STATE_RECOGNIZED sm) m;
            let (pending, sm) = recog_queue_pop sm;
            recog_pending_dispatch pending sm
          })"

definition recog_event_interpretation_complete :: "'f recog_method" where
  "recog_event_interpretation_complete sm m = do { m \<leftarrow> recog_cause_ensure m; recog_event_dispatch sm m }"

section \<open>Updating and deactivating\<close>

definition recog_request_method_array :: "apr_fmt \<Rightarrow> 'f recog_method list" where
  "recog_request_method_array apr =
     [recog_request_set_params, recog_request_get_params, recog_request_define_grammar apr, recog_request_recognize apr,
      recog_request_interpret, recog_request_get_result apr, recog_request_recognition_start_timers apr,
      recog_request_stop apr]"

definition recog_response_method_array :: "'f recog_method list" where
  "recog_response_method_array =
     [recog_response_set_params, recog_response_get_params, recog_response_define_grammar, recog_response_recognize,
      recog_response_interpret, recog_response_get_result, recog_response_recognition_start_timers, recog_response_stop]"

definition recog_event_method_array :: "'f recog_method list" where
  "recog_event_method_array =
     [recog_event_start_of_input, recog_event_recognition_complete, recog_event_interpretation_complete]"

definition recog_request_state_update :: "apr_fmt \<Rightarrow> 'f recog_method" where
  "recog_request_state_update apr sm m =
     (if RECOGNIZER_METHOD_COUNT \<le> method_id (start_line m) then Some (False, sm)
      else
        (case method_lookup (recog_request_method_array apr) (method_id (start_line m)) of
           Some f \<Rightarrow> f sm m | None \<Rightarrow> recog_request_dispatch sm m))"

definition recog_response_state_update :: "'f recog_method" where
  "recog_response_state_update sm m =
     (case active_request sm of
        None \<Rightarrow> Some (False, sm)
      | Some a \<Rightarrow>
          if request_id (start_line a) \<noteq> request_id (start_line m) then Some (False, sm)
          else if RECOGNIZER_METHOD_COUNT \<le> method_id (start_line m) then Some (False, sm)
          else
            (case method_lookup recog_response_method_array (method_id (start_line m)) of
               Some f \<Rightarrow> f sm m | None \<Rightarrow> recog_response_dispatch sm m))"

definition recog_event_state_update :: "'f recog_method" where
  "recog_event_state_update sm m =
     (if RECOGNIZER_EVENT_COUNT \<le> method_id (start_line m) then Some (False, sm)
      else
        (case method_lookup recog_event_method_array (method_id (start_line m)) of
           Some f \<Rightarrow> f sm m | None \<Rightarrow> recog_event_dispatch sm m))"

definition recog_state_update :: "apr_fmt \<Rightarrow> 'f recog_method" where
  "recog_state_update apr sm m =
     (case message_type (start_line m) of
        MRCP_MESSAGE_TYPE_REQUEST \<Rightarrow> recog_request_state_update apr sm m
      | MRCP_MESSAGE_TYPE_RESPONSE \<Rightarrow> recog_response_state_update sm m
      | MRCP_MESSAGE_TYPE_EVENT \<Rightarrow> recog_event_state_update sm m
      | _ \<Rightarrow> Some (False, sm))"

definition recog_state_deactivate ::
  "apr_fmt \<Rightarrow> 'f mrcp_recog_state_machine \<Rightarrow> (bool \<times> 'f mrcp_recog_state_machine) option"
where
  "recog_state_deactivate apr sm =
     (if state sm \<noteq> RECOGNIZER_STATE_RECOGNIZING then Some (False, sm)
      else
        (case recog sm of
           None \<Rightarrow> Some (False, sm)
         | Some source \<Rightarrow> recog_request_dispatch sm (deactivate_request apr RECOGNIZER_STOP source)))"

definition mrcp_recog_state_machine_create ::
  "apr_fmt \<Rightarrow> 'f float_ops \<Rightarrow> mrcp_version_e \<Rightarrow> 'f mrcp_recog_state_machine"
where
  "mrcp_recog_state_machine_create apr fo v =
     mrcp_state_machine.extend mrcp_state_machine_init
       (mrcp_recog_state_machine.fields RECOGNIZER_STATE_IDLE False None None []
          (mrcp_message_header_create (Some (mrcp_generic_header_vtable_get apr))
             (Some (mrcp_recog_header_vtable_get apr fo v))))"

text \<open>One step of a run: the server session hands over a message or deactivates the machine.\<close>

fun recog_step ::
  "apr_fmt \<Rightarrow> 'f mrcp_recog_state_machine \<Rightarrow> 'f recog_message sm_input \<Rightarrow> (bool \<times> 'f mrcp_recog_state_machine) option"
where
  "recog_step apr sm (Update m) = mrcp_state_machine_update (Some (recog_state_update apr)) sm m"
| "recog_step apr sm Deactivate = mrcp_state_machine_deactivate (Some (recog_state_deactivate apr)) sm"

section \<open>The invariant\<close>

text \<open>
  A request is in progress or was recognised exactly when the machine is not idle; a STOP request is only outstanding
  while a request is being recognised; pending requests are RECOGNIZE requests.
\<close>

definition recog_core :: "'f mrcp_recog_state_machine \<Rightarrow> bool" where
  "recog_core sm \<longleftrightarrow>
     on_dispatch sm \<noteq> None \<and> on_deactivate sm \<noteq> None \<and>
     (state sm = RECOGNIZER_STATE_IDLE \<longleftrightarrow> recog sm = None) \<and>
     (\<forall>q \<in> set (queue sm). message_type (start_line q) = MRCP_MESSAGE_TYPE_REQUEST \<and>
        method_id (start_line q) = RECOGNIZER_RECOGNIZE)"

definition recog_invar :: "'f mrcp_recog_state_machine \<Rightarrow> bool" where
  "recog_invar sm \<longleftrightarrow> recog_core sm \<and> (recog_stop_outstanding sm \<longrightarrow> state sm = RECOGNIZER_STATE_RECOGNIZING)"

text \<open>
  The inputs a machine is given: messages made for the recognizer, and a response that carries the method of the request
  it answers, as \<^const>\<open>mrcp_response_create\<close> makes it.
\<close>

fun recog_allowed ::
  "apr_fmt \<Rightarrow> 'f float_ops \<Rightarrow> 'f mrcp_recog_state_machine \<Rightarrow> 'f recog_message sm_input \<Rightarrow> bool"
where
  "recog_allowed apr fo sm (Update m) \<longleftrightarrow>
     msg_ok apr (range (mrcp_recog_header_vtable_get apr fo)) m \<and>
     (case active_request sm of
        None \<Rightarrow> True
      | Some a \<Rightarrow>
          message_type (start_line m) = MRCP_MESSAGE_TYPE_RESPONSE \<and> request_id (start_line m) = request_id (start_line a)
          \<longrightarrow> method_id (start_line m) = method_id (start_line a))"
| "recog_allowed apr fo sm Deactivate \<longleftrightarrow> True"

definition recog_good ::
  "'f mrcp_recog_state_machine \<Rightarrow> (bool \<times> 'f mrcp_recog_state_machine) option \<Rightarrow> bool"
where
  "recog_good sm r \<longleftrightarrow> (\<exists>b sm'. r = Some (b, sm') \<and> recog_invar sm' \<and> sm_effect sm sm')"

interpretation recog_cause: cause_header "range (mrcp_recog_header_vtable_get apr fo)" RECOGNIZER_HEADER_COMPLETION_CAUSE
  for apr fo
  by unfold_locales
    (auto simp: mrcp_recog_header_vtable_get_def mrcp_v1_recog_header_generate_def mrcp_v2_recog_header_generate_def
      RECOGNIZER_HEADER_COMPLETION_CAUSE_def split: option.split)

lemma recog_invar_core: "recog_invar sm \<Longrightarrow> recog_core sm"
  by (simp add: recog_invar_def)

lemma recog_goodI: "r = Some (b, sm') \<Longrightarrow> recog_invar sm' \<Longrightarrow> sm_effect sm sm' \<Longrightarrow> recog_good sm r"
  by (auto simp: recog_good_def)

lemma recog_effect_ext [simp]:
  "sm_effect sm0 (sm\<lparr>state := st\<rparr>) = sm_effect sm0 sm"
  "sm_effect sm0 (sm\<lparr>recog := r\<rparr>) = sm_effect sm0 sm"
  "sm_effect sm0 (sm\<lparr>queue := q\<rparr>) = sm_effect sm0 sm"
  "sm_effect sm0 (sm\<lparr>properties := p\<rparr>) = sm_effect sm0 sm"
  "sm_effect sm0 (sm\<lparr>is_pending := b\<rparr>) = sm_effect sm0 sm"
  "sm_effect sm0 (sm\<lparr>active_request := a\<rparr>) = sm_effect sm0 sm"
  "sm_effect sm0 (recog_state_change st sm) = sm_effect sm0 sm"
  by (simp_all add: sm_effect_def recog_state_change_def Let_def)

lemma recog_core_ext [simp]:
  "recog_core (sm\<lparr>properties := p\<rparr>) = recog_core sm"
  "recog_core (sm\<lparr>sm_log := l\<rparr>) = recog_core sm"
  "recog_core (sm\<lparr>is_pending := b\<rparr>) = recog_core sm"
  "recog_core (sm\<lparr>active_request := a\<rparr>) = recog_core sm"
  by (simp_all add: recog_core_def)

lemma recog_request_dispatch_good:
  assumes "recog_core sm" "sm_effect sm0 sm" "message_type (start_line m) = MRCP_MESSAGE_TYPE_REQUEST"
    and "method_id (start_line m) = RECOGNIZER_STOP \<Longrightarrow> state sm = RECOGNIZER_STATE_RECOGNIZING"
  shows "recog_good sm0 (recog_request_dispatch sm m)"
proof -
  let ?sm = "sm\<lparr>active_request := Some m\<rparr>"
  obtain b where "call_on_dispatch m ?sm = Some (b, ?sm\<lparr>sm_log := sm_log ?sm @ [Dispatch m]\<rparr>)"
    using call_on_dispatch_Some [of ?sm m] assms(1) by (auto simp: recog_core_def)
  moreover have "sm_effect sm0 (?sm\<lparr>sm_log := sm_log ?sm @ [Dispatch m]\<rparr>)"
    by (rule sm_effect_log) (use assms in simp_all)
  ultimately show ?thesis
    using assms by (intro recog_goodI) (simp_all add: recog_request_dispatch_def recog_invar_def recog_stop_outstanding_def)
qed

lemma recog_response_dispatch_good:
  assumes "recog_core sm" "sm_effect sm0 sm"
  shows "recog_good sm0 (recog_response_dispatch sm m)"
proof -
  let ?sm = "sm\<lparr>active_request := None\<rparr>"
  obtain b c where "call_on_dispatch m ?sm = Some (b, ?sm\<lparr>sm_log := sm_log ?sm @ [Dispatch m]\<rparr>)"
      "call_on_deactivate ?sm = Some (c, ?sm\<lparr>sm_log := sm_log ?sm @ [Deactivated]\<rparr>)"
    using call_on_dispatch_Some [of ?sm m] call_on_deactivate_Some [of ?sm] assms(1) by (auto simp: recog_core_def)
  moreover have "sm_effect sm0 (?sm\<lparr>sm_log := sm_log ?sm @ [if active sm then Dispatch m else Deactivated]\<rparr>)"
    by (rule sm_effect_log) (use assms in simp_all)
  ultimately show ?thesis
    using assms by (intro recog_goodI [where b = "if active sm then b else c" and sm' = "?sm\<lparr>sm_log := sm_log ?sm @ [if active sm then Dispatch m else Deactivated]\<rparr>"])
      (simp_all add: recog_response_dispatch_def recog_invar_def recog_stop_outstanding_def Let_def)
qed

lemma recog_event_dispatch_good:
  assumes "recog_invar sm" "sm_effect sm0 sm"
  shows "recog_good sm0 (recog_event_dispatch sm m)"
proof (cases "active sm")
  case True
  obtain b where "call_on_dispatch m sm = Some (b, sm\<lparr>sm_log := sm_log sm @ [Dispatch m]\<rparr>)"
    using call_on_dispatch_Some [of sm m] assms(1) by (auto simp: recog_core_def recog_invar_def)
  moreover have "sm_effect sm0 (sm\<lparr>sm_log := sm_log sm @ [Dispatch m]\<rparr>)"
    by (rule sm_effect_log) (use assms True in simp_all)
  ultimately show ?thesis
    using assms True by (intro recog_goodI) (simp_all add: recog_event_dispatch_def recog_invar_def recog_stop_outstanding_def)
qed (use assms in \<open>auto simp: recog_event_dispatch_def recog_good_def\<close>)

lemma recog_core_idle [simp]: "recog_core sm \<Longrightarrow> recog_core (recog_state_change RECOGNIZER_STATE_IDLE sm)"
  by (simp add: recog_core_def recog_state_change_def)

lemma recog_core_filter [simp]: "recog_core sm \<Longrightarrow> recog_core (sm\<lparr>queue := filter P (queue sm)\<rparr>)"
  by (auto simp: recog_core_def)

lemma recog_core_push [simp]:
  "recog_core sm \<Longrightarrow> message_type (start_line m) = MRCP_MESSAGE_TYPE_REQUEST \<Longrightarrow>
    method_id (start_line m) = RECOGNIZER_RECOGNIZE \<Longrightarrow> recog_core (sm\<lparr>queue := queue sm @ [m]\<rparr>)"
  by (auto simp: recog_core_def)

lemma recog_queue_pop_core:
  assumes "recog_queue_pop sm = (p, sm')" "recog_core sm"
  shows "recog_core sm'" "sm_effect sm0 sm' = sm_effect sm0 sm" "active_request sm' = active_request sm"
    "state sm' = state sm" "recog sm' = recog sm"
    "\<And>q. p = Some q \<Longrightarrow> message_type (start_line q) = MRCP_MESSAGE_TYPE_REQUEST \<and>
       method_id (start_line q) = RECOGNIZER_RECOGNIZE"
  using assms by (auto simp: recog_queue_pop_def recog_core_def split: list.splits)

lemma recog_pending_dispatch_good:
  assumes "recog_invar sm" "sm_effect sm0 sm"
    and "\<And>q. p = Some q \<Longrightarrow> message_type (start_line q) = MRCP_MESSAGE_TYPE_REQUEST \<and>
       method_id (start_line q) = RECOGNIZER_RECOGNIZE"
  shows "recog_good sm0 (recog_pending_dispatch p sm)"
proof (cases p)
  case None
  then show ?thesis using assms by (auto simp: recog_pending_dispatch_def recog_good_def)
next
  case (Some q)
  have "recog_good sm0 (recog_request_dispatch (sm\<lparr>is_pending := True\<rparr>) q)"
    using assms Some by (intro recog_request_dispatch_good)
      (auto simp: recog_invar_core RECOGNIZER_RECOGNIZE_def RECOGNIZER_STOP_def)
  then show ?thesis using Some by (auto simp: recog_pending_dispatch_def recog_good_def)
qed

lemma recog_stop_immediately_good:
  assumes "recog_core sm" "sm_effect sm0 sm" "msg_ok apr vts m"
  shows "recog_good sm0 (recog_stop_immediately apr sm m)"
proof -
  obtain r where "pending_requests_remove m (mrcp_response_create apr 0 (Some m)) (queue sm) =
      Some (filter (\<lambda>p. \<not> stop_selects m (request_id (start_line p))) (queue sm), r)"
    using response_create_ok(1) [OF assms(3)] by (rule pending_requests_remove_ok)
  then show ?thesis
    using assms by (simp add: recog_stop_immediately_def recog_pending_requests_remove_def recog_response_dispatch_good)
qed

section \<open>Every input keeps the invariant\<close>

lemma recog_request_good:
  assumes "recog_invar sm" "msg_ok apr vts m" "message_type (start_line m) = MRCP_MESSAGE_TYPE_REQUEST"
  shows "recog_good sm (recog_request_state_update apr sm m)"
proof -
  have core: "recog_core sm" and stop: "recog_stop_outstanding sm \<longrightarrow> state sm = RECOGNIZER_STATE_RECOGNIZING"
    using assms(1) by (auto simp: recog_invar_def)
  note disp = recog_request_dispatch_good [OF _ _ assms(3)]
  consider "RECOGNIZER_METHOD_COUNT \<le> method_id (start_line m)" | "8 \<le> method_id (start_line m)" "method_id (start_line m) < 13"
    | "method_id (start_line m) = 0" | "method_id (start_line m) = 1" | "method_id (start_line m) = 2"
    | "method_id (start_line m) = 3" | "method_id (start_line m) = 4" | "method_id (start_line m) = 5"
    | "method_id (start_line m) = 6" | "method_id (start_line m) = 7"
    by (fastforce simp: RECOGNIZER_METHOD_COUNT_def)
  then show ?thesis
  proof cases
    case 1
    then show ?thesis using assms(1) by (auto simp: recog_request_state_update_def recog_good_def)
  next
    case 10
    obtain r where "state sm = RECOGNIZER_STATE_RECOGNIZING \<Longrightarrow> recog sm = Some r"
      using core by (cases "recog sm") (auto simp: recog_core_def)
    then show ?thesis
      using 10 core assms by (auto simp: recog_request_state_update_def RECOGNIZER_METHOD_COUNT_def method_lookup_def
        recog_request_method_array_def recog_request_stop_def recog_stop_immediately_good
        intro!: recog_request_dispatch_good recog_stop_immediately_good)
  qed (use core assms in \<open>auto simp: recog_request_state_update_def RECOGNIZER_METHOD_COUNT_def method_lookup_def
      recog_request_method_array_def recog_request_set_params_def recog_request_get_params_def
      recog_request_define_grammar_def recog_request_recognize_def recog_request_interpret_def recog_request_get_result_def
      recog_request_recognition_start_timers_def request_state_set_def Let_def RECOGNIZER_STOP_def
      RECOGNIZER_RECOGNIZE_def
      intro!: recog_request_dispatch_good recog_response_dispatch_good\<close>)
qed

lemma recog_response_stop_good:
  assumes "recog_invar sm" "msg_ok apr vts m" "active_request sm = Some a" "method_id (start_line a) = RECOGNIZER_STOP"
  shows "recog_good sm (recog_response_stop sm m)"
proof -
  have core: "recog_core sm" and "state sm = RECOGNIZER_STATE_RECOGNIZING"
    using assms by (auto simp: recog_invar_def recog_stop_outstanding_def)
  then obtain r where r: "recog sm = Some r" by (auto simp: recog_core_def)
  obtain m1 where m1: "active_id_append (request_id (start_line r)) m = Some m1" "msg_ok apr vts m1"
    by (rule active_id_append_ok [OF assms(2)])
  let ?keep = "\<lambda>p. \<not> stop_selects a (request_id (start_line p))"
  obtain m2 where m2: "pending_requests_remove a m1 (queue sm) = Some (filter ?keep (queue sm), m2)"
    by (rule pending_requests_remove_ok [OF m1(2)])
  let ?sm = "recog_state_change RECOGNIZER_STATE_IDLE (sm\<lparr>queue := filter ?keep (queue sm)\<rparr>)"
  obtain p sm1 where pop: "recog_queue_pop ?sm = (p, sm1)" by fastforce
  have c1: "recog_core ?sm" using core by simp
  note pc = recog_queue_pop_core [OF pop c1]
  obtain b sm2 where sm2: "recog_response_dispatch sm1 m2 = Some (b, sm2)" "recog_invar sm2" "sm_effect sm sm2"
    using recog_response_dispatch_good [OF pc(1), of sm m2] pc(2) by (auto simp: recog_good_def)
  have "recog_good sm (recog_pending_dispatch p sm2)"
    by (rule recog_pending_dispatch_good [OF sm2(2,3) pc(6)])
  then show ?thesis
    using r m1(1) m2 assms(3) pop sm2(1) by (simp add: recog_response_stop_def recog_pending_requests_remove_def)
qed

lemma recog_invar_recognizing:
  assumes "recog_core sm" "recog sm \<noteq> None"
  shows "recog_invar (recog_state_change RECOGNIZER_STATE_RECOGNIZING sm)"
  using assms by (auto simp: recog_invar_def recog_core_def recog_state_change_def)

lemma recog_response_good:
  assumes inv: "recog_invar sm" and ok: "msg_ok apr (range (mrcp_recog_header_vtable_get apr fo)) m"
    and a: "active_request sm = Some a" and meth: "method_id (start_line m) = method_id (start_line a)"
  shows "recog_good sm (recog_response_state_update sm m)"
proof -
  have core: "recog_core sm" using inv by (rule recog_invar_core)
  obtain m1 where m1: "recog_cause_ensure m = Some m1"
    unfolding recog_cause_ensure_def by (rule recog_cause.cause_ensure_ok [OF ok])
  have rec: "recog_good sm (recog_response_recognize sm m)"
  proof (cases "request_state (start_line m) = MRCP_REQUEST_STATE_INPROGRESS")
    case True
    have "recog_invar (recog_state_change RECOGNIZER_STATE_RECOGNIZING (sm\<lparr>recog := Some a\<rparr>))"
      using core by (auto simp: recog_invar_def recog_core_def recog_state_change_def)
    then show ?thesis
      using True a recog_invar_core [of "recog_state_change RECOGNIZER_STATE_RECOGNIZING (sm\<lparr>recog := Some a\<rparr>)"]
      by (auto simp: recog_response_recognize_def Let_def recog_good_def [of sm "Some _"] recog_invar_def recog_stop_outstanding_def
        intro!: recog_response_dispatch_good)
  next
    case False
    then show ?thesis
      using core inv by (auto simp: recog_response_recognize_def Let_def recog_good_def [of sm "Some _"] recog_invar_def
        recog_stop_outstanding_def intro!: recog_response_dispatch_good)
  qed
  consider "RECOGNIZER_METHOD_COUNT \<le> method_id (start_line m)" | "8 \<le> method_id (start_line m)" "method_id (start_line m) < 13"
    | "method_id (start_line m) = 0" | "method_id (start_line m) = 1" | "method_id (start_line m) = 2"
    | "method_id (start_line m) = 3" | "method_id (start_line m) = 4" | "method_id (start_line m) = 5"
    | "method_id (start_line m) = 6" | "method_id (start_line m) = 7"
    by (fastforce simp: RECOGNIZER_METHOD_COUNT_def)
  then show ?thesis
  proof cases
    case 10
    then show ?thesis
      using recog_response_stop_good [OF inv ok a] meth inv a
      by (auto simp: recog_response_state_update_def RECOGNIZER_METHOD_COUNT_def method_lookup_def recog_good_def [of sm "Some _"]
        recog_response_method_array_def RECOGNIZER_STOP_def)
  qed (use core inv a m1 rec in \<open>auto simp: recog_response_state_update_def RECOGNIZER_METHOD_COUNT_def method_lookup_def
      recog_response_method_array_def recog_response_set_params_def recog_response_get_params_def
      recog_response_define_grammar_def recog_response_interpret_def recog_response_get_result_def
      recog_response_recognition_start_timers_def recog_good_def [of sm "Some _"]
      intro!: recog_response_dispatch_good\<close>)
qed

lemma recog_event_good:
  assumes inv: "recog_invar sm" and ok: "msg_ok apr (range (mrcp_recog_header_vtable_get apr fo)) m"
  shows "recog_good sm (recog_event_state_update sm m)"
proof -
  obtain m1 where m1: "recog_cause_ensure m = Some m1"
    unfolding recog_cause_ensure_def by (rule recog_cause.cause_ensure_ok [OF ok])
  have complete: "recog_good sm (recog_event_recognition_complete sm m)"
  proof (cases "recog sm = None \<or> request_id (start_line (the (recog sm))) \<noteq> request_id (start_line m) \<or> recog_stop_outstanding sm")
    case True
    then show ?thesis using inv by (auto simp: recog_event_recognition_complete_def recog_good_def split: option.split)
  next
    case False
    let ?sm = "recog_state_change RECOGNIZER_STATE_RECOGNIZED sm"
    have "recog_invar ?sm"
      using False inv by (auto simp: recog_invar_def recog_core_def recog_state_change_def recog_stop_outstanding_def)
    then obtain b sm1 where sm1: "recog_event_dispatch ?sm m1 = Some (b, sm1)" "recog_invar sm1" "sm_effect sm sm1"
      using recog_event_dispatch_good [of ?sm sm m1] by (auto simp: recog_good_def)
    obtain p sm2 where pop: "recog_queue_pop sm1 = (p, sm2)" by fastforce
    note pc = recog_queue_pop_core [OF pop recog_invar_core [OF sm1(2)]]
    have "recog_invar sm2" using pc sm1(2) by (auto simp: recog_invar_def recog_stop_outstanding_def)
    then have "recog_good sm (recog_pending_dispatch p sm2)"
      by (rule recog_pending_dispatch_good) (use pc sm1(3) in auto)
    then show ?thesis
      using False m1 sm1(1) pop by (auto simp: recog_event_recognition_complete_def)
  qed
  consider "RECOGNIZER_EVENT_COUNT \<le> method_id (start_line m)" | "method_id (start_line m) = 0" | "method_id (start_line m) = 1"
    | "method_id (start_line m) = 2"
    by (fastforce simp: RECOGNIZER_EVENT_COUNT_def)
  then show ?thesis
    using inv m1 complete by cases (auto simp: recog_event_state_update_def RECOGNIZER_EVENT_COUNT_def method_lookup_def
      recog_event_method_array_def recog_event_start_of_input_def recog_event_interpretation_complete_def
      recog_good_def [of sm "Some _"] split: option.split intro!: recog_event_dispatch_good)
qed

lemma recog_step_good:
  assumes inv: "recog_invar sm" and al: "recog_allowed apr fo sm i"
  shows "recog_good (case i of Update m \<Rightarrow> sm | Deactivate \<Rightarrow> sm\<lparr>active := False\<rparr>) (recog_step apr sm i)"
proof (cases i)
  case (Update m)
  have "recog_good sm (recog_response_state_update sm m)" if "message_type (start_line m) = MRCP_MESSAGE_TYPE_RESPONSE"
  proof (cases "active_request sm")
    case (Some a)
    show ?thesis
    proof (cases "request_id (start_line m) = request_id (start_line a)")
      case True
      then show ?thesis using recog_response_good [of sm apr fo m a] inv al Some that Update by simp
    next
      case False
      then show ?thesis using Some inv by (auto simp: recog_response_state_update_def recog_good_def)
    qed
  qed (use inv in \<open>auto simp: recog_response_state_update_def recog_good_def\<close>)
  then show ?thesis
    using Update al recog_request_good [OF inv, of apr] recog_event_good [OF inv, of apr fo m] inv
    by (cases "message_type (start_line m)")
      (auto simp: mrcp_state_machine_update_def recog_state_update_def recog_good_def [of sm "Some _"])
next
  case Deactivate
  have "recog_invar (sm\<lparr>active := False\<rparr>)"
    using inv by (simp add: recog_invar_def recog_core_def recog_stop_outstanding_def)
  then show ?thesis
    using Deactivate by (auto simp: mrcp_state_machine_deactivate_def recog_state_deactivate_def recog_good_def [of _ "Some _"]
      recog_invar_core split: option.split intro!: recog_request_dispatch_good)
qed

interpretation recog_sm: state_machine "recog_step apr" "recog_allowed apr fo" recog_invar
  for apr :: apr_fmt and fo :: "'f float_ops"
  by unfold_locales (use recog_step_good in \<open>fastforce simp: recog_good_def\<close>)

section \<open>Properties\<close>

text \<open>The machine as a server session starts it: created, and with its two callbacks.\<close>

definition recog_start ::
  "apr_fmt \<Rightarrow> 'f float_ops \<Rightarrow> mrcp_version_e \<Rightarrow> ('f recog_message \<Rightarrow> bool) \<Rightarrow> bool \<Rightarrow> 'f mrcp_recog_state_machine"
where
  "recog_start apr fo v f b =
     (mrcp_recog_state_machine_create apr fo v)\<lparr>on_dispatch := Some f, on_deactivate := Some b\<rparr>"

lemma recog_start_invar: "recog_invar (recog_start apr fo v f b)"
  by (simp add: recog_start_def mrcp_recog_state_machine_create_def mrcp_state_machine_init_def recog_invar_def recog_core_def
    recog_stop_outstanding_def mrcp_state_machine.defs mrcp_recog_state_machine.defs)

text \<open>Requests of a session, and the responses to them, for the witnesses.\<close>

definition recog_request :: "nat \<Rightarrow> mrcp_request_id \<Rightarrow> unit recog_message" where
  "recog_request k rid =
     (let m = mrcp_request_create apr_std (Some (mrcp_recog_resource_create apr_std float_unit)) MRCP_VERSION_2 k
      in m\<lparr>start_line := (start_line m)\<lparr>request_id := rid\<rparr>\<rparr>)"

definition recog_reply :: "mrcp_message_type_e \<Rightarrow> nat \<Rightarrow> mrcp_request_id \<Rightarrow> unit recog_message" where
  "recog_reply t k rid =
     (let m = recog_request k rid
      in m\<lparr>start_line := (start_line m)\<lparr>message_type := t, request_state := MRCP_REQUEST_STATE_COMPLETE\<rparr>\<rparr>)"

lemma recog_vtable_field_count [simp]: "field_count (mrcp_recog_header_vtable_get apr fo v) = 45"
  by (simp add: mrcp_recog_header_vtable_get_def RECOGNIZER_HEADER_COUNT_def)

lemma recog_request_facts [simp]:
  "msg_ok apr_std (range (mrcp_recog_header_vtable_get apr_std float_unit)) (recog_request k rid)"
  "message_type (start_line (recog_request k rid)) = MRCP_MESSAGE_TYPE_REQUEST"
  "method_id (start_line (recog_request k rid)) = k"
  "request_id (start_line (recog_request k rid)) = rid"
  "header_section (header (recog_request k rid)) = \<lparr>hs_ring = [], hs_arr = replicate 61 None\<rparr>"
  "mrcp_generic_header_get (recog_request k rid) = Some mrcp_generic_header_init"
proof -
  let ?m = "mrcp_request_create apr_std (Some (mrcp_recog_resource_create apr_std float_unit)) MRCP_VERSION_2 k"
  have "msg_ok apr_std (range (mrcp_recog_header_vtable_get apr_std float_unit)) ?m"
    by (rule request_create_ok) (simp add: mrcp_recog_resource_create_def)
  then show "msg_ok apr_std (range (mrcp_recog_header_vtable_get apr_std float_unit)) (recog_request k rid)"
    by (simp add: recog_request_def Let_def)
qed (auto simp: recog_request_def mrcp_request_create_def mrcp_message_resource_set_by_id_def mrcp_recog_resource_create_def
    mrcp_message_header_data_alloc_def mrcp_header_allocate_def mrcp_message_create_def mrcp_generic_header_get_def
    mrcp_message_header_init_def apt_header_section_init_def apt_header_section_array_alloc_def Let_def
    mrcp_generic_header_vtable_get_def GENERIC_HEADER_COUNT_def split: option.split)

lemma recog_reply_facts [simp]:
  "msg_ok apr_std (range (mrcp_recog_header_vtable_get apr_std float_unit)) (recog_reply t k rid)"
  "message_type (start_line (recog_reply t k rid)) = t"
  "method_id (start_line (recog_reply t k rid)) = k"
  "request_id (start_line (recog_reply t k rid)) = rid"
  "request_state (start_line (recog_reply t k rid)) = MRCP_REQUEST_STATE_COMPLETE"
  "header_section (header (recog_reply t k rid)) = \<lparr>hs_ring = [], hs_arr = replicate 61 None\<rparr>"
  "mrcp_generic_header_get (recog_reply t k rid) = Some mrcp_generic_header_init"
  by (simp_all add: recog_reply_def Let_def mrcp_generic_header_get_def) (simp add: mrcp_generic_header_get_def [symmetric])

lemma recog_request_plain [simp]: "stop_id_list (recog_request k rid) = None"
  by (simp add: stop_id_list_def mrcp_generic_header_init_def)

text \<open>A machine with a request in progress and another one pending.\<close>

definition recog_busy :: "unit recog_message option \<Rightarrow> unit mrcp_recog_state_machine" where
  "recog_busy a =
     (recog_start apr_std float_unit MRCP_VERSION_2 (\<lambda>_. True) True)
       \<lparr>state := RECOGNIZER_STATE_RECOGNIZING, recog := Some (recog_request RECOGNIZER_RECOGNIZE 1),
        queue := [recog_request RECOGNIZER_RECOGNIZE 2], active_request := a\<rparr>"

lemma recog_busy_facts [simp]:
  "recog_invar (recog_busy a)" "active (recog_busy a)" "state (recog_busy a) = RECOGNIZER_STATE_RECOGNIZING"
  "recog (recog_busy a) = Some (recog_request RECOGNIZER_RECOGNIZE 1)"
  "queue (recog_busy a) = [recog_request RECOGNIZER_RECOGNIZE 2]" "active_request (recog_busy a) = a"
  by (simp_all add: recog_busy_def recog_start_def mrcp_recog_state_machine_create_def mrcp_state_machine_init_def
    recog_invar_def recog_core_def recog_stop_outstanding_def mrcp_state_machine.defs mrcp_recog_state_machine.defs)

text \<open>
  C3: a recognizer state machine never follows a NULL pointer. From its start, whatever messages for the recognizer it
  is given and whenever it is deactivated, the next input is processed without a fault, provided that a response carries
  the method of the request it answers.
\<close>

theorem recog_no_fault:
  assumes "sm_reachable (recog_step apr) (recog_allowed apr fo) (recog_start apr fo v f b) sm"
    and "recog_allowed apr fo sm i"
  shows "recog_step apr sm i \<noteq> None"
  by (rule recog_sm.no_fault [OF assms(1) recog_start_invar assms(2)])

theorem recog_no_fault_witness:
  "recog_step apr_std (recog_start apr_std float_unit MRCP_VERSION_2 (\<lambda>_. True) True)
     (Update (mrcp_request_create apr_std (Some (mrcp_recog_resource_create apr_std float_unit)) MRCP_VERSION_2
        RECOGNIZER_RECOGNIZE)) \<noteq> None"
  by (rule recog_no_fault [OF sm_reachable.start [of _ _ "recog_start apr_std float_unit MRCP_VERSION_2 (\<lambda>_. True) True"]])
    (auto simp: recog_start_def mrcp_recog_state_machine_create_def mrcp_state_machine.defs mrcp_recog_state_machine.defs
      mrcp_recog_resource_create_def mrcp_state_machine_init_def intro!: request_create_ok)

text \<open>
  C7: the states of the recognizer mean what they say. In every reachable state the machine is idle exactly when it
  holds no RECOGNIZE request, a STOP request is outstanding only while a RECOGNIZE request is in progress, and only
  RECOGNIZE requests are pending.
\<close>

theorem recog_states:
  assumes "sm_reachable (recog_step apr) (recog_allowed apr fo) (recog_start apr fo v f b) sm"
  shows "(state sm = RECOGNIZER_STATE_IDLE \<longleftrightarrow> recog sm = None) \<and>
    (recog_stop_outstanding sm \<longrightarrow> state sm = RECOGNIZER_STATE_RECOGNIZING) \<and>
    (\<forall>q \<in> set (queue sm). message_type (start_line q) = MRCP_MESSAGE_TYPE_REQUEST \<and>
       method_id (start_line q) = RECOGNIZER_RECOGNIZE)"
  using recog_sm.reachable_invar [OF assms recog_start_invar] by (simp add: recog_invar_def recog_core_def)

theorem recog_states_witness:
  "state (recog_start apr_std float_unit MRCP_VERSION_2 (\<lambda>_. True) True) = RECOGNIZER_STATE_IDLE \<longleftrightarrow>
   recog (recog_start apr_std float_unit MRCP_VERSION_2 (\<lambda>_. True) True) = None"
  using recog_states [OF sm_reachable.start [of _ _ "recog_start apr_std float_unit MRCP_VERSION_2 (\<lambda>_. True) True"]]
  by blast



text \<open>
  C16: requests are recognised one at a time, in the order of their arrival. The event that completes the request in
  progress is dispatched to the client, and right after it the oldest pending request is sent to the engine; the others
  stay pending.
\<close>

theorem recog_complete_next:
  assumes "recog_invar sm" "active sm" "\<not> recog_stop_outstanding sm"
    and "recog sm = Some r" "queue sm = p # q"
    and "msg_ok apr (range (mrcp_recog_header_vtable_get apr fo)) m"
    and "message_type (start_line m) = MRCP_MESSAGE_TYPE_EVENT" "method_id (start_line m) = RECOGNIZER_RECOGNITION_COMPLETE"
    and "request_id (start_line m) = request_id (start_line r)"
  shows "\<exists>m' sm'. recog_step apr sm (Update m) = Some (True, sm') \<and> start_line m' = start_line m \<and>
    sm_log sm' = sm_log sm @ [Dispatch m', Dispatch p] \<and> queue sm' = q \<and> active_request sm' = Some p \<and>
    state sm' = RECOGNIZER_STATE_RECOGNIZED \<and> is_pending sm'"
proof -
  obtain m1 where m1: "recog_cause_ensure m = Some m1" "start_line m1 = start_line m"
    unfolding recog_cause_ensure_def by (rule recog_cause.cause_ensure_ok [OF assms(6)])
  obtain f where "on_dispatch sm = Some f" using assms(1) by (auto simp: recog_invar_def recog_core_def)
  then show ?thesis
    using assms m1 by (simp add: mrcp_state_machine_update_def recog_state_update_def recog_event_state_update_def
      RECOGNIZER_EVENT_COUNT_def RECOGNIZER_RECOGNITION_COMPLETE_def method_lookup_def recog_event_method_array_def
      recog_event_recognition_complete_def recog_event_dispatch_def recog_state_change_def call_on_dispatch_def recog_queue_pop_def
      recog_pending_dispatch_def recog_request_dispatch_def)
qed

theorem recog_complete_next_witness:
  "\<exists>m' sm'. recog_step apr_std (recog_busy None)
      (Update (recog_reply MRCP_MESSAGE_TYPE_EVENT RECOGNIZER_RECOGNITION_COMPLETE 1)) = Some (True, sm') \<and>
    start_line m' = start_line (recog_reply MRCP_MESSAGE_TYPE_EVENT RECOGNIZER_RECOGNITION_COMPLETE 1) \<and>
    sm_log sm' = sm_log (recog_busy None) @ [Dispatch m', Dispatch (recog_request RECOGNIZER_RECOGNIZE 2)] \<and> queue sm' = [] \<and>
    active_request sm' = Some (recog_request RECOGNIZER_RECOGNIZE 2) \<and> state sm' = RECOGNIZER_STATE_RECOGNIZED \<and> is_pending sm'"
  by (rule recog_complete_next [where fo = float_unit and r = "recog_request RECOGNIZER_RECOGNIZE 1"])
    (simp_all add: recog_stop_outstanding_def)

text \<open>
  C33: a pending request that the engine rejects is lost. When the machine has taken a RECOGNIZE request from its queue
  and the engine answers it with anything but IN-PROGRESS, the machine dispatches nothing at all: the client is not told,
  and the requests that are still pending stay in the queue.
\<close>

theorem recog_pending_rejected_lost:
  assumes "is_pending sm" "active_request sm = Some a" "request_id (start_line m) = request_id (start_line a)"
    and "message_type (start_line m) = MRCP_MESSAGE_TYPE_RESPONSE" "method_id (start_line m) = RECOGNIZER_RECOGNIZE"
    and "request_state (start_line m) \<noteq> MRCP_REQUEST_STATE_INPROGRESS"
  shows "recog_step apr sm (Update m) = Some (True, sm\<lparr>is_pending := False\<rparr>)"
  using assms by (simp add: mrcp_state_machine_update_def recog_state_update_def recog_response_state_update_def
    RECOGNIZER_METHOD_COUNT_def RECOGNIZER_RECOGNIZE_def method_lookup_def recog_response_method_array_def
    recog_response_recognize_def)

theorem recog_pending_rejected_lost_witness:
  "recog_step apr_std ((recog_busy (Some (recog_request RECOGNIZER_RECOGNIZE 7)))\<lparr>is_pending := True\<rparr>)
     (Update (recog_reply MRCP_MESSAGE_TYPE_RESPONSE RECOGNIZER_RECOGNIZE 7)) =
   Some (True, (recog_busy (Some (recog_request RECOGNIZER_RECOGNIZE 7)))\<lparr>is_pending := True, is_pending := False\<rparr>)"
  by (rule recog_pending_rejected_lost [where a = "recog_request RECOGNIZER_RECOGNIZE 7"]) simp_all

text \<open>
  C35: the response to a STOP request does not name the pending requests it removed. The machine appends their
  identifiers to the data of the generic header, but the header field was already added with the identifier of the
  request in progress only, and a second field with the same identifier is refused: the text of the response names one
  request, however many were pending.
\<close>

theorem recog_stop_omits_pending:
  assumes "recog_invar sm" "active sm" "active_request sm = Some a" "method_id (start_line a) = RECOGNIZER_STOP"
    and "stop_id_list a = None" "recog sm = Some r"
    and "msg_ok apr (range (mrcp_recog_header_vtable_get apr fo)) m"
    and "message_type (start_line m) = MRCP_MESSAGE_TYPE_RESPONSE" "method_id (start_line m) = RECOGNIZER_STOP"
    and "request_id (start_line m) = request_id (start_line a)"
    and "\<not> mrcp_generic_header_property_check m GENERIC_HEADER_ACTIVE_REQUEST_ID_LIST" "hs_arr (header_section (header m)) \<noteq> []"
    and "map_option active_request_id_list (mrcp_generic_header_get m) = Some []"
  shows "\<exists>m' sm'. recog_step apr sm (Update m) = Some (True, sm') \<and> sm_log sm' = sm_log sm @ [Dispatch m'] \<and>
    state sm' = RECOGNIZER_STATE_IDLE \<and> queue sm' = [] \<and>
    map_option active_request_id_list (mrcp_generic_header_get m') =
      Some (take 5 (request_id (start_line r) # map (\<lambda>p. request_id (start_line p)) (queue sm))) \<and>
    field_texts m' = field_texts m @
      [(''Active-Request-Id-List'', mrcp_request_id_list_generate apr [request_id (start_line r)])]"
proof -
  obtain d where d: "mrcp_generic_header_get m = Some d" "active_request_id_list d = []" using assms(13) by auto
  obtain m1 where m1: "active_id_append (request_id (start_line r)) m = Some m1"
      "msg_ok apr (range (mrcp_recog_header_vtable_get apr fo)) m1"
    by (rule active_id_append_ok [OF assms(7)])
  note t1 = active_id_append_text [OF assms(7) m1(1) assms(11,12) d]
  obtain d1 where d1: "mrcp_generic_header_get m1 = Some d1" "active_request_id_list d1 = [request_id (start_line r)]"
    using t1(2) by auto
  have all: "stop_selects a rid" for rid using stop_selects_all [OF assms(5)] .
  obtain m2 where m2: "pending_requests_remove a m1 (queue sm) = Some ([], m2)"
    by (rule pending_requests_remove_ok [OF m1(2), of a "queue sm"]) (simp add: all)
  note t2 = pending_requests_remove_text [OF m1(2) m2 _ d1(1)]
  have tx: "field_texts m2 = field_texts m @
      [(''Active-Request-Id-List'', mrcp_request_id_list_generate apr [request_id (start_line r)])]"
    using t1(1) t2(1) d1(2) by simp
  have ids: "map_option active_request_id_list (mrcp_generic_header_get m2) =
      Some (take 5 (request_id (start_line r) # map (\<lambda>p. request_id (start_line p)) (queue sm)))"
    using t1(1) t2(2) d1(2) by (simp add: all)
  obtain f where "on_dispatch sm = Some f" using assms(1) by (auto simp: recog_invar_def recog_core_def)
  then have "recog_step apr sm (Update m) = Some (True, sm\<lparr>queue := [], state := RECOGNIZER_STATE_IDLE, recog := None,
      active_request := None, sm_log := sm_log sm @ [Dispatch m2]\<rparr>)"
    using assms m1(1) m2 by (simp add: mrcp_state_machine_update_def recog_state_update_def recog_response_state_update_def
      RECOGNIZER_METHOD_COUNT_def RECOGNIZER_STOP_def method_lookup_def recog_response_method_array_def recog_response_stop_def
      recog_pending_requests_remove_def recog_state_change_def recog_queue_pop_def recog_response_dispatch_def call_on_dispatch_def
      recog_pending_dispatch_def)
  then show ?thesis using tx ids by (intro exI conjI) (assumption, simp_all)
qed

theorem recog_stop_omits_pending_witness:
  "\<exists>m' sm'. recog_step apr_std (recog_busy (Some (recog_request RECOGNIZER_STOP 3)))
      (Update (recog_reply MRCP_MESSAGE_TYPE_RESPONSE RECOGNIZER_STOP 3)) = Some (True, sm') \<and>
    last (sm_log sm') = Dispatch m' \<and>
    map_option active_request_id_list (mrcp_generic_header_get m') = Some [1, 2] \<and>
    field_texts m' = [(''Active-Request-Id-List'', ''1'')]"
proof -
  let ?sm = "recog_busy (Some (recog_request RECOGNIZER_STOP 3))" and ?m = "recog_reply MRCP_MESSAGE_TYPE_RESPONSE RECOGNIZER_STOP 3"
  have one: "mrcp_request_id_list_generate apr_std [1] = ''1''" by code_simp
  have free: "\<not> mrcp_generic_header_property_check ?m GENERIC_HEADER_ACTIVE_REQUEST_ID_LIST"
    by (simp add: mrcp_generic_header_property_check_def apt_header_section_field_check_def GENERIC_HEADER_ACTIVE_REQUEST_ID_LIST_def)
  have ids: "map_option active_request_id_list (mrcp_generic_header_get ?m) = Some []"
    by (simp add: mrcp_generic_header_init_def)
  have "field_texts ?m = []" by (simp add: field_texts_def)
  moreover have "hs_arr (header_section (header ?m)) \<noteq> []" by simp
  note recog_stop_omits_pending [where a = "recog_request RECOGNIZER_STOP 3" and sm = ?sm,
    OF recog_busy_facts(1,2,6) _ _ recog_busy_facts(4) recog_reply_facts(1,2,3) _ free this ids]
  ultimately show ?thesis by (auto simp: one simp del: recog_step.simps)
qed

text \<open>
  C22: deactivation completes. When a recognition is in progress, deactivating the machine sends an internal STOP request
  to the engine; as soon as the engine answers it, the machine reports that it is deactivated, and it is idle with
  no pending request. The RECOGNIZE request is one without a list of active requests.
\<close>

theorem recog_deactivation_completes:
  assumes "recog_invar sm" "state sm = RECOGNIZER_STATE_RECOGNIZING" "recog sm = Some r" "stop_id_list r = None"
  shows "\<exists>b stop sm1. recog_step apr sm Deactivate = Some (b, sm1) \<and> sm_log sm1 = sm_log sm @ [Dispatch stop] \<and>
    method_id (start_line stop) = RECOGNIZER_STOP \<and> \<not> active sm1 \<and>
    (\<forall>m. msg_ok apr (range (mrcp_recog_header_vtable_get apr fo)) m \<and>
       message_type (start_line m) = MRCP_MESSAGE_TYPE_RESPONSE \<and> method_id (start_line m) = RECOGNIZER_STOP \<and>
       request_id (start_line m) = request_id (start_line stop) \<longrightarrow>
       (\<exists>sm2. recog_step apr sm1 (Update m) = Some (True, sm2) \<and> sm_log sm2 = sm_log sm1 @ [Deactivated] \<and>
          state sm2 = RECOGNIZER_STATE_IDLE \<and> queue sm2 = []))"
proof -
  obtain f b where fb: "on_dispatch sm = Some f" "on_deactivate sm = Some b"
    using assms(1) by (auto simp: recog_invar_def recog_core_def)
  let ?stop = "deactivate_request apr RECOGNIZER_STOP r"
  let ?sm1 = "sm\<lparr>active := False, active_request := Some ?stop, sm_log := sm_log sm @ [Dispatch ?stop]\<rparr>"
  have step1: "recog_step apr sm Deactivate = Some (f ?stop, ?sm1)"
    using assms fb by (simp add: mrcp_state_machine_deactivate_def recog_state_deactivate_def recog_request_dispatch_def
      call_on_dispatch_def)
  have "\<exists>sm2. recog_step apr ?sm1 (Update m) = Some (True, sm2) \<and> sm_log sm2 = sm_log ?sm1 @ [Deactivated] \<and>
      state sm2 = RECOGNIZER_STATE_IDLE \<and> queue sm2 = []"
    if ok: "msg_ok apr (range (mrcp_recog_header_vtable_get apr fo)) m"
      and m: "message_type (start_line m) = MRCP_MESSAGE_TYPE_RESPONSE" "method_id (start_line m) = RECOGNIZER_STOP"
        "request_id (start_line m) = request_id (start_line ?stop)" for m
  proof -
    obtain m1 where m1: "active_id_append (request_id (start_line r)) m = Some m1"
        "msg_ok apr (range (mrcp_recog_header_vtable_get apr fo)) m1"
      by (rule active_id_append_ok [OF ok])
    have all: "stop_selects ?stop rid" for rid using stop_selects_all [of ?stop] assms(4) by simp
    obtain m2 where m2: "pending_requests_remove ?stop m1 (queue sm) = Some ([], m2)"
      by (rule pending_requests_remove_ok [OF m1(2), of ?stop "queue sm"]) (simp add: all)
    show ?thesis
      using assms fb m m1(1) m2 by (simp add: mrcp_state_machine_update_def recog_state_update_def recog_response_state_update_def
        RECOGNIZER_METHOD_COUNT_def RECOGNIZER_STOP_def method_lookup_def recog_response_method_array_def recog_response_stop_def
        recog_pending_requests_remove_def recog_state_change_def recog_queue_pop_def recog_response_dispatch_def
        call_on_deactivate_def recog_pending_dispatch_def)
  qed
  then show ?thesis using step1 by (intro exI [of _ "f ?stop"] exI [of _ ?stop] exI [of _ ?sm1]) simp
qed

theorem recog_deactivation_completes_witness:
  "\<exists>b stop sm1 sm2. recog_step apr_std (recog_busy None) Deactivate = Some (b, sm1) \<and>
    sm_log sm1 = sm_log (recog_busy None) @ [Dispatch stop] \<and>
    recog_step apr_std sm1
      (Update (recog_reply MRCP_MESSAGE_TYPE_RESPONSE RECOGNIZER_STOP (request_id (start_line stop)))) = Some (True, sm2) \<and>
    sm_log sm2 = sm_log sm1 @ [Deactivated]"
proof -
  obtain b stop sm1 where s: "recog_step apr_std (recog_busy None) Deactivate = Some (b, sm1)"
      "sm_log sm1 = sm_log (recog_busy None) @ [Dispatch stop]"
      "\<forall>m. msg_ok apr_std (range (mrcp_recog_header_vtable_get apr_std float_unit)) m \<and>
         message_type (start_line m) = MRCP_MESSAGE_TYPE_RESPONSE \<and> method_id (start_line m) = RECOGNIZER_STOP \<and>
         request_id (start_line m) = request_id (start_line stop) \<longrightarrow>
         (\<exists>sm2. recog_step apr_std sm1 (Update m) = Some (True, sm2) \<and> sm_log sm2 = sm_log sm1 @ [Deactivated] \<and>
            state sm2 = RECOGNIZER_STATE_IDLE \<and> queue sm2 = [])"
    using recog_deactivation_completes [of "recog_busy None" "recog_request RECOGNIZER_RECOGNIZE 1" apr_std float_unit]
    by (auto simp del: recog_step.simps)
  obtain sm2 where "recog_step apr_std sm1
      (Update (recog_reply MRCP_MESSAGE_TYPE_RESPONSE RECOGNIZER_STOP (request_id (start_line stop)))) = Some (True, sm2)"
      "sm_log sm2 = sm_log sm1 @ [Deactivated]"
    using s(3) [THEN spec, of "recog_reply MRCP_MESSAGE_TYPE_RESPONSE RECOGNIZER_STOP (request_id (start_line stop))"]
    by (auto simp del: recog_step.simps)
  with s show ?thesis by blast
qed

end
