(* ===== verification/Mrcp_Synth_Resource.thy ===== *)
theory Mrcp_Synth_Resource
  imports Mrcp_Header_Wire
begin

text \<open>
  The synthesizer resource: \<open>mrcp_synth_header.c\<close>, \<open>mrcp_synth_header.h\<close> and \<open>mrcp_synth_resource.c\<close> of
  \<open>libs/mrcp/resources\<close>.
\<close>

section \<open>Identifiers\<close>

text \<open>The identifiers of the header fields, methods and events are their positions in the enumerations.\<close>

definition SYNTHESIZER_HEADER_COMPLETION_CAUSE :: nat where "SYNTHESIZER_HEADER_COMPLETION_CAUSE = 3"
definition SYNTHESIZER_HEADER_KILL_ON_BARGE_IN :: nat where "SYNTHESIZER_HEADER_KILL_ON_BARGE_IN = 1"
definition SYNTHESIZER_HEADER_COUNT :: nat where "SYNTHESIZER_HEADER_COUNT = 21"

definition SYNTHESIZER_COMPLETION_CAUSE_NORMAL :: nat where "SYNTHESIZER_COMPLETION_CAUSE_NORMAL = 0"
definition SYNTHESIZER_COMPLETION_CAUSE_COUNT :: nat where "SYNTHESIZER_COMPLETION_CAUSE_COUNT = 8"

definition SYNTHESIZER_SET_PARAMS :: nat where "SYNTHESIZER_SET_PARAMS = 0"
definition SYNTHESIZER_GET_PARAMS :: nat where "SYNTHESIZER_GET_PARAMS = 1"
definition SYNTHESIZER_SPEAK :: nat where "SYNTHESIZER_SPEAK = 2"
definition SYNTHESIZER_STOP :: nat where "SYNTHESIZER_STOP = 3"
definition SYNTHESIZER_PAUSE :: nat where "SYNTHESIZER_PAUSE = 4"
definition SYNTHESIZER_RESUME :: nat where "SYNTHESIZER_RESUME = 5"
definition SYNTHESIZER_BARGE_IN_OCCURRED :: nat where "SYNTHESIZER_BARGE_IN_OCCURRED = 6"
definition SYNTHESIZER_CONTROL :: nat where "SYNTHESIZER_CONTROL = 7"
definition SYNTHESIZER_DEFINE_LEXICON :: nat where "SYNTHESIZER_DEFINE_LEXICON = 8"
definition SYNTHESIZER_METHOD_COUNT :: nat where "SYNTHESIZER_METHOD_COUNT = 9"

definition SYNTHESIZER_SPEECH_MARKER :: nat where "SYNTHESIZER_SPEECH_MARKER = 0"
definition SYNTHESIZER_SPEAK_COMPLETE :: nat where "SYNTHESIZER_SPEAK_COMPLETE = 1"
definition SYNTHESIZER_EVENT_COUNT :: nat where "SYNTHESIZER_EVENT_COUNT = 2"

section \<open>String tables\<close>

definition synth_header_string_table :: "apt_str_table_item list" where
  "synth_header_string_table =
     [\<lparr>item_value = ''Jump-Size'', item_key = 0\<rparr>, \<lparr>item_value = ''Kill-On-Barge-In'', item_key = 0\<rparr>,
      \<lparr>item_value = ''Speaker-Profile'', item_key = 8\<rparr>, \<lparr>item_value = ''Completion-Cause'', item_key = 16\<rparr>,
      \<lparr>item_value = ''Completion-Reason'', item_key = 13\<rparr>, \<lparr>item_value = ''Voice-Gender'', item_key = 6\<rparr>,
      \<lparr>item_value = ''Voice-Age'', item_key = 6\<rparr>, \<lparr>item_value = ''Voice-Variant'', item_key = 6\<rparr>,
      \<lparr>item_value = ''Voice-Name'', item_key = 8\<rparr>, \<lparr>item_value = ''Prosody-Volume'', item_key = 8\<rparr>,
      \<lparr>item_value = ''Prosody-Rate'', item_key = 12\<rparr>, \<lparr>item_value = ''Speech-Marker'', item_key = 7\<rparr>,
      \<lparr>item_value = ''Speech-Language'', item_key = 7\<rparr>, \<lparr>item_value = ''Fetch-Hint'', item_key = 2\<rparr>,
      \<lparr>item_value = ''Audio-Fetch-Hint'', item_key = 0\<rparr>, \<lparr>item_value = ''Failed-Uri'', item_key = 10\<rparr>,
      \<lparr>item_value = ''Failed-Uri_Cause'', item_key = 10\<rparr>, \<lparr>item_value = ''Speak-Restart'', item_key = 13\<rparr>,
      \<lparr>item_value = ''Speak-Length'', item_key = 6\<rparr>, \<lparr>item_value = ''Load-Lexicon'', item_key = 2\<rparr>,
      \<lparr>item_value = ''Lexicon-Search-Order'', item_key = 2\<rparr>]"

definition speech_unit_string_table :: "apt_str_table_item list" where
  "speech_unit_string_table =
     [\<lparr>item_value = ''Second'', item_key = 2\<rparr>, \<lparr>item_value = ''Word'', item_key = 0\<rparr>,
      \<lparr>item_value = ''Sentence'', item_key = 2\<rparr>, \<lparr>item_value = ''Paragraph'', item_key = 0\<rparr>]"

definition voice_gender_string_table :: "apt_str_table_item list" where
  "voice_gender_string_table =
     [\<lparr>item_value = ''male'', item_key = 0\<rparr>, \<lparr>item_value = ''female'', item_key = 0\<rparr>,
      \<lparr>item_value = ''neutral'', item_key = 0\<rparr>]"

definition prosody_volume_string_table :: "apt_str_table_item list" where
  "prosody_volume_string_table =
     [\<lparr>item_value = ''silent'', item_key = 1\<rparr>, \<lparr>item_value = ''x-soft'', item_key = 2\<rparr>,
      \<lparr>item_value = ''soft'', item_key = 3\<rparr>, \<lparr>item_value = ''medium'', item_key = 0\<rparr>,
      \<lparr>item_value = ''loud'', item_key = 0\<rparr>, \<lparr>item_value = ''x-loud'', item_key = 5\<rparr>,
      \<lparr>item_value = ''default'', item_key = 0\<rparr>]"

definition prosody_rate_string_table :: "apt_str_table_item list" where
  "prosody_rate_string_table =
     [\<lparr>item_value = ''x-slow'', item_key = 3\<rparr>, \<lparr>item_value = ''slow'', item_key = 0\<rparr>,
      \<lparr>item_value = ''medium'', item_key = 0\<rparr>, \<lparr>item_value = ''fast'', item_key = 0\<rparr>,
      \<lparr>item_value = ''x-fast'', item_key = 4\<rparr>, \<lparr>item_value = ''default'', item_key = 0\<rparr>]"

definition synth_completion_cause_string_table :: "apt_str_table_item list" where
  "synth_completion_cause_string_table =
     [\<lparr>item_value = ''normal'', item_key = 0\<rparr>, \<lparr>item_value = ''barge-in'', item_key = 0\<rparr>,
      \<lparr>item_value = ''parse-failure'', item_key = 0\<rparr>, \<lparr>item_value = ''uri-failure'', item_key = 0\<rparr>,
      \<lparr>item_value = ''error'', item_key = 0\<rparr>, \<lparr>item_value = ''language-unsupported'', item_key = 4\<rparr>,
      \<lparr>item_value = ''lexicon-load-failure'', item_key = 1\<rparr>, \<lparr>item_value = ''cancelled'', item_key = 0\<rparr>]"

definition synth_method_string_table :: "apt_str_table_item list" where
  "synth_method_string_table =
     [\<lparr>item_value = ''SET-PARAMS'', item_key = 10\<rparr>, \<lparr>item_value = ''GET-PARAMS'', item_key = 0\<rparr>,
      \<lparr>item_value = ''SPEAK'', item_key = 1\<rparr>, \<lparr>item_value = ''STOP'', item_key = 1\<rparr>,
      \<lparr>item_value = ''PAUSE'', item_key = 0\<rparr>, \<lparr>item_value = ''RESUME'', item_key = 0\<rparr>,
      \<lparr>item_value = ''BARGE-IN-OCCURRED'', item_key = 0\<rparr>, \<lparr>item_value = ''CONTROL'', item_key = 0\<rparr>,
      \<lparr>item_value = ''DEFINE-LEXICON'', item_key = 0\<rparr>]"

definition synth_event_string_table :: "apt_str_table_item list" where
  "synth_event_string_table =
     [\<lparr>item_value = ''SPEECH-MARKER'', item_key = 3\<rparr>, \<lparr>item_value = ''SPEAK-COMPLETE'', item_key = 3\<rparr>]"

section \<open>The header\<close>

text \<open>
  The unions of the C structures are datatypes with a constructor per member and one for a union that was never written.
  A member that is read although another one, or none, was written has no value in the model.
\<close>

definition SPEECH_UNIT_COUNT :: nat where "SPEECH_UNIT_COUNT = 4"
definition VOICE_GENDER_COUNT :: nat where "VOICE_GENDER_COUNT = 3"
definition PROSODY_VOLUME_COUNT :: nat where "PROSODY_VOLUME_COUNT = 7"
definition PROSODY_RATE_COUNT :: nat where "PROSODY_RATE_COUNT = 6"

datatype mrcp_speech_length_type_e =
    SPEECH_LENGTH_TYPE_TEXT | SPEECH_LENGTH_TYPE_NUMERIC_POSITIVE | SPEECH_LENGTH_TYPE_NUMERIC_NEGATIVE
  | SPEECH_LENGTH_TYPE_UNKNOWN

datatype mrcp_prosody_volume_type_e =
    PROSODY_VOLUME_TYPE_LABEL | PROSODY_VOLUME_TYPE_NUMERIC | PROSODY_VOLUME_TYPE_RELATIVE_CHANGE
  | PROSODY_VOLUME_TYPE_UNKNOWN

datatype mrcp_prosody_rate_type_e =
  PROSODY_RATE_TYPE_LABEL | PROSODY_RATE_TYPE_RELATIVE_CHANGE | PROSODY_RATE_TYPE_UNKNOWN

text \<open>A numeric speech length of which one member may still be unwritten.\<close>

datatype speech_length_union = LengthUnset | LengthTag apt_str | LengthNumeric "nat option" "nat option"

record mrcp_speech_length_value =
  speech_length_type :: mrcp_speech_length_type_e
  speech_length_value :: speech_length_union

record mrcp_voice_param =
  gender :: nat
  age :: nat
  variant :: nat
  voice_name :: apt_str

datatype 'f prosody_volume_union = VolumeUnset | VolumeLabel nat | VolumeNumeric 'f | VolumeRelative 'f

record 'f mrcp_prosody_volume =
  volume_type :: mrcp_prosody_volume_type_e
  volume_value :: "'f prosody_volume_union"

datatype 'f prosody_rate_union = RateUnset | RateLabel nat | RateRelative 'f

record 'f mrcp_prosody_rate =
  rate_type :: mrcp_prosody_rate_type_e
  rate_value :: "'f prosody_rate_union"

record 'f mrcp_prosody_param =
  volume :: "'f mrcp_prosody_volume"
  rate :: "'f mrcp_prosody_rate"

definition apt_string_table_value_parse :: "apt_str_table_item list \<Rightarrow> nat \<Rightarrow> apt_str \<Rightarrow> nat" where
  "apt_string_table_value_parse table n val = apt_string_table_id_find table n val"

definition apt_string_table_value_pgenerate :: "apt_str_table_item list \<Rightarrow> nat \<Rightarrow> nat \<Rightarrow> apt_str option" where
  "apt_string_table_value_pgenerate table n k = apt_string_table_str_get table n k"

definition mrcp_prosody_param_rate_parse ::
  "'f float_ops \<Rightarrow> 'f mrcp_prosody_rate \<Rightarrow> apt_str \<Rightarrow> bool \<times> 'f mrcp_prosody_rate"
where
  "mrcp_prosody_param_rate_parse fo r val =
     (if val = [] then (False, r)
      else if isdigit (hd val) then
        (True, r\<lparr>rate_type := PROSODY_RATE_TYPE_RELATIVE_CHANGE, rate_value := RateRelative (apt_float_value_parse fo val)\<rparr>)
      else
        (True, r\<lparr>rate_type := PROSODY_RATE_TYPE_LABEL,
                 rate_value := RateLabel (apt_string_table_value_parse prosody_rate_string_table PROSODY_RATE_COUNT val)\<rparr>))"

definition mrcp_prosody_rate_generate :: "'f float_ops \<Rightarrow> 'f mrcp_prosody_rate \<Rightarrow> apt_str option" where
  "mrcp_prosody_rate_generate fo r =
     (if rate_type r = PROSODY_RATE_TYPE_LABEL then
        (case rate_value r of
           RateLabel l \<Rightarrow>
             Some (case apt_string_table_value_pgenerate prosody_rate_string_table PROSODY_RATE_COUNT l of
                     None \<Rightarrow> [] | Some v \<Rightarrow> v)
         | _ \<Rightarrow> None)
      else
        (case rate_value r of RateRelative f \<Rightarrow> Some (apt_float_value_generate fo f) | _ \<Rightarrow> None))"

definition mrcp_prosody_param_volume_parse ::
  "'f float_ops \<Rightarrow> 'f mrcp_prosody_volume \<Rightarrow> apt_str \<Rightarrow> bool \<times> 'f mrcp_prosody_volume"
where
  "mrcp_prosody_param_volume_parse fo p val =
     (if val = [] then (False, p)
      else if hd val = CHR ''+'' \<or> hd val = CHR ''-'' then
        (True, p\<lparr>volume_type := PROSODY_VOLUME_TYPE_RELATIVE_CHANGE,
                 volume_value := VolumeRelative (apt_float_value_parse fo val)\<rparr>)
      else if isdigit (hd val) then
        (True, p\<lparr>volume_type := PROSODY_VOLUME_TYPE_NUMERIC, volume_value := VolumeNumeric (apt_float_value_parse fo val)\<rparr>)
      else
        (True, p\<lparr>volume_type := PROSODY_VOLUME_TYPE_LABEL,
                 volume_value :=
                   VolumeLabel (apt_string_table_value_parse prosody_volume_string_table PROSODY_VOLUME_COUNT val)\<rparr>))"

definition mrcp_prosody_volume_generate :: "'f float_ops \<Rightarrow> 'f mrcp_prosody_volume \<Rightarrow> apt_str option" where
  "mrcp_prosody_volume_generate fo p =
     (if volume_type p = PROSODY_VOLUME_TYPE_LABEL then
        (case volume_value p of
           VolumeLabel l \<Rightarrow>
             Some (case apt_string_table_value_pgenerate prosody_volume_string_table PROSODY_VOLUME_COUNT l of
                     None \<Rightarrow> [] | Some v \<Rightarrow> v)
         | _ \<Rightarrow> None)
      else if volume_type p = PROSODY_VOLUME_TYPE_NUMERIC then
        (case volume_value p of VolumeNumeric f \<Rightarrow> Some (apt_float_value_generate fo f) | _ \<Rightarrow> None)
      else
        (case volume_value p of VolumeRelative f \<Rightarrow> Some (apt_float_value_generate fo f) | _ \<Rightarrow> None))"

definition numeric_length_set :: "nat \<Rightarrow> speech_length_union \<Rightarrow> speech_length_union" where
  "numeric_length_set n u = (case u of LengthNumeric _ un \<Rightarrow> LengthNumeric (Some n) un | _ \<Rightarrow> LengthNumeric (Some n) None)"

definition numeric_unit_set :: "nat \<Rightarrow> speech_length_union \<Rightarrow> speech_length_union" where
  "numeric_unit_set k u = (case u of LengthNumeric n _ \<Rightarrow> LengthNumeric n (Some k) | _ \<Rightarrow> LengthNumeric None (Some k))"

definition mrcp_speech_length_value_parse ::
  "mrcp_speech_length_value \<Rightarrow> apt_str \<Rightarrow> bool \<times> mrcp_speech_length_value"
where
  "mrcp_speech_length_value_parse l val =
     (if val = [] then (False, l)
      else
        (let l = l\<lparr>speech_length_type :=
                    (if hd val = CHR ''+'' then SPEECH_LENGTH_TYPE_NUMERIC_POSITIVE
                     else if hd val = CHR ''-'' then SPEECH_LENGTH_TYPE_NUMERIC_NEGATIVE else SPEECH_LENGTH_TYPE_TEXT)\<rparr>
         in if speech_length_type l = SPEECH_LENGTH_TYPE_TEXT then (True, l\<lparr>speech_length_value := LengthTag val\<rparr>)
            else
              (let s = (ts_of val)\<lparr>ts_pos := Suc (ts_pos (ts_of val))\<rparr>
               in case apt_text_field_read s APT_TOKEN_SP True of
                    (False, _, _) \<Rightarrow> (False, l)
                  | (True, str, s) \<Rightarrow>
                      (let l = l\<lparr>speech_length_value := numeric_length_set (apt_size_value_parse str) (speech_length_value l)\<rparr>
                       in case apt_text_field_read s APT_TOKEN_SP True of
                            (False, _, _) \<Rightarrow> (False, l)
                          | (True, str, s) \<Rightarrow>
                              (True, l\<lparr>speech_length_value :=
                                 numeric_unit_set
                                   (apt_string_table_value_parse speech_unit_string_table SPEECH_UNIT_COUNT str)
                                   (speech_length_value l)\<rparr>)))))"

definition mrcp_speech_length_generate :: "apr_fmt \<Rightarrow> mrcp_speech_length_value \<Rightarrow> (bool \<times> apt_str) option" where
  "mrcp_speech_length_generate apr l =
     (if speech_length_type l = SPEECH_LENGTH_TYPE_TEXT then
        (case speech_length_value l of LengthTag tag \<Rightarrow> Some (True, tag) | _ \<Rightarrow> None)
      else
        (case speech_length_value l of
           LengthNumeric n (Some k) \<Rightarrow>
             (case apt_string_table_str_get speech_unit_string_table SPEECH_UNIT_COUNT k of
                None \<Rightarrow> Some (False, [])
              | Some unit \<Rightarrow> do {
                  n \<leftarrow> n;
                  Some (True,
                    (if speech_length_type l = SPEECH_LENGTH_TYPE_NUMERIC_POSITIVE then CHR ''+'' else CHR ''-'')
                    # apr_psprintf_size apr n @ CHR '' '' # unit)
                })
         | _ \<Rightarrow> None))"

record 'f mrcp_synth_header =
  jump_size :: mrcp_speech_length_value
  kill_on_barge_in :: bool
  speaker_profile :: apt_str
  completion_cause :: nat
  completion_reason :: apt_str
  voice_param :: mrcp_voice_param
  prosody_param :: "'f mrcp_prosody_param"
  speech_marker :: apt_str
  speech_language :: apt_str
  fetch_hint :: apt_str
  audio_fetch_hint :: apt_str
  failed_uri :: apt_str
  failed_uri_cause :: apt_str
  speak_restart :: bool
  speak_length :: mrcp_speech_length_value
  load_lexicon :: bool
  lexicon_search_order :: apt_str

definition mrcp_synth_header_init :: "'f float_ops \<Rightarrow> 'f mrcp_synth_header" where
  "mrcp_synth_header_init fo =
     \<lparr>jump_size = \<lparr>speech_length_type = SPEECH_LENGTH_TYPE_UNKNOWN, speech_length_value = LengthUnset\<rparr>,
      kill_on_barge_in = False,
      speaker_profile = [],
      completion_cause = SYNTHESIZER_COMPLETION_CAUSE_COUNT,
      completion_reason = [],
      voice_param = \<lparr>gender = VOICE_GENDER_COUNT, age = 0, variant = 0, voice_name = []\<rparr>,
      prosody_param = \<lparr>volume = \<lparr>volume_type = PROSODY_VOLUME_TYPE_UNKNOWN, volume_value = VolumeUnset\<rparr>,
        rate = \<lparr>rate_type = PROSODY_RATE_TYPE_UNKNOWN, rate_value = RateUnset\<rparr>\<rparr>,
      speech_marker = [],
      speech_language = [],
      fetch_hint = [],
      audio_fetch_hint = [],
      failed_uri = [],
      failed_uri_cause = [],
      speak_restart = False,
      speak_length = \<lparr>speech_length_type = SPEECH_LENGTH_TYPE_UNKNOWN, speech_length_value = LengthUnset\<rparr>,
      load_lexicon = False,
      lexicon_search_order = []\<rparr>"

definition mrcp_synth_header_parse :: "'f float_ops \<Rightarrow> 'f mrcp_synth_header \<Rightarrow> nat \<Rightarrow> apt_str \<Rightarrow> bool \<times> 'f mrcp_synth_header" where
  "mrcp_synth_header_parse fo d k val =
     (if k = 0 then (True, d\<lparr>jump_size := snd (mrcp_speech_length_value_parse (jump_size d) val)\<rparr>)
      else if k = 1 then (True, d\<lparr>kill_on_barge_in := boolean_value_read val (kill_on_barge_in d)\<rparr>)
      else if k = 2 then (True, d\<lparr>speaker_profile := val\<rparr>)
      else if k = 3 then (True, d\<lparr>completion_cause := enum_of_size (apt_size_value_parse val)\<rparr>)
      else if k = 4 then (True, d\<lparr>completion_reason := val\<rparr>)
      else if k = 5 then (True, d\<lparr>voice_param := (voice_param d)\<lparr>gender := apt_string_table_value_parse voice_gender_string_table VOICE_GENDER_COUNT val\<rparr>\<rparr>)
      else if k = 6 then (True, d\<lparr>voice_param := (voice_param d)\<lparr>age := apt_size_value_parse val\<rparr>\<rparr>)
      else if k = 7 then (True, d\<lparr>voice_param := (voice_param d)\<lparr>variant := apt_size_value_parse val\<rparr>\<rparr>)
      else if k = 8 then (True, d\<lparr>voice_param := (voice_param d)\<lparr>voice_name := val\<rparr>\<rparr>)
      else if k = 9 then (True, d\<lparr>prosody_param := (prosody_param d)\<lparr>volume := snd (mrcp_prosody_param_volume_parse fo (volume (prosody_param d)) val)\<rparr>\<rparr>)
      else if k = 10 then (True, d\<lparr>prosody_param := (prosody_param d)\<lparr>rate := snd (mrcp_prosody_param_rate_parse fo (rate (prosody_param d)) val)\<rparr>\<rparr>)
      else if k = 11 then (True, d\<lparr>speech_marker := val\<rparr>)
      else if k = 12 then (True, d\<lparr>speech_language := val\<rparr>)
      else if k = 13 then (True, d\<lparr>fetch_hint := val\<rparr>)
      else if k = 14 then (True, d\<lparr>audio_fetch_hint := val\<rparr>)
      else if k = 15 then (True, d\<lparr>failed_uri := val\<rparr>)
      else if k = 16 then (True, d\<lparr>failed_uri_cause := val\<rparr>)
      else if k = 17 then (True, d\<lparr>speak_restart := boolean_value_read val (speak_restart d)\<rparr>)
      else if k = 18 then (True, d\<lparr>speak_length := snd (mrcp_speech_length_value_parse (speak_length d) val)\<rparr>)
      else if k = 19 then (True, d\<lparr>load_lexicon := boolean_value_read val (load_lexicon d)\<rparr>)
      else if k = 20 then (True, d\<lparr>lexicon_search_order := val\<rparr>)
      else (False, d))"

definition mrcp_synth_header_generate :: "apr_fmt \<Rightarrow> 'f float_ops \<Rightarrow> 'f mrcp_synth_header \<Rightarrow> nat \<Rightarrow> (bool \<times> apt_str) option" where
  "mrcp_synth_header_generate apr fo d k =
     (if k = 0 then map_option (\<lambda>v. (True, snd v)) (mrcp_speech_length_generate apr (jump_size d))
      else if k = 1 then Some (True, apt_boolean_value_generate (kill_on_barge_in d))
      else if k = 2 then Some (True, speaker_profile d)
      else if k = 3 then Some (True, case apt_completion_cause_generate synth_completion_cause_string_table SYNTHESIZER_COMPLETION_CAUSE_COUNT (completion_cause d) of
          None \<Rightarrow> [] | Some v \<Rightarrow> v)
      else if k = 4 then Some (True, completion_reason d)
      else if k = 5 then Some (True, case apt_string_table_value_pgenerate voice_gender_string_table VOICE_GENDER_COUNT (gender (voice_param d)) of
          None \<Rightarrow> [] | Some v \<Rightarrow> v)
      else if k = 6 then Some (True, apt_size_value_generate apr (age (voice_param d)))
      else if k = 7 then Some (True, apt_size_value_generate apr (variant (voice_param d)))
      else if k = 8 then Some (True, voice_name (voice_param d))
      else if k = 9 then map_option (Pair True) (mrcp_prosody_volume_generate fo (volume (prosody_param d)))
      else if k = 10 then map_option (Pair True) (mrcp_prosody_rate_generate fo (rate (prosody_param d)))
      else if k = 11 then Some (True, speech_marker d)
      else if k = 12 then Some (True, speech_language d)
      else if k = 13 then Some (True, fetch_hint d)
      else if k = 14 then Some (True, audio_fetch_hint d)
      else if k = 15 then Some (True, failed_uri d)
      else if k = 16 then Some (True, failed_uri_cause d)
      else if k = 17 then Some (True, apt_boolean_value_generate (speak_restart d))
      else if k = 18 then map_option (\<lambda>v. (True, snd v)) (mrcp_speech_length_generate apr (speak_length d))
      else if k = 19 then Some (True, apt_boolean_value_generate (load_lexicon d))
      else if k = 20 then Some (True, lexicon_search_order d)
      else Some (True, []))"

definition mrcp_synth_header_duplicate ::
  "'f mrcp_synth_header option \<Rightarrow> 'f mrcp_synth_header option \<Rightarrow> nat \<Rightarrow> apt_str \<Rightarrow> bool \<times> 'f mrcp_synth_header option"
where
  "mrcp_synth_header_duplicate dst source k val =
     (case (dst, source) of
        (Some d, Some src) \<Rightarrow>
     (if k = 0 then (True, Some (d\<lparr>jump_size := jump_size src\<rparr>))
      else if k = 1 then (True, Some (d\<lparr>kill_on_barge_in := kill_on_barge_in src\<rparr>))
      else if k = 2 then (True, Some (d\<lparr>speaker_profile := val\<rparr>))
      else if k = 3 then (True, Some (d\<lparr>completion_cause := completion_cause src\<rparr>))
      else if k = 4 then (True, Some (d\<lparr>completion_reason := val\<rparr>))
      else if k = 5 then (True, Some (d\<lparr>voice_param := (voice_param d)\<lparr>gender := gender (voice_param src)\<rparr>\<rparr>))
      else if k = 6 then (True, Some (d\<lparr>voice_param := (voice_param d)\<lparr>age := age (voice_param src)\<rparr>\<rparr>))
      else if k = 7 then (True, Some (d\<lparr>voice_param := (voice_param d)\<lparr>variant := variant (voice_param src)\<rparr>\<rparr>))
      else if k = 8 then (True, Some (d\<lparr>voice_param := (voice_param d)\<lparr>voice_name := val\<rparr>\<rparr>))
      else if k = 9 then (True, Some (d\<lparr>prosody_param := (prosody_param d)\<lparr>volume := volume (prosody_param src)\<rparr>\<rparr>))
      else if k = 10 then (True, Some (d\<lparr>prosody_param := (prosody_param d)\<lparr>rate := rate (prosody_param src)\<rparr>\<rparr>))
      else if k = 11 then (True, Some (d\<lparr>speech_marker := val\<rparr>))
      else if k = 12 then (True, Some (d\<lparr>speech_language := val\<rparr>))
      else if k = 13 then (True, Some (d\<lparr>fetch_hint := val\<rparr>))
      else if k = 14 then (True, Some (d\<lparr>audio_fetch_hint := val\<rparr>))
      else if k = 15 then (True, Some (d\<lparr>failed_uri := val\<rparr>))
      else if k = 16 then (True, Some (d\<lparr>failed_uri_cause := val\<rparr>))
      else if k = 17 then (True, Some (d\<lparr>speak_restart := speak_restart src\<rparr>))
      else if k = 18 then (True, Some (d\<lparr>speak_length := speak_length src\<rparr>))
      else if k = 19 then (True, Some (d\<lparr>load_lexicon := load_lexicon src\<rparr>))
      else if k = 20 then (True, Some (d\<lparr>lexicon_search_order := val\<rparr>))
      else (False, Some d))
      | _ \<Rightarrow> (False, dst))"

definition mrcp_synth_header_vtable_get ::
  "apr_fmt \<Rightarrow> 'f float_ops \<Rightarrow> mrcp_version_e \<Rightarrow> 'f mrcp_synth_header mrcp_header_vtable"
where
  "mrcp_synth_header_vtable_get apr fo v =
     \<lparr>allocate = Some (mrcp_synth_header_init fo), parse_field = mrcp_synth_header_parse fo,
      generate_field = mrcp_synth_header_generate apr fo, duplicate_field = mrcp_synth_header_duplicate,
      field_table = synth_header_string_table, field_count = SYNTHESIZER_HEADER_COUNT\<rparr>"

definition mrcp_synth_completion_cause_get :: "nat \<Rightarrow> mrcp_version_e \<Rightarrow> apt_str option" where
  "mrcp_synth_completion_cause_get cause v =
     apt_string_table_str_get synth_completion_cause_string_table SYNTHESIZER_COMPLETION_CAUSE_COUNT cause"

section \<open>The resource\<close>

definition mrcp_synth_resource_create :: "apr_fmt \<Rightarrow> 'f float_ops \<Rightarrow> 'f mrcp_synth_header mrcp_resource" where
  "mrcp_synth_resource_create apr fo =
     \<lparr>res_id = 0, res_name = [], method_count = SYNTHESIZER_METHOD_COUNT, event_count = SYNTHESIZER_EVENT_COUNT,
      get_method_str_table = (\<lambda>_. synth_method_string_table),
      get_event_str_table = (\<lambda>_. synth_event_string_table),
      get_resource_header_vtable = (\<lambda>v. Some (mrcp_synth_header_vtable_get apr fo v))\<rparr>"

section \<open>Fields on the wire\<close>

lemma synth_names:
  "table_names_distinct synth_header_string_table SYNTHESIZER_HEADER_COUNT"
  "table_names_distinct speech_unit_string_table SPEECH_UNIT_COUNT"
  "table_names_distinct voice_gender_string_table VOICE_GENDER_COUNT"
  "table_names_distinct prosody_volume_string_table PROSODY_VOLUME_COUNT"
  "table_names_distinct prosody_rate_string_table PROSODY_RATE_COUNT"
  by code_simp+

text \<open>
  A speech length that survives: a tag that does not start with a sign, or a number with a known unit. The number fits
  into a signed 64-bit integer.
\<close>

fun speech_length_wire_ok :: "mrcp_speech_length_value \<Rightarrow> bool" where
  "speech_length_wire_ok l \<longleftrightarrow>
     (case speech_length_value l of
        LengthUnset \<Rightarrow> False
      | LengthTag tag \<Rightarrow> speech_length_type l = SPEECH_LENGTH_TYPE_TEXT \<and> tag \<noteq> [] \<and> hd tag \<noteq> CHR ''+'' \<and> hd tag \<noteq> CHR ''-''
      | LengthNumeric (Some n) (Some k) \<Rightarrow>
          (speech_length_type l = SPEECH_LENGTH_TYPE_NUMERIC_POSITIVE \<or>
           speech_length_type l = SPEECH_LENGTH_TYPE_NUMERIC_NEGATIVE) \<and> n < 2 ^ 63
      | LengthNumeric _ _ \<Rightarrow> False)"

lemma table_value_wire:
  assumes "table_names_distinct table n" "apt_string_table_str_get table n k = Some name"
  shows "apt_string_table_value_parse table n name = k" and "name \<noteq> []"
proof -
  have "k < n" using assms(2) by (simp add: apt_string_table_str_get_def split: if_splits)
  from assms(1) this obtain name' where "apt_string_table_str_get table n k = Some name'" "name' \<noteq> []"
      "apt_string_table_id_find table n name' = k"
    by (rule table_names_distinctD)
  with assms(2) show "apt_string_table_value_parse table n name = k" "name \<noteq> []"
    by (simp_all add: apt_string_table_value_parse_def)
qed

lemma speech_unit_no_space:
  assumes "apt_string_table_str_get speech_unit_string_table SPEECH_UNIT_COUNT k = Some name"
  shows "APT_TOKEN_SP \<notin> set name"
proof -
  have "list_all (\<lambda>item. APT_TOKEN_SP \<notin> set (item_value item)) speech_unit_string_table" by code_simp
  moreover have "k < length speech_unit_string_table" "name = item_value (speech_unit_string_table ! k)"
    using assms by (auto simp: apt_string_table_str_get_def SPEECH_UNIT_COUNT_def speech_unit_string_table_def split: if_splits)
  ultimately show ?thesis by (simp add: list_all_length)
qed

lemma speech_length_numeric_parse:
  assumes "sign = CHR ''+'' \<or> sign = CHR ''-''" "n < 2 ^ 63"
    and "apt_string_table_str_get speech_unit_string_table SPEECH_UNIT_COUNT k = Some unit"
  shows "mrcp_speech_length_value_parse l0 (sign # dec n @ APT_TOKEN_SP # unit) =
    (True, \<lparr>speech_length_type =
              (if sign = CHR ''+'' then SPEECH_LENGTH_TYPE_NUMERIC_POSITIVE else SPEECH_LENGTH_TYPE_NUMERIC_NEGATIVE),
            speech_length_value = LengthNumeric (Some n) (Some k)\<rparr>)"
proof -
  let ?val = "sign # dec n @ APT_TOKEN_SP # unit"
  let ?s = "(ts_of ?val)\<lparr>ts_pos := Suc (ts_pos (ts_of ?val))\<rparr>"
  note unit = table_value_wire [OF synth_names(2) assms(3)] speech_unit_no_space [OF assms(3)]
  have rest: "ts_wf ?s" "ts_rest ?s = dec n @ APT_TOKEN_SP # unit"
    using ts_advance [of "ts_of ?val" 1] by simp_all
  have sp: "APT_TOKEN_SP \<notin> set (dec n)" "hd (dec n) \<noteq> APT_TOKEN_SP"
    using dec_digits [of n] dec_hd_digit [of n] isdigit_not_special by auto
  obtain s1 where s1: "apt_text_field_read ?s APT_TOKEN_SP True = (True, dec n, s1)" "ts_wf s1" "ts_rest s1 = unit"
    by (rule field_read_sep [OF rest sp(1), of True]) (use sp in simp_all)
  have "unit \<noteq> []" "hd unit \<noteq> APT_TOKEN_SP" using unit by (auto simp: neq_Nil_conv)
  then obtain s2 where s2: "apt_text_field_read s1 APT_TOKEN_SP True = (True, unit, s2)"
    using field_read_last [OF s1(2,3) unit(3), of True] by auto
  have "apt_size_value_parse (dec n) = n"
    using atol_dec [of n "[]"] assms(2) by (simp add: apt_size_value_parse_def)
  with s1(1) s2 unit(1) assms(1) show ?thesis
    by (cases l0; cases "speech_length_value l0")
      (auto simp: mrcp_speech_length_value_parse_def Let_def numeric_length_set_def numeric_unit_set_def split: if_splits)
qed

lemma speech_length_wire:
  assumes "apr_fmt_ok apr" "speech_length_wire_ok l" "mrcp_speech_length_generate apr l = Some (b, val)" "val \<noteq> []"
  shows "mrcp_speech_length_value_parse l0 val = (True, l)"
proof (cases "speech_length_value l")
  case (LengthNumeric no ko)
  with assms obtain n k where nk: "no = Some n" "ko = Some k" "n < 2 ^ 63"
      and ty: "speech_length_type l = SPEECH_LENGTH_TYPE_NUMERIC_POSITIVE \<or>
        speech_length_type l = SPEECH_LENGTH_TYPE_NUMERIC_NEGATIVE"
    by (auto split: option.splits)
  with LengthNumeric assms obtain unit where unit: "apt_string_table_str_get speech_unit_string_table SPEECH_UNIT_COUNT k = Some unit"
      and val: "val = (if speech_length_type l = SPEECH_LENGTH_TYPE_NUMERIC_POSITIVE then CHR ''+'' else CHR ''-'')
        # dec n @ APT_TOKEN_SP # unit"
    by (auto simp: mrcp_speech_length_generate_def apr_fmt_okD split: option.splits)
  have "l = \<lparr>speech_length_type = speech_length_type l, speech_length_value = LengthNumeric (Some n) (Some k)\<rparr>"
    using LengthNumeric nk by (cases l) simp
  then show ?thesis
    using ty speech_length_numeric_parse [OF _ nk(3) unit, of "CHR ''+''" l0]
      speech_length_numeric_parse [OF _ nk(3) unit, of "CHR ''-''" l0]
    unfolding val by (auto split: if_splits)
qed (use assms in \<open>auto simp: mrcp_speech_length_generate_def mrcp_speech_length_value_parse_def Let_def\<close>)

text \<open>Labels of the prosody parameters: none of them looks like a number or a relative change.\<close>

lemma prosody_label_start:
  "apt_string_table_str_get prosody_volume_string_table PROSODY_VOLUME_COUNT k = Some name \<Longrightarrow>
     hd name \<noteq> CHR ''+'' \<and> hd name \<noteq> CHR ''-'' \<and> \<not> isdigit (hd name)"
  "apt_string_table_str_get prosody_rate_string_table PROSODY_RATE_COUNT k = Some name \<Longrightarrow> \<not> isdigit (hd name)"
proof -
  have v: "list_all (\<lambda>item. hd (item_value item) \<noteq> CHR ''+'' \<and> hd (item_value item) \<noteq> CHR ''-'' \<and>
      \<not> isdigit (hd (item_value item))) prosody_volume_string_table"
    and r: "list_all (\<lambda>item. \<not> isdigit (hd (item_value item))) prosody_rate_string_table"
    by code_simp+
  show "hd name \<noteq> CHR ''+'' \<and> hd name \<noteq> CHR ''-'' \<and> \<not> isdigit (hd name)"
    if "apt_string_table_str_get prosody_volume_string_table PROSODY_VOLUME_COUNT k = Some name"
    using v that by (auto simp: apt_string_table_str_get_def list_all_length prosody_volume_string_table_def
      PROSODY_VOLUME_COUNT_def split: if_splits)
  show "\<not> isdigit (hd name)" if "apt_string_table_str_get prosody_rate_string_table PROSODY_RATE_COUNT k = Some name"
    using r that by (auto simp: apt_string_table_str_get_def list_all_length prosody_rate_string_table_def
      PROSODY_RATE_COUNT_def split: if_splits)
qed

lemma prosody_volume_wire:
  assumes "volume_type p = PROSODY_VOLUME_TYPE_LABEL" "mrcp_prosody_volume_generate fo p = Some val" "val \<noteq> []"
  shows "mrcp_prosody_param_volume_parse fo p0 val = (True, p)"
proof -
  from assms obtain l where l: "volume_value p = VolumeLabel l"
      "apt_string_table_str_get prosody_volume_string_table PROSODY_VOLUME_COUNT l = Some val"
    by (auto simp: mrcp_prosody_volume_generate_def apt_string_table_value_pgenerate_def
      split: prosody_volume_union.splits option.splits)
  with table_value_wire [OF synth_names(4) l(2)] prosody_label_start(1) [OF l(2)] assms(1,3) show ?thesis
    by (simp add: mrcp_prosody_param_volume_parse_def)
qed

lemma prosody_rate_wire:
  assumes "rate_type p = PROSODY_RATE_TYPE_LABEL" "mrcp_prosody_rate_generate fo p = Some val" "val \<noteq> []"
  shows "mrcp_prosody_param_rate_parse fo p0 val = (True, p)"
proof -
  from assms obtain l where l: "rate_value p = RateLabel l"
      "apt_string_table_str_get prosody_rate_string_table PROSODY_RATE_COUNT l = Some val"
    by (auto simp: mrcp_prosody_rate_generate_def apt_string_table_value_pgenerate_def
      split: prosody_rate_union.splits option.splits)
  with table_value_wire [OF synth_names(5) l(2)] prosody_label_start(2) [OF l(2)] assms(1,3) show ?thesis
    by (simp add: mrcp_prosody_param_rate_parse_def)
qed

lemma gender_wire:
  assumes "(case apt_string_table_value_pgenerate voice_gender_string_table VOICE_GENDER_COUNT g of None \<Rightarrow> [] | Some v \<Rightarrow> v) \<noteq> []"
  shows "apt_string_table_value_parse voice_gender_string_table VOICE_GENDER_COUNT
    (case apt_string_table_value_pgenerate voice_gender_string_table VOICE_GENDER_COUNT g of None \<Rightarrow> [] | Some v \<Rightarrow> v) = g"
  using assms table_value_wire(1) [OF synth_names(3)]
  by (auto simp: apt_string_table_value_pgenerate_def split: option.splits)

text \<open>
  The fields of the header that survive: speech lengths as above, sizes that fit into a signed 64-bit integer, and prosody
  parameters given by a label.
\<close>

definition synth_wire_ok :: "apr_fmt \<Rightarrow> 'f mrcp_synth_header \<Rightarrow> nat \<Rightarrow> bool" where
  "synth_wire_ok apr d k \<longleftrightarrow>
     apr_fmt_ok apr \<and> (k = 0 \<longrightarrow> speech_length_wire_ok (jump_size d)) \<and> (k = 18 \<longrightarrow> speech_length_wire_ok (speak_length d)) \<and>
     (k = 6 \<longrightarrow> age (voice_param d) < 2 ^ 63) \<and> (k = 7 \<longrightarrow> variant (voice_param d) < 2 ^ 63) \<and>
     (k = 9 \<longrightarrow> volume_type (volume (prosody_param d)) = PROSODY_VOLUME_TYPE_LABEL) \<and>
     (k = 10 \<longrightarrow> rate_type (rate (prosody_param d)) = PROSODY_RATE_TYPE_LABEL)"

lemmas synth_field_defs = mrcp_synth_header_vtable_get_def mrcp_synth_header_parse_def mrcp_synth_header_generate_def
  mrcp_synth_header_duplicate_def

lemma synth_length_fields_wire:
  assumes "k = 0 \<or> k = 18" "synth_wire_ok apr s k" "val \<noteq> []"
    and "Some (True, val) = generate_field (mrcp_synth_header_vtable_get apr fo v) s k"
  shows "\<exists>d'. parse_field (mrcp_synth_header_vtable_get apr fo v) d k val = (True, d') \<and>
    duplicate_field (mrcp_synth_header_vtable_get apr fo v) (Some d) (Some s) k val = (True, Some d')"
proof -
  let ?l = "if k = 0 then jump_size s else speak_length s"
  obtain b where "mrcp_speech_length_generate apr ?l = Some (b, val)"
    using assms(1) assms(4) [symmetric] by (auto simp: synth_field_defs)
  then have "mrcp_speech_length_value_parse l0 val = (True, ?l)" for l0
    using assms(1-3) unfolding synth_wire_ok_def
    by (intro speech_length_wire) (auto simp del: speech_length_wire_ok.simps)
  with assms(1) show ?thesis by (cases "k = 0") (simp_all add: synth_field_defs)
qed

lemma synth_prosody_fields_wire:
  assumes "k = 9 \<or> k = 10" "synth_wire_ok apr s k" "val \<noteq> []"
    and "Some (True, val) = generate_field (mrcp_synth_header_vtable_get apr fo v) s k"
  shows "\<exists>d'. parse_field (mrcp_synth_header_vtable_get apr fo v) d k val = (True, d') \<and>
    duplicate_field (mrcp_synth_header_vtable_get apr fo v) (Some d) (Some s) k val = (True, Some d')"
  using assms(1)
proof
  assume k: "k = 9"
  then have "mrcp_prosody_volume_generate fo (volume (prosody_param s)) = Some val"
    using assms(4) [symmetric] by (auto simp: synth_field_defs)
  with assms(2,3) k have "mrcp_prosody_param_volume_parse fo p0 val = (True, volume (prosody_param s))" for p0
    by (intro prosody_volume_wire) (simp_all add: synth_wire_ok_def)
  with k show ?thesis by (simp add: synth_field_defs)
next
  assume k: "k = 10"
  then have "mrcp_prosody_rate_generate fo (rate (prosody_param s)) = Some val"
    using assms(4) [symmetric] by (auto simp: synth_field_defs)
  with assms(2,3) k have "mrcp_prosody_param_rate_parse fo p0 val = (True, rate (prosody_param s))" for p0
    by (intro prosody_rate_wire) (simp_all add: synth_wire_ok_def)
  with k show ?thesis by (simp add: synth_field_defs)
qed

lemma synth_wire:
  assumes "k < SYNTHESIZER_HEADER_COUNT" "synth_wire_ok apr s k" "val \<noteq> []"
    and "Some (True, val) = generate_field (mrcp_synth_header_vtable_get apr fo v) s k"
  shows "\<exists>d'. parse_field (mrcp_synth_header_vtable_get apr fo v) d k val = (True, d') \<and>
    duplicate_field (mrcp_synth_header_vtable_get apr fo v) (Some d) (Some s) k val = (True, Some d')"
proof (cases "k \<in> {0, 9, 10, 18}")
  case True
  with synth_length_fields_wire [OF _ assms(2-)] synth_prosody_fields_wire [OF _ assms(2-)] show ?thesis by blast
next
  case False
  have "k < 21" using assms(1) by (simp add: SYNTHESIZER_HEADER_COUNT_def)
  then show ?thesis
    using assms(2-) False unfolding numeral_cases
    by - (elim disjE less_zeroE; hypsubst_thin; simp add: synth_wire_ok_def synth_field_defs SYNTHESIZER_COMPLETION_CAUSE_COUNT_def gender_wire
      wire_simps)
qed

interpretation synth_fields: header_contract "mrcp_synth_header_vtable_get apr fo v" "synth_wire_ok apr"
  for apr fo v
proof (unfold_locales, goal_cases)
  case 1
  show ?case using synth_names(1) by (simp add: mrcp_synth_header_vtable_get_def)
next
  case (2 k s val d)
  then show ?case by (intro synth_wire) (simp_all add: mrcp_synth_header_vtable_get_def)
qed

lemma synth_apart: "table_without synth_header_string_table generic_header_string_table"
  by code_simp

interpretation synth_message: message_contract "mrcp_synth_header_vtable_get apr fo v" "synth_wire_ok apr"
  for apr fo v
  using synth_apart by unfold_locales (simp add: mrcp_synth_header_vtable_get_def)


text \<open>A header with two fields of the synthesizer and one of the generic header.\<close>

definition synth_example :: "unit mrcp_synth_header mrcp_message_header" where
  "synth_example =
     \<lparr>generic_header_accessor =
        \<lparr>acc_data = Some (mrcp_generic_header_init\<lparr>content_type := ''text/plain''\<rparr>),
         acc_vtable = Some (mrcp_generic_header_vtable_get apr_std)\<rparr>,
      resource_header_accessor =
        \<lparr>acc_data = Some ((mrcp_synth_header_init float_unit)\<lparr>speaker_profile := ''alice'', jump_size := \<lparr>speech_length_type = SPEECH_LENGTH_TYPE_NUMERIC_NEGATIVE, speech_length_value = LengthNumeric (Some 3) (Some 0)\<rparr>\<rparr>),
         acc_vtable = Some (mrcp_synth_header_vtable_get apr_std float_unit MRCP_VERSION_2)\<rparr>,
      header_section =
        \<lparr>hs_ring =
           [(0, \<lparr>hf_name = ''Speaker-Profile'', hf_value = ''alice'', hf_id = 18\<rparr>), (1, \<lparr>hf_name = ''Jump-Size'', hf_value = ''-3 Second'', hf_id = 16\<rparr>),
            (2, \<lparr>hf_name = ''Content-Type'', hf_value = ''text/plain'', hf_id = 3\<rparr>)],
         hs_arr = []\<rparr>\<rparr>"

lemma synth_example_digits: "dec 3 = ''3''"
  by code_simp

lemma synth_example_generate:
  "mrcp_header_field_value_generate (resource_header_accessor synth_example) 2 False =
     Some (Some \<lparr>hf_name = ''Speaker-Profile'', hf_value = ''alice'', hf_id = UNKNOWN_HEADER_FIELD_ID\<rparr>)"
  "mrcp_header_field_value_generate (resource_header_accessor synth_example) 0 False =
     Some (Some \<lparr>hf_name = ''Jump-Size'', hf_value = ''-3 Second'', hf_id = UNKNOWN_HEADER_FIELD_ID\<rparr>)"
  "mrcp_header_field_value_generate (generic_header_accessor synth_example) 3 False =
     Some (Some \<lparr>hf_name = ''Content-Type'', hf_value = ''text/plain'', hf_id = UNKNOWN_HEADER_FIELD_ID\<rparr>)"
  by (simp_all add: mrcp_header_field_value_generate_def synth_example_def mrcp_synth_header_vtable_get_def mrcp_synth_header_generate_def synth_header_string_table_def SYNTHESIZER_HEADER_COUNT_def
    mrcp_generic_header_vtable_get_def mrcp_generic_header_generate_def generic_header_string_table_def
    GENERIC_HEADER_COUNT_def apt_string_table_str_get_def apt_header_field_alloc_def apt_boolean_value_generate_def
    apt_size_value_generate_def apr_std_def synth_example_digits mrcp_speech_length_generate_def speech_unit_string_table_def SPEECH_UNIT_COUNT_def)

lemma synth_example_sent:
  "header_sent apr_std (mrcp_synth_header_vtable_get apr_std float_unit MRCP_VERSION_2) (synth_wire_ok apr_std) synth_example"
proof -
  let ?n = "field_count (mrcp_synth_header_vtable_get apr_std float_unit MRCP_VERSION_2)"
  have "header_ready apr_std (mrcp_synth_header_vtable_get apr_std float_unit MRCP_VERSION_2) synth_example"
    by (simp add: header_ready_def synth_example_def)
  moreover have "resource_sent ?n (synth_wire_ok apr_std) synth_example
      \<lparr>hf_name = ''Speaker-Profile'', hf_value = ''alice'', hf_id = 18\<rparr>"
    unfolding resource_sent_def
    by (rule exI [of _ 2]) (simp add: synth_example_generate apr_std_ok synth_wire_ok_def
      mrcp_synth_header_vtable_get_def SYNTHESIZER_HEADER_COUNT_def GENERIC_HEADER_COUNT_def, simp add: synth_example_def)
  moreover have "resource_sent ?n (synth_wire_ok apr_std) synth_example
      \<lparr>hf_name = ''Jump-Size'', hf_value = ''-3 Second'', hf_id = 16\<rparr>"
    unfolding resource_sent_def
    by (rule exI [of _ 0]) (simp add: synth_example_generate apr_std_ok synth_wire_ok_def
      mrcp_synth_header_vtable_get_def SYNTHESIZER_HEADER_COUNT_def GENERIC_HEADER_COUNT_def, simp add: synth_example_def)
  moreover have "generic_sent apr_std synth_example \<lparr>hf_name = ''Content-Type'', hf_value = ''text/plain'', hf_id = 3\<rparr>"
    unfolding generic_sent_def
    by (simp add: synth_example_generate apr_std_ok generic_wire_ok_def GENERIC_HEADER_COUNT_def) (simp add: synth_example_def)
  moreover have "list_all (\<lambda>f. field_ok (snd f)) (hs_ring (header_section synth_example))" by code_simp
  ultimately show ?thesis by (auto simp: header_sent_def synth_example_def)
qed


end
