(* ===== verification/Mrcp_Synth_State_Machine.thy ===== *)
theory Mrcp_Synth_State_Machine
  imports Mrcp_State_Machine Mrcp_Synth_Resource
begin

text \<open>
  The state machine of the synthesizer: \<open>libs/mrcp-engine/src/mrcp_synth_state_machine.c\<close>. A handler takes the machine
  and a message and returns the result and the new machine, or \<^const>\<open>None\<close> when it follows a NULL pointer.
\<close>

section \<open>The machine\<close>

datatype mrcp_synth_state_e = SYNTHESIZER_STATE_IDLE | SYNTHESIZER_STATE_SPEAKING | SYNTHESIZER_STATE_PAUSED

type_synonym 'f synth_message = "'f mrcp_synth_header mrcp_message"

record 'f mrcp_synth_state_machine = "'f mrcp_synth_header mrcp_message mrcp_state_machine" +
  state :: mrcp_synth_state_e
  is_pending :: bool
  active_request :: "'f synth_message option"
  speaker :: "'f synth_message option"
  queue :: "'f synth_message list"
  properties :: "'f mrcp_synth_header mrcp_message_header"

type_synonym 'f synth_method =
  "'f mrcp_synth_state_machine \<Rightarrow> 'f synth_message \<Rightarrow> (bool \<times> 'f mrcp_synth_state_machine) option"

definition synth_request_dispatch :: "'f synth_method" where
  "synth_request_dispatch sm m = call_on_dispatch m (sm\<lparr>active_request := Some m\<rparr>)"

definition synth_response_dispatch :: "'f synth_method" where
  "synth_response_dispatch sm m =
     (let sm = sm\<lparr>active_request := None\<rparr>
      in if \<not> active sm then call_on_deactivate sm else call_on_dispatch m sm)"

definition synth_event_dispatch :: "'f synth_method" where
  "synth_event_dispatch sm m = (if \<not> active sm then Some (False, sm) else call_on_dispatch m sm)"

definition synth_state_change :: "mrcp_synth_state_e \<Rightarrow> 'f mrcp_synth_state_machine \<Rightarrow> 'f mrcp_synth_state_machine" where
  "synth_state_change st sm =
     (let sm = sm\<lparr>state := st\<rparr> in if st = SYNTHESIZER_STATE_IDLE then sm\<lparr>speaker := None\<rparr> else sm)"

section \<open>Requests, responses and events\<close>

definition synth_request_set_params :: "'f synth_method" where
  "synth_request_set_params sm m =
     synth_request_dispatch (sm\<lparr>properties := snd (mrcp_header_fields_set (properties sm) (header m))\<rparr>) m"

definition synth_response_set_params :: "'f synth_method" where
  "synth_response_set_params sm m = synth_response_dispatch sm m"

definition synth_request_get_params :: "'f synth_method" where
  "synth_request_get_params sm m = synth_request_dispatch sm m"

definition synth_response_get_params :: "'f synth_method" where
  "synth_response_get_params sm m = do {
     req \<leftarrow> active_request sm;
     synth_response_dispatch sm (m\<lparr>header := snd (mrcp_header_fields_get (header m) (properties sm) (header req))\<rparr>)
   }"

definition synth_request_speak :: "apr_fmt \<Rightarrow> 'f synth_method" where
  "synth_request_speak apr sm m =
     (let m = m\<lparr>header := snd (mrcp_header_fields_inherit (header m) (properties sm))\<rparr>
      in if speaker sm \<noteq> None then
           (let m = request_state_set MRCP_REQUEST_STATE_PENDING m;
                response = request_state_set MRCP_REQUEST_STATE_PENDING (mrcp_response_create apr 0 (Some m))
            in synth_response_dispatch (sm\<lparr>queue := queue sm @ [m]\<rparr>) response)
         else synth_request_dispatch sm m)"

text \<open>The response to a request from the queue is replaced by a SPEECH-MARKER event.\<close>

definition synth_response_speak :: "apr_fmt \<Rightarrow> 'f synth_method" where
  "synth_response_speak apr sm m =
     (let sm = (if request_state (start_line m) = MRCP_REQUEST_STATE_INPROGRESS
                then synth_state_change SYNTHESIZER_STATE_SPEAKING (sm\<lparr>speaker := active_request sm\<rparr>) else sm)
      in if is_pending sm then do {
           a \<leftarrow> active_request sm;
           synth_event_dispatch (sm\<lparr>is_pending := False\<rparr>)
             (request_state_set MRCP_REQUEST_STATE_INPROGRESS (mrcp_event_create apr (Some a) SYNTHESIZER_SPEECH_MARKER))
         }
         else synth_response_dispatch sm m)"

definition synth_pending_requests_remove ::
  "'f mrcp_synth_state_machine \<Rightarrow> 'f synth_message \<Rightarrow> 'f synth_message
    \<Rightarrow> ('f mrcp_synth_state_machine \<times> 'f synth_message) option"
where
  "synth_pending_requests_remove sm req resp = do {
     (q, resp) \<leftarrow> pending_requests_remove req resp (queue sm);
     Some (sm\<lparr>queue := q\<rparr>, resp)
   }"

definition synth_stop_immediately :: "apr_fmt \<Rightarrow> 'f synth_method" where
  "synth_stop_immediately apr sm m = do {
     (sm, response) \<leftarrow> synth_pending_requests_remove sm m (mrcp_response_create apr 0 (Some m));
     synth_response_dispatch sm response
   }"

definition synth_request_stop :: "apr_fmt \<Rightarrow> 'f synth_method" where
  "synth_request_stop apr sm m =
     (case speaker sm of
        None \<Rightarrow> synth_stop_immediately apr sm m
      | Some r \<Rightarrow>
          if stop_selects m (request_id (start_line r)) then synth_request_dispatch sm m
          else synth_stop_immediately apr sm m)"

text \<open>The request at the head of the queue, when there is one, is sent to the engine.\<close>

definition synth_pending_dispatch ::
  "'f synth_message option \<Rightarrow> 'f mrcp_synth_state_machine \<Rightarrow> (bool \<times> 'f mrcp_synth_state_machine) option"
where
  "synth_pending_dispatch pending sm =
     (case pending of
        None \<Rightarrow> Some (True, sm)
      | Some p \<Rightarrow> do { (_, sm) \<leftarrow> synth_request_dispatch (sm\<lparr>is_pending := True\<rparr>) p; Some (True, sm) })"

definition synth_queue_pop :: "'f mrcp_synth_state_machine \<Rightarrow> 'f synth_message option \<times> 'f mrcp_synth_state_machine" where
  "synth_queue_pop sm = (case queue sm of [] \<Rightarrow> (None, sm) | p # q \<Rightarrow> (Some p, sm\<lparr>queue := q\<rparr>))"

definition synth_response_stop :: "'f synth_method" where
  "synth_response_stop sm m = do {
     r \<leftarrow> speaker sm;
     m \<leftarrow> active_id_append (request_id (start_line r)) m;
     req \<leftarrow> active_request sm;
     (sm, m) \<leftarrow> synth_pending_requests_remove sm req m;
     let (pending, sm) = synth_queue_pop (synth_state_change SYNTHESIZER_STATE_IDLE sm);
     (_, sm) \<leftarrow> synth_response_dispatch sm m;
     synth_pending_dispatch pending sm
   }"

text \<open>A call of which the result is ignored.\<close>

definition and_true :: "(bool \<times> 's) option \<Rightarrow> (bool \<times> 's) option" where
  "and_true r = map_option (\<lambda>(_, sm). (True, sm)) r"

definition synth_request_pause :: "apr_fmt \<Rightarrow> 'f synth_method" where
  "synth_request_pause apr sm m =
     (if speaker sm \<noteq> None then
        (if state sm = SYNTHESIZER_STATE_SPEAKING then and_true (synth_request_dispatch sm m)
         else and_true (synth_response_dispatch sm (mrcp_response_create apr 0 (Some m))))
      else and_true (synth_response_dispatch sm (method_not_valid_response apr m)))"

definition synth_response_pause :: "'f synth_method" where
  "synth_response_pause sm m =
     (if status_code (start_line m) = MRCP_STATUS_CODE_SUCCESS then do {
        r \<leftarrow> speaker sm;
        m \<leftarrow> active_id_append (request_id (start_line r)) m;
        and_true (synth_response_dispatch (synth_state_change SYNTHESIZER_STATE_PAUSED sm) m)
      }
      else and_true (synth_response_dispatch sm m))"

definition synth_request_resume :: "apr_fmt \<Rightarrow> 'f synth_method" where
  "synth_request_resume apr sm m =
     (if speaker sm \<noteq> None then
        (if state sm = SYNTHESIZER_STATE_PAUSED then and_true (synth_request_dispatch sm m)
         else and_true (synth_response_dispatch sm (mrcp_response_create apr 0 (Some m))))
      else and_true (synth_response_dispatch sm (method_not_valid_response apr m)))"

definition synth_response_resume :: "'f synth_method" where
  "synth_response_resume sm m =
     (if status_code (start_line m) = MRCP_STATUS_CODE_SUCCESS then do {
        r \<leftarrow> speaker sm;
        m \<leftarrow> active_id_append (request_id (start_line r)) m;
        and_true (synth_response_dispatch (synth_state_change SYNTHESIZER_STATE_SPEAKING sm) m)
      }
      else and_true (synth_response_dispatch sm m))"

definition kill_on_barge_in_enabled :: "'f synth_message \<Rightarrow> bool" where
  "kill_on_barge_in_enabled m =
     (case mrcp_resource_header_get m of
        None \<Rightarrow> True
      | Some d \<Rightarrow>
          if mrcp_resource_header_property_check m SYNTHESIZER_HEADER_KILL_ON_BARGE_IN then kill_on_barge_in d else True)"

definition synth_request_barge_in_occurred :: "apr_fmt \<Rightarrow> 'f synth_method" where
  "synth_request_barge_in_occurred apr sm m =
     (if speaker sm \<noteq> None \<and> kill_on_barge_in_enabled m then synth_request_dispatch sm m
      else synth_response_dispatch sm (mrcp_response_create apr 0 (Some m)))"

definition synth_response_barge_in_occurred :: "'f synth_method" where
  "synth_response_barge_in_occurred sm m = do {
     r \<leftarrow> speaker sm;
     m \<leftarrow> active_id_append (request_id (start_line r)) m;
     req \<leftarrow> active_request sm;
     (sm, m) \<leftarrow> synth_pending_requests_remove sm req m;
     synth_response_dispatch (synth_state_change SYNTHESIZER_STATE_IDLE sm) m
   }"

definition synth_request_control :: "apr_fmt \<Rightarrow> 'f synth_method" where
  "synth_request_control apr sm m =
     (if state sm = SYNTHESIZER_STATE_SPEAKING then synth_request_dispatch sm m
      else synth_response_dispatch sm (mrcp_response_create apr 0 (Some m)))"

definition synth_response_control :: "'f synth_method" where
  "synth_response_control sm m = do {
     r \<leftarrow> speaker sm;
     m \<leftarrow> active_id_append (request_id (start_line r)) m;
     synth_response_dispatch sm m
   }"

definition synth_request_define_lexicon :: "apr_fmt \<Rightarrow> 'f synth_method" where
  "synth_request_define_lexicon apr sm m =
     (if state sm = SYNTHESIZER_STATE_IDLE then synth_request_dispatch sm m
      else synth_response_dispatch sm (method_not_valid_response apr m))"

definition synth_response_define_lexicon :: "'f synth_method" where
  "synth_response_define_lexicon sm m = synth_response_dispatch sm m"

definition synth_event_speech_marker :: "'f synth_method" where
  "synth_event_speech_marker sm m =
     (case speaker sm of
        None \<Rightarrow> Some (False, sm)
      | Some r \<Rightarrow>
          if request_id (start_line r) \<noteq> request_id (start_line m) then Some (False, sm)
          else synth_event_dispatch sm (request_state_set MRCP_REQUEST_STATE_INPROGRESS m))"

definition synth_stop_outstanding :: "'f mrcp_synth_state_machine \<Rightarrow> bool" where
  "synth_stop_outstanding sm =
     (case active_request sm of
        None \<Rightarrow> False
      | Some a \<Rightarrow> method_id (start_line a) = SYNTHESIZER_STOP \<or> method_id (start_line a) = SYNTHESIZER_BARGE_IN_OCCURRED)"

definition synth_cause_ensure :: "'f synth_message \<Rightarrow> 'f synth_message option" where
  "synth_cause_ensure m =
     completion_cause_ensure SYNTHESIZER_HEADER_COMPLETION_CAUSE
       (\<lambda>d. d\<lparr>completion_cause := SYNTHESIZER_COMPLETION_CAUSE_NORMAL\<rparr>) m"

definition synth_event_speak_complete :: "'f synth_method" where
  "synth_event_speak_complete sm m =
     (case speaker sm of
        None \<Rightarrow> Some (False, sm)
      | Some r \<Rightarrow>
          if request_id (start_line r) \<noteq> request_id (start_line m) then Some (False, sm)
          else if synth_stop_outstanding sm then Some (False, sm)
          else do {
            m \<leftarrow> synth_cause_ensure m;
            (_, sm) \<leftarrow> synth_event_dispatch (synth_state_change SYNTHESIZER_STATE_IDLE sm) m;
            let (pending, sm) = synth_queue_pop sm;
            synth_pending_dispatch pending sm
          })"

section \<open>Updating and deactivating\<close>

definition synth_request_method_array :: "apr_fmt \<Rightarrow> 'f synth_method list" where
  "synth_request_method_array apr =
     [synth_request_set_params, synth_request_get_params, synth_request_speak apr, synth_request_stop apr,
      synth_request_pause apr, synth_request_resume apr, synth_request_barge_in_occurred apr, synth_request_control apr,
      synth_request_define_lexicon apr]"

definition synth_response_method_array :: "apr_fmt \<Rightarrow> 'f synth_method list" where
  "synth_response_method_array apr =
     [synth_response_set_params, synth_response_get_params, synth_response_speak apr, synth_response_stop,
      synth_response_pause, synth_response_resume, synth_response_barge_in_occurred, synth_response_control,
      synth_response_define_lexicon]"

definition synth_event_method_array :: "'f synth_method list" where
  "synth_event_method_array = [synth_event_speech_marker, synth_event_speak_complete]"

definition synth_request_state_update :: "apr_fmt \<Rightarrow> 'f synth_method" where
  "synth_request_state_update apr sm m =
     (if SYNTHESIZER_METHOD_COUNT \<le> method_id (start_line m) then Some (False, sm)
      else
        (case method_lookup (synth_request_method_array apr) (method_id (start_line m)) of
           Some f \<Rightarrow> f sm m | None \<Rightarrow> synth_request_dispatch sm m))"

definition synth_response_state_update :: "apr_fmt \<Rightarrow> 'f synth_method" where
  "synth_response_state_update apr sm m =
     (case active_request sm of
        None \<Rightarrow> Some (False, sm)
      | Some a \<Rightarrow>
          if request_id (start_line a) \<noteq> request_id (start_line m) then Some (False, sm)
          else if SYNTHESIZER_METHOD_COUNT \<le> method_id (start_line m) then Some (False, sm)
          else
            (case method_lookup (synth_response_method_array apr) (method_id (start_line m)) of
               Some f \<Rightarrow> f sm m | None \<Rightarrow> synth_response_dispatch sm m))"

definition synth_event_state_update :: "'f synth_method" where
  "synth_event_state_update sm m =
     (if SYNTHESIZER_EVENT_COUNT \<le> method_id (start_line m) then Some (False, sm)
      else
        (case method_lookup synth_event_method_array (method_id (start_line m)) of
           Some f \<Rightarrow> f sm m | None \<Rightarrow> synth_event_dispatch sm m))"

definition synth_state_update :: "apr_fmt \<Rightarrow> 'f synth_method" where
  "synth_state_update apr sm m =
     (case message_type (start_line m) of
        MRCP_MESSAGE_TYPE_REQUEST \<Rightarrow> synth_request_state_update apr sm m
      | MRCP_MESSAGE_TYPE_RESPONSE \<Rightarrow> synth_response_state_update apr sm m
      | MRCP_MESSAGE_TYPE_EVENT \<Rightarrow> synth_event_state_update sm m
      | _ \<Rightarrow> Some (False, sm))"

definition synth_state_deactivate ::
  "apr_fmt \<Rightarrow> 'f mrcp_synth_state_machine \<Rightarrow> (bool \<times> 'f mrcp_synth_state_machine) option"
where
  "synth_state_deactivate apr sm =
     (case speaker sm of
        None \<Rightarrow> Some (False, sm)
      | Some source \<Rightarrow> synth_request_dispatch sm (deactivate_request apr SYNTHESIZER_STOP source))"

definition mrcp_synth_state_machine_create ::
  "apr_fmt \<Rightarrow> 'f float_ops \<Rightarrow> mrcp_version_e \<Rightarrow> 'f mrcp_synth_state_machine"
where
  "mrcp_synth_state_machine_create apr fo v =
     mrcp_state_machine.extend mrcp_state_machine_init
       (mrcp_synth_state_machine.fields SYNTHESIZER_STATE_IDLE False None None []
          (mrcp_message_header_create (Some (mrcp_generic_header_vtable_get apr))
             (Some (mrcp_synth_header_vtable_get apr fo v))))"

text \<open>One step of a run: the server session hands over a message or deactivates the machine.\<close>

fun synth_step ::
  "apr_fmt \<Rightarrow> 'f mrcp_synth_state_machine \<Rightarrow> 'f synth_message sm_input \<Rightarrow> (bool \<times> 'f mrcp_synth_state_machine) option"
where
  "synth_step apr sm (Update m) = mrcp_state_machine_update (Some (synth_state_update apr)) sm m"
| "synth_step apr sm Deactivate = mrcp_state_machine_deactivate (Some (synth_state_deactivate apr)) sm"

section \<open>The invariant\<close>

text \<open>
  A SPEAK request is known exactly when the machine is not idle, and whenever a request is outstanding whose response
  needs it; pending requests are SPEAK requests.
\<close>

definition synth_core :: "'f mrcp_synth_state_machine \<Rightarrow> bool" where
  "synth_core sm \<longleftrightarrow>
     on_dispatch sm \<noteq> None \<and> on_deactivate sm \<noteq> None \<and>
     (state sm = SYNTHESIZER_STATE_IDLE \<longleftrightarrow> speaker sm = None) \<and>
     (\<forall>q \<in> set (queue sm). message_type (start_line q) = MRCP_MESSAGE_TYPE_REQUEST \<and>
        method_id (start_line q) = SYNTHESIZER_SPEAK)"

definition needs_speaker :: "'f synth_message \<Rightarrow> bool" where
  "needs_speaker a \<longleftrightarrow>
     method_id (start_line a) \<in>
       {SYNTHESIZER_STOP, SYNTHESIZER_PAUSE, SYNTHESIZER_RESUME, SYNTHESIZER_BARGE_IN_OCCURRED, SYNTHESIZER_CONTROL}"

definition synth_invar :: "'f mrcp_synth_state_machine \<Rightarrow> bool" where
  "synth_invar sm \<longleftrightarrow> synth_core sm \<and> (\<forall>a. active_request sm = Some a \<longrightarrow> needs_speaker a \<longrightarrow> speaker sm \<noteq> None)"

text \<open>
  The inputs a machine is given: messages made for the synthesizer, and a response that carries the method of the request
  it answers. The event that completes the request in progress must not arrive while a PAUSE, RESUME or CONTROL request
  waits for its response.
\<close>

definition complete_race :: "'f mrcp_synth_state_machine \<Rightarrow> 'f synth_message \<Rightarrow> bool" where
  "complete_race sm m \<longleftrightarrow>
     message_type (start_line m) = MRCP_MESSAGE_TYPE_EVENT \<and> method_id (start_line m) = SYNTHESIZER_SPEAK_COMPLETE \<and>
     (case active_request sm of
        None \<Rightarrow> False
      | Some a \<Rightarrow> method_id (start_line a) \<in> {SYNTHESIZER_PAUSE, SYNTHESIZER_RESUME, SYNTHESIZER_CONTROL}) \<and>
     (case speaker sm of None \<Rightarrow> False | Some r \<Rightarrow> request_id (start_line r) = request_id (start_line m))"

fun synth_allowed ::
  "apr_fmt \<Rightarrow> 'f float_ops \<Rightarrow> 'f mrcp_synth_state_machine \<Rightarrow> 'f synth_message sm_input \<Rightarrow> bool"
where
  "synth_allowed apr fo sm (Update m) \<longleftrightarrow>
     msg_ok apr (range (mrcp_synth_header_vtable_get apr fo)) m \<and> \<not> complete_race sm m \<and>
     (case active_request sm of
        None \<Rightarrow> True
      | Some a \<Rightarrow>
          message_type (start_line m) = MRCP_MESSAGE_TYPE_RESPONSE \<and> request_id (start_line m) = request_id (start_line a)
          \<longrightarrow> method_id (start_line m) = method_id (start_line a))"
| "synth_allowed apr fo sm Deactivate \<longleftrightarrow> True"

definition synth_good ::
  "'f mrcp_synth_state_machine \<Rightarrow> (bool \<times> 'f mrcp_synth_state_machine) option \<Rightarrow> bool"
where
  "synth_good sm r \<longleftrightarrow> (\<exists>b sm'. r = Some (b, sm') \<and> synth_invar sm' \<and> sm_effect sm sm')"

interpretation synth_cause: cause_header "range (mrcp_synth_header_vtable_get apr fo)" SYNTHESIZER_HEADER_COMPLETION_CAUSE
  for apr fo
  by unfold_locales
    (auto simp: mrcp_synth_header_vtable_get_def mrcp_synth_header_generate_def SYNTHESIZER_HEADER_COMPLETION_CAUSE_def)

lemma synth_invar_core: "synth_invar sm \<Longrightarrow> synth_core sm"
  by (simp add: synth_invar_def)

lemma synth_goodI: "r = Some (b, sm') \<Longrightarrow> synth_invar sm' \<Longrightarrow> sm_effect sm sm' \<Longrightarrow> synth_good sm r"
  by (auto simp: synth_good_def)

lemma synth_effect_ext [simp]:
  "sm_effect sm0 (sm\<lparr>state := st\<rparr>) = sm_effect sm0 sm"
  "sm_effect sm0 (sm\<lparr>speaker := r\<rparr>) = sm_effect sm0 sm"
  "sm_effect sm0 (sm\<lparr>queue := q\<rparr>) = sm_effect sm0 sm"
  "sm_effect sm0 (sm\<lparr>properties := p\<rparr>) = sm_effect sm0 sm"
  "sm_effect sm0 (sm\<lparr>is_pending := b\<rparr>) = sm_effect sm0 sm"
  "sm_effect sm0 (sm\<lparr>active_request := a\<rparr>) = sm_effect sm0 sm"
  "sm_effect sm0 (synth_state_change st sm) = sm_effect sm0 sm"
  by (simp_all add: sm_effect_def synth_state_change_def Let_def)

lemma synth_core_ext [simp]:
  "synth_core (sm\<lparr>properties := p\<rparr>) = synth_core sm"
  "synth_core (sm\<lparr>sm_log := l\<rparr>) = synth_core sm"
  "synth_core (sm\<lparr>is_pending := b\<rparr>) = synth_core sm"
  "synth_core (sm\<lparr>active_request := a\<rparr>) = synth_core sm"
  by (simp_all add: synth_core_def)

lemma synth_request_dispatch_good:
  assumes "synth_core sm" "sm_effect sm0 sm" "message_type (start_line m) = MRCP_MESSAGE_TYPE_REQUEST"
    and "needs_speaker m \<Longrightarrow> speaker sm \<noteq> None"
  shows "synth_good sm0 (synth_request_dispatch sm m)"
proof -
  let ?sm = "sm\<lparr>active_request := Some m\<rparr>"
  obtain b where "call_on_dispatch m ?sm = Some (b, ?sm\<lparr>sm_log := sm_log ?sm @ [Dispatch m]\<rparr>)"
    using call_on_dispatch_Some [of ?sm m] assms(1) by (auto simp: synth_core_def)
  moreover have "sm_effect sm0 (?sm\<lparr>sm_log := sm_log ?sm @ [Dispatch m]\<rparr>)"
    by (rule sm_effect_log) (use assms in simp_all)
  ultimately show ?thesis
    using assms by (intro synth_goodI) (simp_all add: synth_request_dispatch_def synth_invar_def)
qed

lemma synth_response_dispatch_good:
  assumes "synth_core sm" "sm_effect sm0 sm"
  shows "synth_good sm0 (synth_response_dispatch sm m)"
proof -
  let ?sm = "sm\<lparr>active_request := None\<rparr>"
  obtain b c where "call_on_dispatch m ?sm = Some (b, ?sm\<lparr>sm_log := sm_log ?sm @ [Dispatch m]\<rparr>)"
      "call_on_deactivate ?sm = Some (c, ?sm\<lparr>sm_log := sm_log ?sm @ [Deactivated]\<rparr>)"
    using call_on_dispatch_Some [of ?sm m] call_on_deactivate_Some [of ?sm] assms(1) by (auto simp: synth_core_def)
  moreover have "sm_effect sm0 (?sm\<lparr>sm_log := sm_log ?sm @ [if active sm then Dispatch m else Deactivated]\<rparr>)"
    by (rule sm_effect_log) (use assms in simp_all)
  ultimately show ?thesis
    using assms by (intro synth_goodI [where b = "if active sm then b else c" and sm' = "?sm\<lparr>sm_log := sm_log ?sm @ [if active sm then Dispatch m else Deactivated]\<rparr>"])
      (simp_all add: synth_response_dispatch_def synth_invar_def Let_def)
qed

lemma synth_event_dispatch_good:
  assumes "synth_invar sm" "sm_effect sm0 sm"
  shows "synth_good sm0 (synth_event_dispatch sm m)"
proof (cases "active sm")
  case True
  obtain b where "call_on_dispatch m sm = Some (b, sm\<lparr>sm_log := sm_log sm @ [Dispatch m]\<rparr>)"
    using call_on_dispatch_Some [of sm m] assms(1) by (auto simp: synth_core_def synth_invar_def)
  moreover have "sm_effect sm0 (sm\<lparr>sm_log := sm_log sm @ [Dispatch m]\<rparr>)"
    by (rule sm_effect_log) (use assms True in simp_all)
  ultimately show ?thesis
    using assms True by (intro synth_goodI) (simp_all add: synth_event_dispatch_def synth_invar_def)
qed (use assms in \<open>auto simp: synth_event_dispatch_def synth_good_def\<close>)

lemma synth_core_idle [simp]: "synth_core sm \<Longrightarrow> synth_core (synth_state_change SYNTHESIZER_STATE_IDLE sm)"
  by (simp add: synth_core_def synth_state_change_def)

lemma synth_core_filter [simp]: "synth_core sm \<Longrightarrow> synth_core (sm\<lparr>queue := filter P (queue sm)\<rparr>)"
  by (auto simp: synth_core_def)

lemma synth_core_push [simp]:
  "synth_core sm \<Longrightarrow> message_type (start_line m) = MRCP_MESSAGE_TYPE_REQUEST \<Longrightarrow>
    method_id (start_line m) = SYNTHESIZER_SPEAK \<Longrightarrow> synth_core (sm\<lparr>queue := queue sm @ [m]\<rparr>)"
  by (auto simp: synth_core_def)

lemma synth_queue_pop_core:
  assumes "synth_queue_pop sm = (p, sm')" "synth_core sm"
  shows "synth_core sm'" "sm_effect sm0 sm' = sm_effect sm0 sm" "active_request sm' = active_request sm"
    "state sm' = state sm" "speaker sm' = speaker sm"
    "\<And>q. p = Some q \<Longrightarrow> message_type (start_line q) = MRCP_MESSAGE_TYPE_REQUEST \<and>
       method_id (start_line q) = SYNTHESIZER_SPEAK"
  using assms by (auto simp: synth_queue_pop_def synth_core_def split: list.splits)

lemma synth_pending_dispatch_good:
  assumes "synth_invar sm" "sm_effect sm0 sm"
    and "\<And>q. p = Some q \<Longrightarrow> message_type (start_line q) = MRCP_MESSAGE_TYPE_REQUEST \<and>
       method_id (start_line q) = SYNTHESIZER_SPEAK"
  shows "synth_good sm0 (synth_pending_dispatch p sm)"
proof (cases p)
  case None
  then show ?thesis using assms by (auto simp: synth_pending_dispatch_def synth_good_def)
next
  case (Some q)
  have "synth_good sm0 (synth_request_dispatch (sm\<lparr>is_pending := True\<rparr>) q)"
    using assms Some by (intro synth_request_dispatch_good)
      (auto simp: synth_invar_core needs_speaker_def SYNTHESIZER_SPEAK_def SYNTHESIZER_STOP_def SYNTHESIZER_PAUSE_def
        SYNTHESIZER_RESUME_def SYNTHESIZER_BARGE_IN_OCCURRED_def SYNTHESIZER_CONTROL_def)
  then show ?thesis using Some by (auto simp: synth_pending_dispatch_def synth_good_def)
qed

lemma synth_stop_immediately_good:
  assumes "synth_core sm" "sm_effect sm0 sm" "msg_ok apr vts m"
  shows "synth_good sm0 (synth_stop_immediately apr sm m)"
proof -
  obtain r where "pending_requests_remove m (mrcp_response_create apr 0 (Some m)) (queue sm) =
      Some (filter (\<lambda>p. \<not> stop_selects m (request_id (start_line p))) (queue sm), r)"
    using response_create_ok(1) [OF assms(3)] by (rule pending_requests_remove_ok)
  then show ?thesis
    using assms by (simp add: synth_stop_immediately_def synth_pending_requests_remove_def synth_response_dispatch_good)
qed

lemmas synth_methods = SYNTHESIZER_SPEAK_def SYNTHESIZER_STOP_def SYNTHESIZER_PAUSE_def SYNTHESIZER_RESUME_def
  SYNTHESIZER_BARGE_IN_OCCURRED_def SYNTHESIZER_CONTROL_def SYNTHESIZER_METHOD_COUNT_def

lemma synth_good_and_true [simp]: "synth_good sm (and_true r) = synth_good sm r"
  by (cases r) (auto simp: synth_good_def and_true_def)

lemma synth_core_speaking:
  assumes "synth_core sm" "speaker sm \<noteq> None" "st \<noteq> SYNTHESIZER_STATE_IDLE"
  shows "synth_core (synth_state_change st sm)"
  using assms by (simp add: synth_core_def synth_state_change_def)

section \<open>Every input keeps the invariant\<close>

lemma synth_method_cases:
  fixes m :: "'f synth_message"
  obtains "SYNTHESIZER_METHOD_COUNT \<le> method_id (start_line m)" | "method_id (start_line m) = 0" | "method_id (start_line m) = 1"
    | "method_id (start_line m) = 2" | "method_id (start_line m) = 3" | "method_id (start_line m) = 4"
    | "method_id (start_line m) = 5" | "method_id (start_line m) = 6" | "method_id (start_line m) = 7"
    | "method_id (start_line m) = 8"
proof -
  have "method_id (start_line m) \<in> set [0..<9] \<or> SYNTHESIZER_METHOD_COUNT \<le> method_id (start_line m)"
    by (auto simp: SYNTHESIZER_METHOD_COUNT_def)
  then show thesis using that by (auto simp: upt_rec)
qed

lemma synth_request_good:
  assumes "synth_invar sm" "msg_ok apr vts m" "message_type (start_line m) = MRCP_MESSAGE_TYPE_REQUEST"
  shows "synth_good sm (synth_request_state_update apr sm m)"
proof -
  have core: "synth_core sm" using assms(1) by (rule synth_invar_core)
  then have idle: "state sm = SYNTHESIZER_STATE_IDLE \<longleftrightarrow> speaker sm = None" by (simp add: synth_core_def)
  show ?thesis
    by (cases rule: synth_method_cases [of m])
      (use core assms idle in \<open>auto simp: synth_request_state_update_def method_lookup_def
        synth_request_method_array_def synth_request_set_params_def synth_request_get_params_def
        synth_request_speak_def synth_request_stop_def synth_request_pause_def synth_request_resume_def
        synth_request_barge_in_occurred_def synth_request_control_def synth_request_define_lexicon_def
        request_state_set_def Let_def needs_speaker_def synth_methods synth_good_def [of sm "Some _"]
        split: option.split
        intro!: synth_request_dispatch_good synth_response_dispatch_good synth_stop_immediately_good\<close>)
qed

lemma synth_ids_remove:
  assumes "msg_ok apr vts m" "speaker sm = Some r" "synth_core sm"
  obtains m1 m2 sm1 where "active_id_append (request_id (start_line r)) m = Some m1"
    "synth_pending_requests_remove sm a m1 = Some (sm1, m2)" "synth_core sm1" "sm_effect sm sm1"
proof -
  obtain m1 where m1: "active_id_append (request_id (start_line r)) m = Some m1" "msg_ok apr vts m1"
    by (rule active_id_append_ok [OF assms(1)])
  obtain m2 where "pending_requests_remove a m1 (queue sm) =
      Some (filter (\<lambda>p. \<not> stop_selects a (request_id (start_line p))) (queue sm), m2)"
    by (rule pending_requests_remove_ok [OF m1(2)])
  then show thesis
    using m1(1) assms(3)
    by (intro that [of m1 "sm\<lparr>queue := filter (\<lambda>p. \<not> stop_selects a (request_id (start_line p))) (queue sm)\<rparr>" m2])
      (simp_all add: synth_pending_requests_remove_def)
qed

lemma synth_response_stop_good:
  assumes inv: "synth_core sm" and ok: "msg_ok apr vts m" and a: "active_request sm = Some a" and r: "speaker sm = Some r"
  shows "synth_good sm (synth_response_stop sm m)"
proof -
  obtain m1 m2 sm1 where m1: "active_id_append (request_id (start_line r)) m = Some m1"
      "synth_pending_requests_remove sm a m1 = Some (sm1, m2)" "synth_core sm1" "sm_effect sm sm1"
    by (rule synth_ids_remove [OF ok r inv])
  let ?sm = "synth_state_change SYNTHESIZER_STATE_IDLE sm1"
  obtain p sm2 where pop: "synth_queue_pop ?sm = (p, sm2)" by fastforce
  have c1: "synth_core ?sm" using m1(3) by simp
  note pc = synth_queue_pop_core [OF pop c1]
  obtain b sm3 where sm3: "synth_response_dispatch sm2 m2 = Some (b, sm3)" "synth_invar sm3" "sm_effect sm sm3"
    using synth_response_dispatch_good [OF pc(1), of sm m2] pc(2) m1(4) by (auto simp: synth_good_def)
  have "synth_good sm (synth_pending_dispatch p sm3)"
    by (rule synth_pending_dispatch_good [OF sm3(2,3) pc(6)])
  then show ?thesis
    using r m1(1,2) a pop sm3(1) by (simp add: synth_response_stop_def)
qed

lemma synth_response_speak_good:
  assumes inv: "synth_invar sm" and a: "active_request sm = Some a" "method_id (start_line a) = SYNTHESIZER_SPEAK"
  shows "synth_good sm (synth_response_speak apr sm m)"
proof -
  let ?sm = "if request_state (start_line m) = MRCP_REQUEST_STATE_INPROGRESS
    then synth_state_change SYNTHESIZER_STATE_SPEAKING (sm\<lparr>speaker := active_request sm\<rparr>) else sm"
  have core: "synth_core ?sm"
    using inv a by (auto simp: synth_invar_def synth_core_def synth_state_change_def)
  have sm: "active_request ?sm = Some a" "sm_effect sm ?sm"
    using a by (auto simp: synth_state_change_def)
  have "synth_invar (?sm\<lparr>is_pending := False\<rparr>)"
    using core sm(1) a(2) by (simp only: synth_invar_def synth_core_ext) (auto simp: needs_speaker_def synth_methods synth_state_change_def)
  then show ?thesis
    using core sm by (auto simp: synth_response_speak_def Let_def
      intro!: synth_response_dispatch_good synth_event_dispatch_good simp del: if_split_asm split: if_split)
qed

lemma synth_response_good:
  assumes inv: "synth_invar sm" and ok: "msg_ok apr vts m"
    and a: "active_request sm = Some a" and meth: "method_id (start_line m) = method_id (start_line a)"
  shows "synth_good sm (synth_response_state_update apr sm m)"
proof -
  have core: "synth_core sm" using inv by (rule synth_invar_core)
  have known: "speaker sm \<noteq> None" if "method_id (start_line m) \<in> {3, 4, 5, 6, 7}"
    using inv a meth that by (auto simp: synth_invar_def needs_speaker_def synth_methods)
  obtain r where r: "method_id (start_line m) \<in> {3, 4, 5, 6, 7} \<Longrightarrow> speaker sm = Some r" using known by auto
  obtain m1 where m1: "active_id_append (request_id (start_line r)) m = Some m1"
    by (rule active_id_append_ok [OF ok])
  have barge: "synth_good sm (synth_response_barge_in_occurred sm m)" if "method_id (start_line m) = 6"
  proof -
    have r6: "speaker sm = Some r" using r that by simp
    obtain m1 m2 sm1 where "active_id_append (request_id (start_line r)) m = Some m1"
        "synth_pending_requests_remove sm a m1 = Some (sm1, m2)" "synth_core sm1" "sm_effect sm sm1"
      by (rule synth_ids_remove [OF ok r6 core])
    then show ?thesis
      using r6 a by (auto simp: synth_response_barge_in_occurred_def intro!: synth_response_dispatch_good)
  qed
  show ?thesis
    by (cases rule: synth_method_cases [of m])
      (use core inv a r m1 barge synth_response_speak_good [OF inv a, of apr m] synth_response_stop_good [OF core ok a] meth
       in \<open>auto simp: synth_response_state_update_def method_lookup_def synth_methods
        synth_response_method_array_def synth_response_set_params_def synth_response_get_params_def
        synth_response_pause_def synth_response_resume_def synth_response_control_def
        synth_response_define_lexicon_def synth_good_def [of sm "Some _"]
        intro!: synth_response_dispatch_good synth_core_speaking\<close>)
qed

lemma synth_event_good:
  assumes inv: "synth_invar sm" and ok: "msg_ok apr (range (mrcp_synth_header_vtable_get apr fo)) m"
    and race: "\<not> complete_race sm m" and ev: "message_type (start_line m) = MRCP_MESSAGE_TYPE_EVENT"
  shows "synth_good sm (synth_event_state_update sm m)"
proof -
  obtain m1 where m1: "synth_cause_ensure m = Some m1"
    unfolding synth_cause_ensure_def by (rule synth_cause.cause_ensure_ok [OF ok])
  have complete: "synth_good sm (synth_event_speak_complete sm m)" if meth: "method_id (start_line m) = 1"
  proof (cases "speaker sm = None \<or> request_id (start_line (the (speaker sm))) \<noteq> request_id (start_line m) \<or> synth_stop_outstanding sm")
    case True
    then show ?thesis using inv by (auto simp: synth_event_speak_complete_def synth_good_def split: option.split)
  next
    case False
    let ?sm = "synth_state_change SYNTHESIZER_STATE_IDLE sm"
    have "\<not> needs_speaker a" if "active_request sm = Some a" for a
      using False race ev meth that by (auto simp: complete_race_def needs_speaker_def synth_stop_outstanding_def
        SYNTHESIZER_SPEAK_COMPLETE_def)
    then have "synth_invar ?sm"
      using inv by (auto simp: synth_invar_def synth_state_change_def synth_core_def)
    then obtain b sm1 where sm1: "synth_event_dispatch ?sm m1 = Some (b, sm1)" "synth_invar sm1" "sm_effect sm sm1"
      using synth_event_dispatch_good [of ?sm sm m1] by (auto simp: synth_good_def)
    obtain p sm2 where pop: "synth_queue_pop sm1 = (p, sm2)" by fastforce
    note pc = synth_queue_pop_core [OF pop synth_invar_core [OF sm1(2)]]
    have "synth_invar sm2" using pc sm1(2) by (auto simp: synth_invar_def)
    then have "synth_good sm (synth_pending_dispatch p sm2)"
      by (rule synth_pending_dispatch_good) (use pc sm1(3) in auto)
    then show ?thesis
      using False m1 sm1(1) pop by (auto simp: synth_event_speak_complete_def)
  qed
  consider "SYNTHESIZER_EVENT_COUNT \<le> method_id (start_line m)" | "method_id (start_line m) = 0" | "method_id (start_line m) = 1"
    by (fastforce simp: SYNTHESIZER_EVENT_COUNT_def)
  then show ?thesis
    using inv complete by cases (auto simp: synth_event_state_update_def SYNTHESIZER_EVENT_COUNT_def method_lookup_def
      synth_event_method_array_def synth_event_speech_marker_def
      synth_good_def [of sm "Some _"] split: option.split intro!: synth_event_dispatch_good)
qed

lemma synth_step_good:
  assumes inv: "synth_invar sm" and al: "synth_allowed apr fo sm i"
  shows "synth_good (case i of Update m \<Rightarrow> sm | Deactivate \<Rightarrow> sm\<lparr>active := False\<rparr>) (synth_step apr sm i)"
proof (cases i)
  case (Update m)
  have "synth_good sm (synth_response_state_update apr sm m)" if "message_type (start_line m) = MRCP_MESSAGE_TYPE_RESPONSE"
  proof (cases "active_request sm")
    case (Some a)
    show ?thesis
    proof (cases "request_id (start_line m) = request_id (start_line a)")
      case True
      then show ?thesis using synth_response_good [of sm apr "range (mrcp_synth_header_vtable_get apr fo)" m a] inv al Some that Update by simp
    next
      case False
      then show ?thesis using Some inv by (auto simp: synth_response_state_update_def synth_good_def)
    qed
  qed (use inv in \<open>auto simp: synth_response_state_update_def synth_good_def\<close>)
  then show ?thesis
    using Update al synth_request_good [OF inv, of apr] synth_event_good [OF inv, of apr fo m] inv
    by (cases "message_type (start_line m)")
      (auto simp: mrcp_state_machine_update_def synth_state_update_def synth_good_def [of sm "Some _"])
next
  case Deactivate
  have "synth_invar (sm\<lparr>active := False\<rparr>)"
    using inv by (simp add: synth_invar_def synth_core_def)
  then show ?thesis
    using Deactivate by (auto simp: mrcp_state_machine_deactivate_def synth_state_deactivate_def synth_good_def [of _ "Some _"]
      synth_invar_core split: option.split intro!: synth_request_dispatch_good)
qed

interpretation synth_sm: state_machine "synth_step apr" "synth_allowed apr fo" synth_invar
  for apr :: apr_fmt and fo :: "'f float_ops"
  by unfold_locales (use synth_step_good in \<open>fastforce simp: synth_good_def\<close>)

section \<open>Properties\<close>

text \<open>The machine as a server session starts it: created, and with its two callbacks.\<close>

definition synth_start ::
  "apr_fmt \<Rightarrow> 'f float_ops \<Rightarrow> mrcp_version_e \<Rightarrow> ('f synth_message \<Rightarrow> bool) \<Rightarrow> bool \<Rightarrow> 'f mrcp_synth_state_machine"
where
  "synth_start apr fo v f b =
     (mrcp_synth_state_machine_create apr fo v)\<lparr>on_dispatch := Some f, on_deactivate := Some b\<rparr>"

lemma synth_start_invar: "synth_invar (synth_start apr fo v f b)"
  by (simp add: synth_start_def mrcp_synth_state_machine_create_def mrcp_state_machine_init_def synth_invar_def synth_core_def
    mrcp_state_machine.defs mrcp_synth_state_machine.defs)

text \<open>Messages of a session and a machine that speaks, for the witnesses.\<close>

definition synth_msg :: "mrcp_message_type_e \<Rightarrow> nat \<Rightarrow> mrcp_request_id \<Rightarrow> unit synth_message" where
  "synth_msg t k rid =
     (let m = mrcp_request_create apr_std (Some (mrcp_synth_resource_create apr_std float_unit)) MRCP_VERSION_2 k
      in m\<lparr>start_line := (start_line m)\<lparr>message_type := t, request_id := rid, request_state := MRCP_REQUEST_STATE_COMPLETE,
             status_code := MRCP_STATUS_CODE_SUCCESS\<rparr>\<rparr>)"

lemma synth_vtable_field_count [simp]: "field_count (mrcp_synth_header_vtable_get apr fo v) = 21"
  by (simp add: mrcp_synth_header_vtable_get_def SYNTHESIZER_HEADER_COUNT_def)

lemma synth_msg_facts [simp]:
  "msg_ok apr_std (range (mrcp_synth_header_vtable_get apr_std float_unit)) (synth_msg t k rid)"
  "message_type (start_line (synth_msg t k rid)) = t"
  "method_id (start_line (synth_msg t k rid)) = k"
  "request_id (start_line (synth_msg t k rid)) = rid"
  "request_state (start_line (synth_msg t k rid)) = MRCP_REQUEST_STATE_COMPLETE"
  "status_code (start_line (synth_msg t k rid)) = MRCP_STATUS_CODE_SUCCESS"
  "header_section (header (synth_msg t k rid)) = \<lparr>hs_ring = [], hs_arr = replicate 37 None\<rparr>"
proof -
  let ?m = "mrcp_request_create apr_std (Some (mrcp_synth_resource_create apr_std float_unit)) MRCP_VERSION_2 k"
  have "msg_ok apr_std (range (mrcp_synth_header_vtable_get apr_std float_unit)) ?m"
    by (rule request_create_ok) (simp add: mrcp_synth_resource_create_def)
  then show "msg_ok apr_std (range (mrcp_synth_header_vtable_get apr_std float_unit)) (synth_msg t k rid)"
    by (simp add: synth_msg_def Let_def)
qed (auto simp: synth_msg_def mrcp_request_create_def mrcp_message_resource_set_by_id_def mrcp_synth_resource_create_def
    mrcp_message_header_data_alloc_def mrcp_message_create_def mrcp_message_header_init_def apt_header_section_init_def
    apt_header_section_array_alloc_def Let_def mrcp_generic_header_vtable_get_def GENERIC_HEADER_COUNT_def split: option.split)

definition synth_speaking :: "unit synth_message option \<Rightarrow> bool \<Rightarrow> unit mrcp_synth_state_machine" where
  "synth_speaking a pending =
     (synth_start apr_std float_unit MRCP_VERSION_2 (\<lambda>_. True) True)
       \<lparr>state := SYNTHESIZER_STATE_SPEAKING, speaker := Some (synth_msg MRCP_MESSAGE_TYPE_REQUEST SYNTHESIZER_SPEAK 1),
        active_request := a, is_pending := pending\<rparr>"

lemma synth_speaking_facts [simp]:
  "synth_core (synth_speaking a p)" "active (synth_speaking a p)" "state (synth_speaking a p) = SYNTHESIZER_STATE_SPEAKING"
  "speaker (synth_speaking a p) = Some (synth_msg MRCP_MESSAGE_TYPE_REQUEST SYNTHESIZER_SPEAK 1)"
  "active_request (synth_speaking a p) = a" "queue (synth_speaking a p) = []" "is_pending (synth_speaking a p) = p"
  by (simp_all add: synth_speaking_def synth_start_def mrcp_synth_state_machine_create_def mrcp_state_machine_init_def
    synth_core_def mrcp_state_machine.defs mrcp_synth_state_machine.defs)

lemma synth_speaking_invar [simp]: "synth_invar (synth_speaking a p)"
  by (simp add: synth_invar_def)

text \<open>
  C10: a synthesizer state machine does not follow a NULL pointer, provided that a response carries the method of the
  request it answers and that the completion of the SPEAK request does not overtake the response to a PAUSE, RESUME or
  CONTROL request.
\<close>

theorem synth_no_fault:
  assumes "sm_reachable (synth_step apr) (synth_allowed apr fo) (synth_start apr fo v f b) sm"
    and "synth_allowed apr fo sm i"
  shows "synth_step apr sm i \<noteq> None"
  by (rule synth_sm.no_fault [OF assms(1) synth_start_invar assms(2)])

theorem synth_no_fault_witness:
  "synth_step apr_std (synth_start apr_std float_unit MRCP_VERSION_2 (\<lambda>_. True) True)
     (Update (synth_msg MRCP_MESSAGE_TYPE_REQUEST SYNTHESIZER_SPEAK 1)) \<noteq> None"
  by (rule synth_no_fault [OF sm_reachable.start [of _ _ "synth_start apr_std float_unit MRCP_VERSION_2 (\<lambda>_. True) True"]])
    (simp add: complete_race_def synth_start_def mrcp_synth_state_machine_create_def mrcp_state_machine_init_def
      mrcp_state_machine.defs mrcp_synth_state_machine.defs)

text \<open>
  C25: without that proviso it does. When the engine completes the SPEAK request while a PAUSE request is outstanding,
  the event is not ignored, as it is for STOP and BARGE-IN-OCCURRED: the machine forgets the SPEAK request, and
  the successful response to PAUSE then follows the NULL pointer to it.
\<close>

theorem synth_pause_race_fault:
  assumes "synth_invar sm" "speaker sm = Some r" "queue sm = []"
    and "active_request sm = Some a" "method_id (start_line a) = SYNTHESIZER_PAUSE"
    and "msg_ok apr (range (mrcp_synth_header_vtable_get apr fo)) e"
    and "message_type (start_line e) = MRCP_MESSAGE_TYPE_EVENT" "method_id (start_line e) = SYNTHESIZER_SPEAK_COMPLETE"
    and "request_id (start_line e) = request_id (start_line r)"
    and "message_type (start_line m) = MRCP_MESSAGE_TYPE_RESPONSE" "method_id (start_line m) = SYNTHESIZER_PAUSE"
    and "request_id (start_line m) = request_id (start_line a)" "status_code (start_line m) = MRCP_STATUS_CODE_SUCCESS"
  shows "\<exists>sm'. synth_step apr sm (Update e) = Some (True, sm') \<and> synth_step apr sm' (Update m) = None"
proof -
  obtain e1 where e1: "synth_cause_ensure e = Some e1"
    unfolding synth_cause_ensure_def by (rule synth_cause.cause_ensure_ok [OF assms(6)])
  let ?sm = "synth_state_change SYNTHESIZER_STATE_IDLE sm"
  obtain b sm1 where sm1: "synth_event_dispatch ?sm e1 = Some (b, sm1)"
      "speaker sm1 = None" "queue sm1 = []" "active_request sm1 = Some a"
  proof -
    obtain f where "on_dispatch sm = Some f" using assms(1) by (auto simp: synth_invar_def synth_core_def)
    then show thesis
      using assms(3,4) by (cases "active sm") (auto simp: synth_event_dispatch_def call_on_dispatch_def synth_state_change_def intro: that)
  qed
  have "\<not> synth_stop_outstanding sm"
    using assms(4,5) by (simp add: synth_stop_outstanding_def synth_methods)
  then have "synth_step apr sm (Update e) = Some (True, sm1)"
    using assms(2,7-9) e1 sm1 by (simp add: mrcp_state_machine_update_def synth_state_update_def synth_event_state_update_def
      SYNTHESIZER_EVENT_COUNT_def SYNTHESIZER_SPEAK_COMPLETE_def method_lookup_def synth_event_method_array_def
      synth_event_speak_complete_def synth_queue_pop_def synth_pending_dispatch_def)
  moreover have "synth_step apr sm1 (Update m) = None"
    using assms(10-13) sm1 by (simp add: mrcp_state_machine_update_def synth_state_update_def synth_response_state_update_def
      synth_methods method_lookup_def synth_response_method_array_def synth_response_pause_def)
  ultimately show ?thesis by blast
qed

theorem synth_pause_race_fault_witness:
  "\<exists>sm'. synth_step apr_std (synth_speaking (Some (synth_msg MRCP_MESSAGE_TYPE_REQUEST SYNTHESIZER_PAUSE 2)) False)
      (Update (synth_msg MRCP_MESSAGE_TYPE_EVENT SYNTHESIZER_SPEAK_COMPLETE 1)) = Some (True, sm') \<and>
    synth_step apr_std sm' (Update (synth_msg MRCP_MESSAGE_TYPE_RESPONSE SYNTHESIZER_PAUSE 2)) = None"
  by (rule synth_pause_race_fault [where fo = float_unit and a = "synth_msg MRCP_MESSAGE_TYPE_REQUEST SYNTHESIZER_PAUSE 2"
      and r = "synth_msg MRCP_MESSAGE_TYPE_REQUEST SYNTHESIZER_SPEAK 1"]) simp_all

text \<open>
  C34: a pending SPEAK request that the engine rejects is reported as spoken. When the machine has taken a SPEAK request
  from its queue and the engine answers it with anything but IN-PROGRESS, the client gets a SPEECH-MARKER event with the
  request state IN-PROGRESS for it.
\<close>

theorem synth_pending_rejected_reported:
  assumes "synth_invar sm" "active sm" "is_pending sm" "active_request sm = Some a"
    and "message_type (start_line m) = MRCP_MESSAGE_TYPE_RESPONSE" "method_id (start_line m) = SYNTHESIZER_SPEAK"
    and "request_id (start_line m) = request_id (start_line a)"
    and "request_state (start_line m) \<noteq> MRCP_REQUEST_STATE_INPROGRESS"
  shows "\<exists>b e sm'. synth_step apr sm (Update m) = Some (b, sm') \<and> sm_log sm' = sm_log sm @ [Dispatch e] \<and>
    message_type (start_line e) = MRCP_MESSAGE_TYPE_EVENT \<and> method_id (start_line e) = SYNTHESIZER_SPEECH_MARKER \<and>
    request_id (start_line e) = request_id (start_line a) \<and> request_state (start_line e) = MRCP_REQUEST_STATE_INPROGRESS"
proof -
  obtain f where f: "on_dispatch sm = Some f" using assms(1) by (auto simp: synth_invar_def synth_core_def)
  let ?e = "request_state_set MRCP_REQUEST_STATE_INPROGRESS (mrcp_event_create apr (Some a) SYNTHESIZER_SPEECH_MARKER)"
  have e: "message_type (start_line ?e) = MRCP_MESSAGE_TYPE_EVENT" "method_id (start_line ?e) = SYNTHESIZER_SPEECH_MARKER"
      "request_id (start_line ?e) = request_id (start_line a)" "request_state (start_line ?e) = MRCP_REQUEST_STATE_INPROGRESS"
    by (auto simp: request_state_set_def mrcp_event_create_def mrcp_message_resource_set_by_id_def Let_def split: option.split)
  have "synth_step apr sm (Update m) =
      Some (f ?e, sm\<lparr>is_pending := False, sm_log := sm_log sm @ [Dispatch ?e]\<rparr>)"
    using assms f by (simp add: mrcp_state_machine_update_def synth_state_update_def synth_response_state_update_def
      synth_methods method_lookup_def synth_response_method_array_def synth_response_speak_def synth_event_dispatch_def
      call_on_dispatch_def)
  with e show ?thesis by auto
qed

theorem synth_pending_rejected_reported_witness:
  "\<exists>b e sm'. synth_step apr_std (synth_speaking (Some (synth_msg MRCP_MESSAGE_TYPE_REQUEST SYNTHESIZER_SPEAK 2)) True)
      (Update (synth_msg MRCP_MESSAGE_TYPE_RESPONSE SYNTHESIZER_SPEAK 2)) = Some (b, sm') \<and>
    sm_log sm' = sm_log (synth_speaking (Some (synth_msg MRCP_MESSAGE_TYPE_REQUEST SYNTHESIZER_SPEAK 2)) True) @ [Dispatch e] \<and>
    message_type (start_line e) = MRCP_MESSAGE_TYPE_EVENT \<and> method_id (start_line e) = SYNTHESIZER_SPEECH_MARKER \<and>
    request_id (start_line e) = request_id (start_line (synth_msg MRCP_MESSAGE_TYPE_REQUEST SYNTHESIZER_SPEAK 2)) \<and>
    request_state (start_line e) = MRCP_REQUEST_STATE_INPROGRESS"
  by (rule synth_pending_rejected_reported) simp_all

text \<open>
  C38: barge-in does not look at the SPEAK request. Whether a BARGE-IN-OCCURRED request stops the speech is decided by the
  Kill-On-Barge-In field of that request itself, and without it the request is sent to the engine, also when the SPEAK
  request in progress was sent with Kill-On-Barge-In set to false.
\<close>

theorem synth_barge_in_ignores_speak:
  assumes "synth_invar sm" "speaker sm = Some r"
    and "message_type (start_line m) = MRCP_MESSAGE_TYPE_REQUEST" "method_id (start_line m) = SYNTHESIZER_BARGE_IN_OCCURRED"
    and "\<not> mrcp_resource_header_property_check m SYNTHESIZER_HEADER_KILL_ON_BARGE_IN"
  shows "\<exists>b sm'. synth_step apr sm (Update m) = Some (b, sm') \<and> sm_log sm' = sm_log sm @ [Dispatch m] \<and>
    active_request sm' = Some m"
proof -
  obtain f where "on_dispatch sm = Some f" using assms(1) by (auto simp: synth_invar_def synth_core_def)
  moreover have "kill_on_barge_in_enabled m" using assms(5) by (simp add: kill_on_barge_in_enabled_def split: option.split)
  ultimately show ?thesis
    using assms by (simp add: mrcp_state_machine_update_def synth_state_update_def synth_request_state_update_def
      synth_methods method_lookup_def synth_request_method_array_def synth_request_barge_in_occurred_def
      synth_request_dispatch_def call_on_dispatch_def)
qed

theorem synth_barge_in_ignores_speak_witness:
  "\<exists>b sm'. synth_step apr_std (synth_speaking None False)
      (Update (synth_msg MRCP_MESSAGE_TYPE_REQUEST SYNTHESIZER_BARGE_IN_OCCURRED 2)) = Some (b, sm') \<and>
    sm_log sm' = sm_log (synth_speaking None False) @ [Dispatch (synth_msg MRCP_MESSAGE_TYPE_REQUEST SYNTHESIZER_BARGE_IN_OCCURRED 2)] \<and>
    active_request sm' = Some (synth_msg MRCP_MESSAGE_TYPE_REQUEST SYNTHESIZER_BARGE_IN_OCCURRED 2)"
  by (rule synth_barge_in_ignores_speak [where r = "synth_msg MRCP_MESSAGE_TYPE_REQUEST SYNTHESIZER_SPEAK 1"])
    (simp_all add: mrcp_resource_header_property_check_def apt_header_section_field_check_def
      SYNTHESIZER_HEADER_KILL_ON_BARGE_IN_def GENERIC_HEADER_COUNT_def nth_Cons')

end
