(* ===== verification/Mrcp_Verifier_Resource.thy ===== *)
theory Mrcp_Verifier_Resource
  imports Mrcp_Header_Wire
begin

text \<open>
  The verifier resource: \<open>mrcp_verifier_header.c\<close>, \<open>mrcp_verifier_header.h\<close> and \<open>mrcp_verifier_resource.c\<close> of
  \<open>libs/mrcp/resources\<close>.
\<close>

section \<open>Identifiers\<close>

text \<open>The identifiers of the header fields, methods and events are their positions in the enumerations.\<close>

definition VERIFIER_HEADER_COMPLETION_CAUSE :: nat where "VERIFIER_HEADER_COMPLETION_CAUSE = 15"
definition VERIFIER_HEADER_COUNT :: nat where "VERIFIER_HEADER_COUNT = 21"

definition VERIFIER_COMPLETION_CAUSE_SUCCESS :: nat where "VERIFIER_COMPLETION_CAUSE_SUCCESS = 0"
definition VERIFIER_COMPLETION_CAUSE_COUNT :: nat where "VERIFIER_COMPLETION_CAUSE_COUNT = 12"

definition VERIFIER_SET_PARAMS :: nat where "VERIFIER_SET_PARAMS = 0"
definition VERIFIER_GET_PARAMS :: nat where "VERIFIER_GET_PARAMS = 1"
definition VERIFIER_START_SESSION :: nat where "VERIFIER_START_SESSION = 2"
definition VERIFIER_END_SESSION :: nat where "VERIFIER_END_SESSION = 3"
definition VERIFIER_QUERY_VOICEPRINT :: nat where "VERIFIER_QUERY_VOICEPRINT = 4"
definition VERIFIER_DELETE_VOICEPRINT :: nat where "VERIFIER_DELETE_VOICEPRINT = 5"
definition VERIFIER_VERIFY :: nat where "VERIFIER_VERIFY = 6"
definition VERIFIER_VERIFY_FROM_BUFFER :: nat where "VERIFIER_VERIFY_FROM_BUFFER = 7"
definition VERIFIER_VERIFY_ROLLBACK :: nat where "VERIFIER_VERIFY_ROLLBACK = 8"
definition VERIFIER_STOP :: nat where "VERIFIER_STOP = 9"
definition VERIFIER_CLEAR_BUFFER :: nat where "VERIFIER_CLEAR_BUFFER = 10"
definition VERIFIER_START_INPUT_TIMERS :: nat where "VERIFIER_START_INPUT_TIMERS = 11"
definition VERIFIER_GET_INTERMIDIATE_RESULT :: nat where "VERIFIER_GET_INTERMIDIATE_RESULT = 12"
definition VERIFIER_METHOD_COUNT :: nat where "VERIFIER_METHOD_COUNT = 13"

definition VERIFIER_START_OF_INPUT :: nat where "VERIFIER_START_OF_INPUT = 0"
definition VERIFIER_VERIFICATION_COMPLETE :: nat where "VERIFIER_VERIFICATION_COMPLETE = 1"
definition VERIFIER_EVENT_COUNT :: nat where "VERIFIER_EVENT_COUNT = 2"

section \<open>String tables\<close>

definition verifier_header_string_table :: "apt_str_table_item list" where
  "verifier_header_string_table =
     [\<lparr>item_value = ''Repository-URI'', item_key = 0\<rparr>, \<lparr>item_value = ''Voiceprint-Identifier'', item_key = 12\<rparr>,
      \<lparr>item_value = ''Verification-Mode'', item_key = 6\<rparr>, \<lparr>item_value = ''Adapt-Model'', item_key = 1\<rparr>,
      \<lparr>item_value = ''Abort-Model'', item_key = 11\<rparr>, \<lparr>item_value = ''Min-Verification-Score'', item_key = 1\<rparr>,
      \<lparr>item_value = ''Num-Min-Verification-Phrases'', item_key = 6\<rparr>, \<lparr>item_value = ''Num-Max-Verification-Phrases'', item_key = 5\<rparr>,
      \<lparr>item_value = ''No-Input-Timeout'', item_key = 2\<rparr>, \<lparr>item_value = ''Save-Waveform'', item_key = 4\<rparr>,
      \<lparr>item_value = ''Media-Type'', item_key = 2\<rparr>, \<lparr>item_value = ''Waveform-URI'', item_key = 0\<rparr>,
      \<lparr>item_value = ''Voiceprint-Exists'', item_key = 11\<rparr>, \<lparr>item_value = ''Ver-Buffer-Utterance'', item_key = 4\<rparr>,
      \<lparr>item_value = ''Input-Waveform-URI'', item_key = 0\<rparr>, \<lparr>item_value = ''Completion-Cause'', item_key = 11\<rparr>,
      \<lparr>item_value = ''Completion-Reason'', item_key = 15\<rparr>, \<lparr>item_value = ''Speech-Complete-Timeout'', item_key = 1\<rparr>,
      \<lparr>item_value = ''New-Audio-Channel'', item_key = 2\<rparr>, \<lparr>item_value = ''Abort-Verification'', item_key = 6\<rparr>,
      \<lparr>item_value = ''Start-Input-Timers'', item_key = 1\<rparr>]"

definition verifier_completion_cause_string_table :: "apt_str_table_item list" where
  "verifier_completion_cause_string_table =
     [\<lparr>item_value = ''success'', item_key = 2\<rparr>, \<lparr>item_value = ''error'', item_key = 0\<rparr>,
      \<lparr>item_value = ''no-input-timeout'', item_key = 0\<rparr>, \<lparr>item_value = ''too-much-speech-timeout'', item_key = 0\<rparr>,
      \<lparr>item_value = ''speech-too-early'', item_key = 9\<rparr>, \<lparr>item_value = ''buffer-empty'', item_key = 0\<rparr>,
      \<lparr>item_value = ''out-of-sequence'', item_key = 0\<rparr>, \<lparr>item_value = ''repository-uri-failure'', item_key = 15\<rparr>,
      \<lparr>item_value = ''repository-uri-missing'', item_key = 15\<rparr>, \<lparr>item_value = ''voiceprint-id-missing'', item_key = 14\<rparr>,
      \<lparr>item_value = ''voiceprint-id-not-exist'', item_key = 14\<rparr>, \<lparr>item_value = ''speech-not-usable'', item_key = 7\<rparr>]"

definition verifier_method_string_table :: "apt_str_table_item list" where
  "verifier_method_string_table =
     [\<lparr>item_value = ''SET-PARAMS'', item_key = 10\<rparr>, \<lparr>item_value = ''GET-PARAMS'', item_key = 10\<rparr>,
      \<lparr>item_value = ''START-SESSION'', item_key = 8\<rparr>, \<lparr>item_value = ''END-SESSION'', item_key = 0\<rparr>,
      \<lparr>item_value = ''QUERY-VOICEPRINT'', item_key = 0\<rparr>, \<lparr>item_value = ''DELETE-VOICEPRINT'', item_key = 0\<rparr>,
      \<lparr>item_value = ''VERIFY'', item_key = 6\<rparr>, \<lparr>item_value = ''VERIFY-FROM-BUFFER'', item_key = 7\<rparr>,
      \<lparr>item_value = ''VERIFY-ROLLBACK'', item_key = 7\<rparr>, \<lparr>item_value = ''STOP'', item_key = 2\<rparr>,
      \<lparr>item_value = ''CLEAR-BUFFER'', item_key = 0\<rparr>, \<lparr>item_value = ''START-INPUT-TIMERS'', item_key = 6\<rparr>,
      \<lparr>item_value = ''GET-INTERMEDIATE-RESULT'', item_key = 4\<rparr>]"

definition verifier_event_string_table :: "apt_str_table_item list" where
  "verifier_event_string_table =
     [\<lparr>item_value = ''START-OF-INPUT'', item_key = 0\<rparr>, \<lparr>item_value = ''VERIFICATION-COMPLETE'', item_key = 0\<rparr>]"

section \<open>The header\<close>

record 'f mrcp_verifier_header =
  repository_uri :: apt_str
  voiceprint_identifier :: apt_str
  verification_mode :: apt_str
  adapt_model :: bool
  abort_model :: bool
  min_verification_score :: "'f"
  num_min_verification_phrases :: nat
  num_max_verification_phrases :: nat
  no_input_timeout :: nat
  save_waveform :: bool
  media_type :: apt_str
  waveform_uri :: apt_str
  voiceprint_exists :: bool
  ver_buffer_utterance :: bool
  input_waveform_uri :: apt_str
  completion_cause :: nat
  completion_reason :: apt_str
  speech_complete_timeout :: nat
  new_audio_channel :: bool
  abort_verification :: bool
  start_input_timers :: bool

definition mrcp_verifier_header_init :: "'f float_ops \<Rightarrow> 'f mrcp_verifier_header" where
  "mrcp_verifier_header_init fo =
     \<lparr>repository_uri = [],
      voiceprint_identifier = [],
      verification_mode = [],
      adapt_model = False,
      abort_model = False,
      min_verification_score = flt_zero fo,
      num_min_verification_phrases = 0,
      num_max_verification_phrases = 0,
      no_input_timeout = 0,
      save_waveform = False,
      media_type = [],
      waveform_uri = [],
      voiceprint_exists = False,
      ver_buffer_utterance = False,
      input_waveform_uri = [],
      completion_cause = VERIFIER_COMPLETION_CAUSE_COUNT,
      completion_reason = [],
      speech_complete_timeout = 0,
      new_audio_channel = False,
      abort_verification = False,
      start_input_timers = False\<rparr>"

definition mrcp_verifier_header_parse :: "'f float_ops \<Rightarrow> 'f mrcp_verifier_header \<Rightarrow> nat \<Rightarrow> apt_str \<Rightarrow> bool \<times> 'f mrcp_verifier_header" where
  "mrcp_verifier_header_parse fo d k val =
     (if k = 0 then (True, d\<lparr>repository_uri := val\<rparr>)
      else if k = 1 then (True, d\<lparr>voiceprint_identifier := val\<rparr>)
      else if k = 2 then (True, d\<lparr>verification_mode := val\<rparr>)
      else if k = 3 then (True, d\<lparr>adapt_model := boolean_value_read val (adapt_model d)\<rparr>)
      else if k = 4 then (True, d\<lparr>abort_model := boolean_value_read val (abort_model d)\<rparr>)
      else if k = 5 then (True, d\<lparr>min_verification_score := apt_float_value_parse fo val\<rparr>)
      else if k = 6 then (True, d\<lparr>num_min_verification_phrases := apt_size_value_parse val\<rparr>)
      else if k = 7 then (True, d\<lparr>num_max_verification_phrases := apt_size_value_parse val\<rparr>)
      else if k = 8 then (True, d\<lparr>no_input_timeout := apt_size_value_parse val\<rparr>)
      else if k = 9 then (True, d\<lparr>save_waveform := boolean_value_read val (save_waveform d)\<rparr>)
      else if k = 10 then (True, d\<lparr>media_type := val\<rparr>)
      else if k = 11 then (True, d\<lparr>waveform_uri := val\<rparr>)
      else if k = 12 then (True, d\<lparr>voiceprint_exists := boolean_value_read val (voiceprint_exists d)\<rparr>)
      else if k = 13 then (True, d\<lparr>ver_buffer_utterance := boolean_value_read val (ver_buffer_utterance d)\<rparr>)
      else if k = 14 then (True, d\<lparr>input_waveform_uri := val\<rparr>)
      else if k = 15 then (True, d\<lparr>completion_cause := enum_of_size (apt_size_value_parse val)\<rparr>)
      else if k = 16 then (True, d\<lparr>completion_reason := val\<rparr>)
      else if k = 17 then (True, d\<lparr>speech_complete_timeout := apt_size_value_parse val\<rparr>)
      else if k = 18 then (True, d\<lparr>new_audio_channel := boolean_value_read val (new_audio_channel d)\<rparr>)
      else if k = 19 then (True, d\<lparr>abort_verification := boolean_value_read val (abort_verification d)\<rparr>)
      else if k = 20 then (True, d\<lparr>start_input_timers := boolean_value_read val (start_input_timers d)\<rparr>)
      else (False, d))"

definition mrcp_verifier_header_generate :: "apr_fmt \<Rightarrow> 'f float_ops \<Rightarrow> 'f mrcp_verifier_header \<Rightarrow> nat \<Rightarrow> (bool \<times> apt_str) option" where
  "mrcp_verifier_header_generate apr fo d k =
     (if k = 0 then Some (True, repository_uri d)
      else if k = 1 then Some (True, voiceprint_identifier d)
      else if k = 2 then Some (True, verification_mode d)
      else if k = 3 then Some (True, apt_boolean_value_generate (adapt_model d))
      else if k = 4 then Some (True, apt_boolean_value_generate (abort_model d))
      else if k = 5 then Some (True, apt_float_value_generate fo (min_verification_score d))
      else if k = 6 then Some (True, apt_size_value_generate apr (num_min_verification_phrases d))
      else if k = 7 then Some (True, apt_size_value_generate apr (num_max_verification_phrases d))
      else if k = 8 then Some (True, apt_size_value_generate apr (no_input_timeout d))
      else if k = 9 then Some (True, apt_boolean_value_generate (save_waveform d))
      else if k = 10 then Some (True, media_type d)
      else if k = 11 then Some (True, waveform_uri d)
      else if k = 12 then Some (True, apt_boolean_value_generate (voiceprint_exists d))
      else if k = 13 then Some (True, apt_boolean_value_generate (ver_buffer_utterance d))
      else if k = 14 then Some (True, input_waveform_uri d)
      else if k = 15 then Some (True, case apt_completion_cause_generate verifier_completion_cause_string_table VERIFIER_COMPLETION_CAUSE_COUNT (completion_cause d) of
          None \<Rightarrow> [] | Some v \<Rightarrow> v)
      else if k = 16 then Some (True, completion_reason d)
      else if k = 17 then Some (True, apt_size_value_generate apr (speech_complete_timeout d))
      else if k = 18 then Some (True, apt_boolean_value_generate (new_audio_channel d))
      else if k = 19 then Some (True, apt_boolean_value_generate (abort_verification d))
      else if k = 20 then Some (True, apt_boolean_value_generate (start_input_timers d))
      else Some (True, []))"

definition mrcp_verifier_header_duplicate ::
  "'f mrcp_verifier_header option \<Rightarrow> 'f mrcp_verifier_header option \<Rightarrow> nat \<Rightarrow> apt_str \<Rightarrow> bool \<times> 'f mrcp_verifier_header option"
where
  "mrcp_verifier_header_duplicate dst source k val =
     (case (dst, source) of
        (Some d, Some src) \<Rightarrow>
     (if k = 0 then (True, Some (d\<lparr>repository_uri := val\<rparr>))
      else if k = 1 then (True, Some (d\<lparr>voiceprint_identifier := val\<rparr>))
      else if k = 2 then (True, Some (d\<lparr>verification_mode := val\<rparr>))
      else if k = 3 then (True, Some (d\<lparr>adapt_model := adapt_model src\<rparr>))
      else if k = 4 then (True, Some (d\<lparr>abort_model := abort_model src\<rparr>))
      else if k = 5 then (True, Some (d\<lparr>min_verification_score := min_verification_score src\<rparr>))
      else if k = 6 then (True, Some (d\<lparr>num_min_verification_phrases := num_min_verification_phrases src\<rparr>))
      else if k = 7 then (True, Some (d\<lparr>num_max_verification_phrases := num_max_verification_phrases src\<rparr>))
      else if k = 8 then (True, Some (d\<lparr>no_input_timeout := no_input_timeout src\<rparr>))
      else if k = 9 then (True, Some (d\<lparr>save_waveform := save_waveform src\<rparr>))
      else if k = 10 then (True, Some (d\<lparr>media_type := val\<rparr>))
      else if k = 11 then (True, Some (d\<lparr>waveform_uri := val\<rparr>))
      else if k = 12 then (True, Some (d\<lparr>voiceprint_exists := voiceprint_exists src\<rparr>))
      else if k = 13 then (True, Some (d\<lparr>ver_buffer_utterance := ver_buffer_utterance src\<rparr>))
      else if k = 14 then (True, Some (d\<lparr>input_waveform_uri := val\<rparr>))
      else if k = 15 then (True, Some (d\<lparr>completion_cause := completion_cause src\<rparr>))
      else if k = 16 then (True, Some (d\<lparr>completion_reason := val\<rparr>))
      else if k = 17 then (True, Some (d\<lparr>speech_complete_timeout := speech_complete_timeout src\<rparr>))
      else if k = 18 then (True, Some (d\<lparr>new_audio_channel := new_audio_channel src\<rparr>))
      else if k = 19 then (True, Some (d\<lparr>abort_verification := abort_verification src\<rparr>))
      else if k = 20 then (True, Some (d\<lparr>start_input_timers := start_input_timers src\<rparr>))
      else (False, Some d))
      | _ \<Rightarrow> (False, dst))"

definition mrcp_verifier_header_vtable_get ::
  "apr_fmt \<Rightarrow> 'f float_ops \<Rightarrow> mrcp_version_e \<Rightarrow> 'f mrcp_verifier_header mrcp_header_vtable"
where
  "mrcp_verifier_header_vtable_get apr fo v =
     \<lparr>allocate = Some (mrcp_verifier_header_init fo), parse_field = mrcp_verifier_header_parse fo,
      generate_field = mrcp_verifier_header_generate apr fo, duplicate_field = mrcp_verifier_header_duplicate,
      field_table = verifier_header_string_table, field_count = VERIFIER_HEADER_COUNT\<rparr>"

definition mrcp_verifier_completion_cause_get :: "nat \<Rightarrow> mrcp_version_e \<Rightarrow> apt_str option" where
  "mrcp_verifier_completion_cause_get cause v =
     apt_string_table_str_get verifier_completion_cause_string_table VERIFIER_COMPLETION_CAUSE_COUNT cause"

section \<open>The resource\<close>

definition mrcp_verifier_resource_create :: "apr_fmt \<Rightarrow> 'f float_ops \<Rightarrow> 'f mrcp_verifier_header mrcp_resource" where
  "mrcp_verifier_resource_create apr fo =
     \<lparr>res_id = 0, res_name = [], method_count = VERIFIER_METHOD_COUNT, event_count = VERIFIER_EVENT_COUNT,
      get_method_str_table = (\<lambda>_. verifier_method_string_table),
      get_event_str_table = (\<lambda>_. verifier_event_string_table),
      get_resource_header_vtable = (\<lambda>v. Some (mrcp_verifier_header_vtable_get apr fo v))\<rparr>"

section \<open>Fields on the wire\<close>

text \<open>The fields that survive: not the floating point numbers, and sizes that fit into a signed 64-bit integer.\<close>

definition verifier_wire_ok :: "apr_fmt \<Rightarrow> 'f mrcp_verifier_header \<Rightarrow> nat \<Rightarrow> bool" where
  "verifier_wire_ok apr d k \<longleftrightarrow>
     apr_fmt_ok apr \<and> k \<notin> {5} \<and>
     (k = 6 \<longrightarrow> num_min_verification_phrases d < 2 ^ 63) \<and>
     (k = 7 \<longrightarrow> num_max_verification_phrases d < 2 ^ 63) \<and>
     (k = 8 \<longrightarrow> no_input_timeout d < 2 ^ 63) \<and>
     (k = 17 \<longrightarrow> speech_complete_timeout d < 2 ^ 63)"

lemma verifier_names: "table_names_distinct verifier_header_string_table VERIFIER_HEADER_COUNT"
  by code_simp

lemma verifier_wire:
  assumes "k < VERIFIER_HEADER_COUNT" "verifier_wire_ok apr s k" "val \<noteq> []"
    and "Some (True, val) = generate_field (mrcp_verifier_header_vtable_get apr fo v) s k"
  shows "\<exists>d'. parse_field (mrcp_verifier_header_vtable_get apr fo v) d k val = (True, d') \<and>
    duplicate_field (mrcp_verifier_header_vtable_get apr fo v) (Some d) (Some s) k val = (True, Some d')"
proof -
  have "k < 21" using assms(1) by (simp add: VERIFIER_HEADER_COUNT_def)
  then show ?thesis
    using assms(2-) unfolding numeral_cases
    by - (elim disjE less_zeroE; hypsubst_thin; simp add: verifier_wire_ok_def mrcp_verifier_header_vtable_get_def mrcp_verifier_header_parse_def
      mrcp_verifier_header_generate_def mrcp_verifier_header_duplicate_def VERIFIER_HEADER_COUNT_def
      VERIFIER_COMPLETION_CAUSE_COUNT_def wire_simps)
qed

interpretation verifier_fields: header_contract "mrcp_verifier_header_vtable_get apr fo v" "verifier_wire_ok apr"
  for apr fo v
proof (unfold_locales, goal_cases)
  case 1
  show ?case using verifier_names by (simp add: mrcp_verifier_header_vtable_get_def)
next
  case (2 k s val d)
  then show ?case by (intro verifier_wire) (simp_all add: mrcp_verifier_header_vtable_get_def)
qed

lemma verifier_apart: "table_without verifier_header_string_table generic_header_string_table"
  by code_simp

interpretation verifier_message: message_contract "mrcp_verifier_header_vtable_get apr fo v" "verifier_wire_ok apr"
  for apr fo v
  using verifier_apart by unfold_locales (simp add: mrcp_verifier_header_vtable_get_def)


text \<open>A header with two fields of the verifier and one of the generic header.\<close>

definition verifier_example :: "unit mrcp_verifier_header mrcp_message_header" where
  "verifier_example =
     \<lparr>generic_header_accessor =
        \<lparr>acc_data = Some (mrcp_generic_header_init\<lparr>content_type := ''text/plain''\<rparr>),
         acc_vtable = Some (mrcp_generic_header_vtable_get apr_std)\<rparr>,
      resource_header_accessor =
        \<lparr>acc_data = Some ((mrcp_verifier_header_init float_unit)\<lparr>no_input_timeout := 30, adapt_model := True\<rparr>),
         acc_vtable = Some (mrcp_verifier_header_vtable_get apr_std float_unit MRCP_VERSION_2)\<rparr>,
      header_section =
        \<lparr>hs_ring =
           [(0, \<lparr>hf_name = ''No-Input-Timeout'', hf_value = ''30'', hf_id = 24\<rparr>), (1, \<lparr>hf_name = ''Adapt-Model'', hf_value = ''true'', hf_id = 19\<rparr>),
            (2, \<lparr>hf_name = ''Content-Type'', hf_value = ''text/plain'', hf_id = 3\<rparr>)],
         hs_arr = []\<rparr>\<rparr>"

lemma verifier_example_digits: "dec 30 = ''30''"
  by code_simp

lemma verifier_example_generate:
  "mrcp_header_field_value_generate (resource_header_accessor verifier_example) 8 False =
     Some (Some \<lparr>hf_name = ''No-Input-Timeout'', hf_value = ''30'', hf_id = UNKNOWN_HEADER_FIELD_ID\<rparr>)"
  "mrcp_header_field_value_generate (resource_header_accessor verifier_example) 3 False =
     Some (Some \<lparr>hf_name = ''Adapt-Model'', hf_value = ''true'', hf_id = UNKNOWN_HEADER_FIELD_ID\<rparr>)"
  "mrcp_header_field_value_generate (generic_header_accessor verifier_example) 3 False =
     Some (Some \<lparr>hf_name = ''Content-Type'', hf_value = ''text/plain'', hf_id = UNKNOWN_HEADER_FIELD_ID\<rparr>)"
  by (simp_all add: mrcp_header_field_value_generate_def verifier_example_def mrcp_verifier_header_vtable_get_def mrcp_verifier_header_generate_def verifier_header_string_table_def VERIFIER_HEADER_COUNT_def
    mrcp_generic_header_vtable_get_def mrcp_generic_header_generate_def generic_header_string_table_def
    GENERIC_HEADER_COUNT_def apt_string_table_str_get_def apt_header_field_alloc_def apt_boolean_value_generate_def
    apt_size_value_generate_def apr_std_def verifier_example_digits TOKEN_TRUE_def)

lemma verifier_example_sent:
  "header_sent apr_std (mrcp_verifier_header_vtable_get apr_std float_unit MRCP_VERSION_2) (verifier_wire_ok apr_std) verifier_example"
proof -
  let ?n = "field_count (mrcp_verifier_header_vtable_get apr_std float_unit MRCP_VERSION_2)"
  have "header_ready apr_std (mrcp_verifier_header_vtable_get apr_std float_unit MRCP_VERSION_2) verifier_example"
    by (simp add: header_ready_def verifier_example_def)
  moreover have "resource_sent ?n (verifier_wire_ok apr_std) verifier_example
      \<lparr>hf_name = ''No-Input-Timeout'', hf_value = ''30'', hf_id = 24\<rparr>"
    unfolding resource_sent_def
    by (rule exI [of _ 8]) (simp add: verifier_example_generate apr_std_ok verifier_wire_ok_def
      mrcp_verifier_header_vtable_get_def VERIFIER_HEADER_COUNT_def GENERIC_HEADER_COUNT_def, simp add: verifier_example_def)
  moreover have "resource_sent ?n (verifier_wire_ok apr_std) verifier_example
      \<lparr>hf_name = ''Adapt-Model'', hf_value = ''true'', hf_id = 19\<rparr>"
    unfolding resource_sent_def
    by (rule exI [of _ 3]) (simp add: verifier_example_generate apr_std_ok verifier_wire_ok_def
      mrcp_verifier_header_vtable_get_def VERIFIER_HEADER_COUNT_def GENERIC_HEADER_COUNT_def, simp add: verifier_example_def)
  moreover have "generic_sent apr_std verifier_example \<lparr>hf_name = ''Content-Type'', hf_value = ''text/plain'', hf_id = 3\<rparr>"
    unfolding generic_sent_def
    by (simp add: verifier_example_generate apr_std_ok generic_wire_ok_def GENERIC_HEADER_COUNT_def) (simp add: verifier_example_def)
  moreover have "list_all (\<lambda>f. field_ok (snd f)) (hs_ring (header_section verifier_example))" by code_simp
  ultimately show ?thesis by (auto simp: header_sent_def verifier_example_def)
qed


end
