(* ===== verification/Mrcp_Verifier_State_Machine.thy ===== *)
theory Mrcp_Verifier_State_Machine
  imports Mrcp_State_Machine Mrcp_Verifier_Resource
begin

text \<open>
  The state machine of the verifier: \<open>libs/mrcp-engine/src/mrcp_verifier_state_machine.c\<close>.
\<close>

section \<open>The machine\<close>

datatype mrcp_verifier_state_e = VERIFIER_STATE_IDLE | VERIFIER_STATE_OPENED | VERIFIER_STATE_VERIFYING

type_synonym 'f verifier_message = "'f mrcp_verifier_header mrcp_message"

record 'f mrcp_verifier_state_machine = "'f mrcp_verifier_header mrcp_message mrcp_state_machine" +
  state :: mrcp_verifier_state_e
  active_request :: "'f verifier_message option"
  verify :: "'f verifier_message option"
  properties :: "'f mrcp_verifier_header mrcp_message_header"

type_synonym 'f verifier_method =
  "'f mrcp_verifier_state_machine \<Rightarrow> 'f verifier_message \<Rightarrow> (bool \<times> 'f mrcp_verifier_state_machine) option"

definition verifier_request_dispatch :: "'f verifier_method" where
  "verifier_request_dispatch sm m = call_on_dispatch m (sm\<lparr>active_request := Some m\<rparr>)"

definition verifier_response_dispatch :: "'f verifier_method" where
  "verifier_response_dispatch sm m =
     (let sm = sm\<lparr>active_request := None\<rparr>
      in if \<not> active sm then call_on_deactivate sm else call_on_dispatch m sm)"

definition verifier_event_dispatch :: "'f verifier_method" where
  "verifier_event_dispatch sm m = (if \<not> active sm then Some (False, sm) else call_on_dispatch m sm)"

definition verifier_state_change ::
  "mrcp_verifier_state_e \<Rightarrow> 'f mrcp_verifier_state_machine \<Rightarrow> 'f mrcp_verifier_state_machine"
where
  "verifier_state_change st sm =
     (let sm = sm\<lparr>state := st\<rparr> in if st = VERIFIER_STATE_IDLE then sm\<lparr>verify := None\<rparr> else sm)"

section \<open>Requests, responses and events\<close>

definition verifier_request_set_params :: "'f verifier_method" where
  "verifier_request_set_params sm m =
     verifier_request_dispatch (sm\<lparr>properties := snd (mrcp_header_fields_set (properties sm) (header m))\<rparr>) m"

definition verifier_response_set_params :: "'f verifier_method" where
  "verifier_response_set_params sm m = verifier_response_dispatch sm m"

definition verifier_request_get_params :: "'f verifier_method" where
  "verifier_request_get_params sm m = verifier_request_dispatch sm m"

definition verifier_response_get_params :: "'f verifier_method" where
  "verifier_response_get_params sm m = do {
     req \<leftarrow> active_request sm;
     verifier_response_dispatch sm (m\<lparr>header := snd (mrcp_header_fields_get (header m) (properties sm) (header req))\<rparr>)
   }"

definition verifier_request_start_session :: "apr_fmt \<Rightarrow> 'f verifier_method" where
  "verifier_request_start_session apr sm m =
     (if state sm = VERIFIER_STATE_VERIFYING then verifier_response_dispatch sm (method_not_valid_response apr m)
      else verifier_request_dispatch sm m)"

definition verifier_response_start_session :: "'f verifier_method" where
  "verifier_response_start_session sm m = verifier_response_dispatch (verifier_state_change VERIFIER_STATE_OPENED sm) m"

definition verifier_request_end_session :: "apr_fmt \<Rightarrow> 'f verifier_method" where
  "verifier_request_end_session apr sm m =
     (if state sm = VERIFIER_STATE_IDLE then verifier_response_dispatch sm (method_not_valid_response apr m)
      else verifier_request_dispatch sm m)"

definition verifier_response_end_session :: "'f verifier_method" where
  "verifier_response_end_session sm m = verifier_response_dispatch (verifier_state_change VERIFIER_STATE_IDLE sm) m"

definition verifier_request_query_voiceprint :: "apr_fmt \<Rightarrow> 'f verifier_method" where
  "verifier_request_query_voiceprint apr sm m =
     (if state sm = VERIFIER_STATE_IDLE then verifier_response_dispatch sm (method_not_valid_response apr m)
      else verifier_request_dispatch sm m)"

definition verifier_response_query_voiceprint :: "'f verifier_method" where
  "verifier_response_query_voiceprint sm m = verifier_response_dispatch sm m"

definition verifier_request_delete_voiceprint :: "apr_fmt \<Rightarrow> 'f verifier_method" where
  "verifier_request_delete_voiceprint apr sm m =
     (if state sm = VERIFIER_STATE_IDLE then verifier_response_dispatch sm (method_not_valid_response apr m)
      else verifier_request_dispatch sm m)"

definition verifier_response_delete_voiceprint :: "'f verifier_method" where
  "verifier_response_delete_voiceprint sm m = verifier_response_dispatch sm m"

definition verifier_request_verify :: "apr_fmt \<Rightarrow> 'f verifier_method" where
  "verifier_request_verify apr sm m =
     (if state sm = VERIFIER_STATE_IDLE \<or> state sm = VERIFIER_STATE_VERIFYING then verifier_response_dispatch sm (method_not_valid_response apr m)
      else verifier_request_dispatch (sm\<lparr>verify := Some m\<rparr>) m)"

definition verifier_response_verify :: "'f verifier_method" where
  "verifier_response_verify sm m = verifier_response_dispatch (verifier_state_change VERIFIER_STATE_VERIFYING sm) m"

definition verifier_request_verify_from_buffer :: "apr_fmt \<Rightarrow> 'f verifier_method" where
  "verifier_request_verify_from_buffer apr sm m =
     (if state sm = VERIFIER_STATE_IDLE \<or> state sm = VERIFIER_STATE_VERIFYING then verifier_response_dispatch sm (method_not_valid_response apr m)
      else verifier_request_dispatch (sm\<lparr>verify := Some m\<rparr>) m)"

definition verifier_response_verify_from_buffer :: "'f verifier_method" where
  "verifier_response_verify_from_buffer sm m = verifier_response_dispatch (verifier_state_change VERIFIER_STATE_VERIFYING sm) m"

definition verifier_request_verify_rollback :: "'f verifier_method" where
  "verifier_request_verify_rollback sm m = verifier_request_dispatch sm m"

definition verifier_response_verify_rollback :: "'f verifier_method" where
  "verifier_response_verify_rollback sm m = verifier_response_dispatch sm m"

definition verifier_request_stop :: "apr_fmt \<Rightarrow> 'f verifier_method" where
  "verifier_request_stop apr sm m =
     (if state sm = VERIFIER_STATE_IDLE then verifier_response_dispatch sm (method_not_valid_response apr m)
      else if state sm = VERIFIER_STATE_OPENED then verifier_response_dispatch sm (mrcp_response_create apr 0 (Some m))
      else verifier_request_dispatch sm m)"

definition verifier_response_stop :: "'f verifier_method" where
  "verifier_response_stop sm m = do {
     r \<leftarrow> verify sm;
     m \<leftarrow> active_id_append (request_id (start_line r)) m;
     verifier_response_dispatch (verifier_state_change VERIFIER_STATE_OPENED sm) m
   }"

definition verifier_request_clear_buffer :: "'f verifier_method" where
  "verifier_request_clear_buffer sm m = verifier_request_dispatch sm m"

definition verifier_response_clear_buffer :: "'f verifier_method" where
  "verifier_response_clear_buffer sm m = verifier_response_dispatch sm m"

definition verifier_request_start_input_timers :: "apr_fmt \<Rightarrow> 'f verifier_method" where
  "verifier_request_start_input_timers apr sm m =
     (if state sm = VERIFIER_STATE_IDLE \<or> state sm = VERIFIER_STATE_VERIFYING then verifier_response_dispatch sm (method_not_valid_response apr m)
      else verifier_request_dispatch sm m)"

definition verifier_response_start_input_timers :: "'f verifier_method" where
  "verifier_response_start_input_timers sm m = verifier_response_dispatch sm m"

definition verifier_request_get_intermidiate_result :: "apr_fmt \<Rightarrow> 'f verifier_method" where
  "verifier_request_get_intermidiate_result apr sm m =
     (if state sm \<noteq> VERIFIER_STATE_VERIFYING then verifier_response_dispatch sm (method_not_valid_response apr m)
      else verifier_request_dispatch sm m)"

definition verifier_response_get_intermidiate_result :: "'f verifier_method" where
  "verifier_response_get_intermidiate_result sm m = verifier_response_dispatch sm m"

definition verifier_event_start_of_input :: "'f verifier_method" where
  "verifier_event_start_of_input sm m =
     (case verify sm of
        None \<Rightarrow> Some (False, sm)
      | Some r \<Rightarrow>
          if request_id (start_line r) \<noteq> request_id (start_line m) then Some (False, sm)
          else verifier_event_dispatch sm (request_state_set MRCP_REQUEST_STATE_INPROGRESS m))"

definition verifier_stop_outstanding :: "'f mrcp_verifier_state_machine \<Rightarrow> bool" where
  "verifier_stop_outstanding sm =
     (case active_request sm of None \<Rightarrow> False | Some a \<Rightarrow> method_id (start_line a) = VERIFIER_STOP)"

definition verifier_cause_ensure :: "'f verifier_message \<Rightarrow> 'f verifier_message option" where
  "verifier_cause_ensure m =
     completion_cause_ensure VERIFIER_HEADER_COMPLETION_CAUSE
       (\<lambda>d. d\<lparr>completion_cause := VERIFIER_COMPLETION_CAUSE_SUCCESS\<rparr>) m"

definition verifier_event_verification_complete :: "'f verifier_method" where
  "verifier_event_verification_complete sm m =
     (case verify sm of
        None \<Rightarrow> Some (False, sm)
      | Some r \<Rightarrow>
          if request_id (start_line r) \<noteq> request_id (start_line m) then Some (False, sm)
          else if verifier_stop_outstanding sm then Some (False, sm)
          else do {
            m \<leftarrow> verifier_cause_ensure m;
            verifier_event_dispatch (verifier_state_change VERIFIER_STATE_OPENED sm) m
          })"

section \<open>Updating and deactivating\<close>

definition verifier_request_method_array :: "apr_fmt \<Rightarrow> 'f verifier_method list" where
  "verifier_request_method_array apr =
     [verifier_request_set_params, verifier_request_get_params, verifier_request_start_session apr,
      verifier_request_end_session apr, verifier_request_query_voiceprint apr, verifier_request_delete_voiceprint apr,
      verifier_request_verify apr, verifier_request_verify_from_buffer apr, verifier_request_verify_rollback,
      verifier_request_stop apr, verifier_request_clear_buffer, verifier_request_start_input_timers apr,
      verifier_request_get_intermidiate_result apr]"

definition verifier_response_method_array :: "'f verifier_method list" where
  "verifier_response_method_array =
     [verifier_response_set_params, verifier_response_get_params, verifier_response_start_session,
      verifier_response_end_session, verifier_response_query_voiceprint, verifier_response_delete_voiceprint,
      verifier_response_verify, verifier_response_verify_from_buffer, verifier_response_verify_rollback,
      verifier_response_stop, verifier_response_clear_buffer, verifier_response_start_input_timers,
      verifier_response_get_intermidiate_result]"

definition verifier_event_method_array :: "'f verifier_method list" where
  "verifier_event_method_array = [verifier_event_start_of_input, verifier_event_verification_complete]"

definition verifier_request_state_update :: "apr_fmt \<Rightarrow> 'f verifier_method" where
  "verifier_request_state_update apr sm m =
     (if VERIFIER_METHOD_COUNT \<le> method_id (start_line m) then Some (False, sm)
      else
        (case method_lookup (verifier_request_method_array apr) (method_id (start_line m)) of
           Some f \<Rightarrow> f sm m | None \<Rightarrow> verifier_request_dispatch sm m))"

definition verifier_response_state_update :: "'f verifier_method" where
  "verifier_response_state_update sm m =
     (case active_request sm of
        None \<Rightarrow> Some (False, sm)
      | Some a \<Rightarrow>
          if request_id (start_line a) \<noteq> request_id (start_line m) then Some (False, sm)
          else if VERIFIER_METHOD_COUNT \<le> method_id (start_line m) then Some (False, sm)
          else
            (case method_lookup verifier_response_method_array (method_id (start_line m)) of
               Some f \<Rightarrow> f sm m | None \<Rightarrow> verifier_response_dispatch sm m))"

definition verifier_event_state_update :: "'f verifier_method" where
  "verifier_event_state_update sm m =
     (if VERIFIER_EVENT_COUNT \<le> method_id (start_line m) then Some (False, sm)
      else
        (case method_lookup verifier_event_method_array (method_id (start_line m)) of
           Some f \<Rightarrow> f sm m | None \<Rightarrow> verifier_event_dispatch sm m))"

definition verifier_state_update :: "apr_fmt \<Rightarrow> 'f verifier_method" where
  "verifier_state_update apr sm m =
     (case message_type (start_line m) of
        MRCP_MESSAGE_TYPE_REQUEST \<Rightarrow> verifier_request_state_update apr sm m
      | MRCP_MESSAGE_TYPE_RESPONSE \<Rightarrow> verifier_response_state_update sm m
      | MRCP_MESSAGE_TYPE_EVENT \<Rightarrow> verifier_event_state_update sm m
      | _ \<Rightarrow> Some (False, sm))"

definition verifier_state_deactivate ::
  "apr_fmt \<Rightarrow> 'f mrcp_verifier_state_machine \<Rightarrow> (bool \<times> 'f mrcp_verifier_state_machine) option"
where
  "verifier_state_deactivate apr sm =
     (if state sm \<noteq> VERIFIER_STATE_VERIFYING then Some (False, sm)
      else
        (case verify sm of
           None \<Rightarrow> Some (False, sm)
         | Some source \<Rightarrow> verifier_request_dispatch sm (deactivate_request apr VERIFIER_STOP source)))"

definition mrcp_verifier_state_machine_create ::
  "apr_fmt \<Rightarrow> 'f float_ops \<Rightarrow> mrcp_version_e \<Rightarrow> 'f mrcp_verifier_state_machine"
where
  "mrcp_verifier_state_machine_create apr fo v =
     mrcp_state_machine.extend mrcp_state_machine_init
       (mrcp_verifier_state_machine.fields VERIFIER_STATE_IDLE None None
          (mrcp_message_header_create (Some (mrcp_generic_header_vtable_get apr))
             (Some (mrcp_verifier_header_vtable_get apr fo v))))"

fun verifier_step ::
  "apr_fmt \<Rightarrow> 'f mrcp_verifier_state_machine \<Rightarrow> 'f verifier_message sm_input
    \<Rightarrow> (bool \<times> 'f mrcp_verifier_state_machine) option"
where
  "verifier_step apr sm (Update m) = mrcp_state_machine_update (Some (verifier_state_update apr)) sm m"
| "verifier_step apr sm Deactivate = mrcp_state_machine_deactivate (Some (verifier_state_deactivate apr)) sm"

section \<open>The invariant\<close>

text \<open>
  A VERIFY request is known while the machine is verifying, and while a request is outstanding whose response needs it.
\<close>

definition verifier_core :: "'f mrcp_verifier_state_machine \<Rightarrow> bool" where
  "verifier_core sm \<longleftrightarrow>
     on_dispatch sm \<noteq> None \<and> on_deactivate sm \<noteq> None \<and> (state sm = VERIFIER_STATE_VERIFYING \<longrightarrow> verify sm \<noteq> None)"

definition needs_verify :: "'f verifier_message \<Rightarrow> bool" where
  "needs_verify a \<longleftrightarrow> method_id (start_line a) \<in> {VERIFIER_VERIFY, VERIFIER_VERIFY_FROM_BUFFER, VERIFIER_STOP}"

definition verifier_invar :: "'f mrcp_verifier_state_machine \<Rightarrow> bool" where
  "verifier_invar sm \<longleftrightarrow>
     verifier_core sm \<and> (\<forall>a. active_request sm = Some a \<longrightarrow> needs_verify a \<longrightarrow> verify sm \<noteq> None)"

fun verifier_allowed ::
  "apr_fmt \<Rightarrow> 'f float_ops \<Rightarrow> 'f mrcp_verifier_state_machine \<Rightarrow> 'f verifier_message sm_input \<Rightarrow> bool"
where
  "verifier_allowed apr fo sm (Update m) \<longleftrightarrow>
     msg_ok apr (range (mrcp_verifier_header_vtable_get apr fo)) m \<and>
     (case active_request sm of
        None \<Rightarrow> True
      | Some a \<Rightarrow>
          message_type (start_line m) = MRCP_MESSAGE_TYPE_RESPONSE \<and> request_id (start_line m) = request_id (start_line a)
          \<longrightarrow> method_id (start_line m) = method_id (start_line a))"
| "verifier_allowed apr fo sm Deactivate \<longleftrightarrow> True"

definition verifier_good ::
  "'f mrcp_verifier_state_machine \<Rightarrow> (bool \<times> 'f mrcp_verifier_state_machine) option \<Rightarrow> bool"
where
  "verifier_good sm r \<longleftrightarrow> (\<exists>b sm'. r = Some (b, sm') \<and> verifier_invar sm' \<and> sm_effect sm sm')"

interpretation verifier_cause: cause_header "range (mrcp_verifier_header_vtable_get apr fo)" VERIFIER_HEADER_COMPLETION_CAUSE
  for apr fo
  by unfold_locales
    (auto simp: mrcp_verifier_header_vtable_get_def mrcp_verifier_header_generate_def VERIFIER_HEADER_COMPLETION_CAUSE_def)

lemma verifier_goodI: "r = Some (b, sm') \<Longrightarrow> verifier_invar sm' \<Longrightarrow> sm_effect sm sm' \<Longrightarrow> verifier_good sm r"
  by (auto simp: verifier_good_def)

lemma verifier_invar_core: "verifier_invar sm \<Longrightarrow> verifier_core sm"
  by (simp add: verifier_invar_def)

lemma verifier_effect_ext [simp]:
  "sm_effect sm0 (sm\<lparr>state := st\<rparr>) = sm_effect sm0 sm"
  "sm_effect sm0 (sm\<lparr>verify := r\<rparr>) = sm_effect sm0 sm"
  "sm_effect sm0 (sm\<lparr>properties := p\<rparr>) = sm_effect sm0 sm"
  "sm_effect sm0 (sm\<lparr>active_request := a\<rparr>) = sm_effect sm0 sm"
  "sm_effect sm0 (verifier_state_change st sm) = sm_effect sm0 sm"
  by (simp_all add: sm_effect_def verifier_state_change_def Let_def)

lemma verifier_core_ext [simp]:
  "verifier_core (sm\<lparr>properties := p\<rparr>) = verifier_core sm"
  "verifier_core (sm\<lparr>sm_log := l\<rparr>) = verifier_core sm"
  "verifier_core (sm\<lparr>active_request := a\<rparr>) = verifier_core sm"
  by (simp_all add: verifier_core_def)

lemma verifier_core_change [simp]:
  "verifier_core sm \<Longrightarrow> verifier_core (verifier_state_change VERIFIER_STATE_IDLE sm)"
  "verifier_core sm \<Longrightarrow> verifier_core (verifier_state_change VERIFIER_STATE_OPENED sm)"
  "verifier_core sm \<Longrightarrow> verify sm \<noteq> None \<Longrightarrow> verifier_core (verifier_state_change VERIFIER_STATE_VERIFYING sm)"
  "verifier_core sm \<Longrightarrow> verifier_core (sm\<lparr>verify := Some r\<rparr>)"
  by (simp_all add: verifier_core_def verifier_state_change_def)

lemma verifier_request_dispatch_good:
  assumes "verifier_core sm" "sm_effect sm0 sm" "message_type (start_line m) = MRCP_MESSAGE_TYPE_REQUEST"
    and "needs_verify m \<Longrightarrow> verify sm \<noteq> None"
  shows "verifier_good sm0 (verifier_request_dispatch sm m)"
proof -
  let ?sm = "sm\<lparr>active_request := Some m\<rparr>"
  obtain b where "call_on_dispatch m ?sm = Some (b, ?sm\<lparr>sm_log := sm_log ?sm @ [Dispatch m]\<rparr>)"
    using call_on_dispatch_Some [of ?sm m] assms(1) by (auto simp: verifier_core_def)
  moreover have "sm_effect sm0 (?sm\<lparr>sm_log := sm_log ?sm @ [Dispatch m]\<rparr>)"
    by (rule sm_effect_log) (use assms in simp_all)
  ultimately show ?thesis
    using assms by (intro verifier_goodI)
      (simp_all add: verifier_request_dispatch_def verifier_invar_def needs_verify_def)
qed

lemma verifier_response_dispatch_good:
  assumes "verifier_core sm" "sm_effect sm0 sm"
  shows "verifier_good sm0 (verifier_response_dispatch sm m)"
proof -
  let ?sm = "sm\<lparr>active_request := None\<rparr>"
  let ?sm' = "?sm\<lparr>sm_log := sm_log ?sm @ [if active sm then Dispatch m else Deactivated]\<rparr>"
  obtain b c where "call_on_dispatch m ?sm = Some (b, ?sm\<lparr>sm_log := sm_log ?sm @ [Dispatch m]\<rparr>)"
      "call_on_deactivate ?sm = Some (c, ?sm\<lparr>sm_log := sm_log ?sm @ [Deactivated]\<rparr>)"
    using call_on_dispatch_Some [of ?sm m] call_on_deactivate_Some [of ?sm] assms(1) by (auto simp: verifier_core_def)
  moreover have "sm_effect sm0 ?sm'"
    by (rule sm_effect_log) (use assms in simp_all)
  ultimately show ?thesis
    using assms by (intro verifier_goodI [where b = "if active sm then b else c" and sm' = ?sm'])
      (simp_all add: verifier_response_dispatch_def verifier_invar_def needs_verify_def Let_def)
qed

lemma verifier_event_dispatch_good:
  assumes "verifier_invar sm" "sm_effect sm0 sm"
  shows "verifier_good sm0 (verifier_event_dispatch sm m)"
proof (cases "active sm")
  case True
  obtain b where "call_on_dispatch m sm = Some (b, sm\<lparr>sm_log := sm_log sm @ [Dispatch m]\<rparr>)"
    using call_on_dispatch_Some [of sm m] assms(1) by (auto simp: verifier_core_def verifier_invar_def)
  moreover have "sm_effect sm0 (sm\<lparr>sm_log := sm_log sm @ [Dispatch m]\<rparr>)"
    by (rule sm_effect_log) (use assms True in simp_all)
  ultimately show ?thesis
    using assms True by (intro verifier_goodI)
      (simp_all add: verifier_event_dispatch_def verifier_invar_def split: option.split)
qed (use assms in \<open>auto simp: verifier_event_dispatch_def verifier_good_def\<close>)

section \<open>Every input keeps the invariant\<close>

lemma verifier_method_cases:
  fixes m :: "'f verifier_message"
  obtains "VERIFIER_METHOD_COUNT \<le> method_id (start_line m)" | "method_id (start_line m) = 0" | "method_id (start_line m) = 1"
    | "method_id (start_line m) = 2" | "method_id (start_line m) = 3" | "method_id (start_line m) = 4"
    | "method_id (start_line m) = 5" | "method_id (start_line m) = 6" | "method_id (start_line m) = 7"
    | "method_id (start_line m) = 8" | "method_id (start_line m) = 9" | "method_id (start_line m) = 10"
    | "method_id (start_line m) = 11" | "method_id (start_line m) = 12"
proof -
  have "method_id (start_line m) \<in> set [0..<13] \<or> VERIFIER_METHOD_COUNT \<le> method_id (start_line m)"
    by (auto simp: VERIFIER_METHOD_COUNT_def)
  then show thesis using that by (auto simp: upt_rec)
qed

lemma verifier_request_good:
  assumes "verifier_invar sm" "message_type (start_line m) = MRCP_MESSAGE_TYPE_REQUEST"
  shows "verifier_good sm (verifier_request_state_update apr sm m)"
proof -
  have core: "verifier_core sm" using assms(1) by (rule verifier_invar_core)
  moreover have "state sm = VERIFIER_STATE_VERIFYING \<Longrightarrow> verify sm \<noteq> None" using core by (simp add: verifier_core_def)
  moreover have "state sm = VERIFIER_STATE_IDLE \<or> state sm = VERIFIER_STATE_OPENED \<or> state sm = VERIFIER_STATE_VERIFYING"
    by (cases "state sm") simp_all
  ultimately show ?thesis
    by (cases rule: verifier_method_cases [of m])
      (use assms in \<open>auto simp: verifier_request_state_update_def VERIFIER_METHOD_COUNT_def method_lookup_def
        verifier_request_method_array_def verifier_request_set_params_def verifier_request_get_params_def
        verifier_request_start_session_def verifier_request_end_session_def verifier_request_query_voiceprint_def
        verifier_request_delete_voiceprint_def verifier_request_verify_def verifier_request_verify_from_buffer_def
        verifier_request_verify_rollback_def verifier_request_stop_def verifier_request_clear_buffer_def
        verifier_request_start_input_timers_def verifier_request_get_intermidiate_result_def
        needs_verify_def VERIFIER_STOP_def VERIFIER_VERIFY_def VERIFIER_VERIFY_FROM_BUFFER_def
        verifier_good_def [of sm "Some _"]
        intro!: verifier_request_dispatch_good verifier_response_dispatch_good\<close>)
qed

lemma verifier_response_good:
  assumes inv: "verifier_invar sm" and ok: "msg_ok apr vts m"
    and a: "active_request sm = Some a" and meth: "method_id (start_line m) = method_id (start_line a)"
  shows "verifier_good sm (verifier_response_state_update sm m)"
proof -
  have core: "verifier_core sm" using inv by (rule verifier_invar_core)
  have known: "verify sm \<noteq> None" if "method_id (start_line m) \<in> {6, 7, 9}"
    using inv a meth that by (auto simp: verifier_invar_def needs_verify_def VERIFIER_STOP_def VERIFIER_VERIFY_def
      VERIFIER_VERIFY_FROM_BUFFER_def)
  have stop: "verifier_good sm (verifier_response_stop sm m)" if st: "method_id (start_line m) = 9"
  proof -
    obtain r where r: "verify sm = Some r" using known st by auto
    obtain m1 where "active_id_append (request_id (start_line r)) m = Some m1"
      by (rule active_id_append_ok [OF ok])
    then show ?thesis
      using r core by (simp add: verifier_response_stop_def verifier_response_dispatch_good)
  qed
  show ?thesis
    by (cases rule: verifier_method_cases [of m])
      (use core inv a stop known in \<open>auto simp: verifier_response_state_update_def VERIFIER_METHOD_COUNT_def method_lookup_def
        verifier_response_method_array_def verifier_response_set_params_def verifier_response_get_params_def
        verifier_response_start_session_def verifier_response_end_session_def verifier_response_query_voiceprint_def
        verifier_response_delete_voiceprint_def verifier_response_verify_def verifier_response_verify_from_buffer_def
        verifier_response_verify_rollback_def verifier_response_clear_buffer_def verifier_response_start_input_timers_def
        verifier_response_get_intermidiate_result_def verifier_good_def [of sm "Some _"]
        intro!: verifier_response_dispatch_good\<close>)
qed

lemma verifier_event_good:
  assumes inv: "verifier_invar sm" and ok: "msg_ok apr (range (mrcp_verifier_header_vtable_get apr fo)) m"
  shows "verifier_good sm (verifier_event_state_update sm m)"
proof -
  obtain m1 where m1: "verifier_cause_ensure m = Some m1"
    unfolding verifier_cause_ensure_def by (rule verifier_cause.cause_ensure_ok [OF ok])
  have complete: "verifier_good sm (verifier_event_verification_complete sm m)"
  proof (cases "verify sm = None \<or> request_id (start_line (the (verify sm))) \<noteq> request_id (start_line m) \<or>
      verifier_stop_outstanding sm")
    case True
    then show ?thesis using inv by (auto simp: verifier_event_verification_complete_def verifier_good_def split: option.split)
  next
    case False
    have "verifier_invar (verifier_state_change VERIFIER_STATE_OPENED sm)"
      using False inv by (auto simp: verifier_invar_def verifier_core_def verifier_state_change_def split: option.splits)
    then show ?thesis
      using False m1 by (auto simp: verifier_event_verification_complete_def intro!: verifier_event_dispatch_good)
  qed
  consider "VERIFIER_EVENT_COUNT \<le> method_id (start_line m)" | "method_id (start_line m) = 0" | "method_id (start_line m) = 1"
    by (fastforce simp: VERIFIER_EVENT_COUNT_def)
  then show ?thesis
    using inv complete by cases (auto simp: verifier_event_state_update_def VERIFIER_EVENT_COUNT_def method_lookup_def
      verifier_event_method_array_def verifier_event_start_of_input_def
      verifier_good_def [of sm "Some _"] split: option.split intro!: verifier_event_dispatch_good)
qed

lemma verifier_step_good:
  assumes inv: "verifier_invar sm" and al: "verifier_allowed apr fo sm i"
  shows "verifier_good (case i of Update m \<Rightarrow> sm | Deactivate \<Rightarrow> sm\<lparr>active := False\<rparr>) (verifier_step apr sm i)"
proof (cases i)
  case (Update m)
  have "verifier_good sm (verifier_response_state_update sm m)" if "message_type (start_line m) = MRCP_MESSAGE_TYPE_RESPONSE"
  proof (cases "active_request sm")
    case (Some a)
    show ?thesis
    proof (cases "request_id (start_line m) = request_id (start_line a)")
      case True
      then show ?thesis
        using verifier_response_good [of sm apr "range (mrcp_verifier_header_vtable_get apr fo)" m a] inv al Some that Update
        by simp
    next
      case False
      then show ?thesis using Some inv by (auto simp: verifier_response_state_update_def verifier_good_def)
    qed
  qed (use inv in \<open>auto simp: verifier_response_state_update_def verifier_good_def\<close>)
  then show ?thesis
    using Update al verifier_request_good [OF inv] verifier_event_good [OF inv, of apr fo m] inv
    by (cases "message_type (start_line m)")
      (auto simp: mrcp_state_machine_update_def verifier_state_update_def verifier_good_def [of sm "Some _"])
next
  case Deactivate
  have "verifier_invar (sm\<lparr>active := False\<rparr>)"
    using inv by (simp add: verifier_invar_def verifier_core_def split: option.split)
  then show ?thesis
    using Deactivate by (auto simp: mrcp_state_machine_deactivate_def verifier_state_deactivate_def
      verifier_good_def [of _ "Some _"] verifier_invar_core split: option.split intro!: verifier_request_dispatch_good)
qed

interpretation verifier_sm: state_machine "verifier_step apr" "verifier_allowed apr fo" verifier_invar
  for apr :: apr_fmt and fo :: "'f float_ops"
  by unfold_locales (use verifier_step_good in \<open>fastforce simp: verifier_good_def\<close>)

section \<open>Properties\<close>

text \<open>The machine as a server session starts it, and messages of a session for the witnesses.\<close>

definition verifier_start ::
  "apr_fmt \<Rightarrow> 'f float_ops \<Rightarrow> mrcp_version_e \<Rightarrow> ('f verifier_message \<Rightarrow> bool) \<Rightarrow> bool \<Rightarrow> 'f mrcp_verifier_state_machine"
where
  "verifier_start apr fo v f b =
     (mrcp_verifier_state_machine_create apr fo v)\<lparr>on_dispatch := Some f, on_deactivate := Some b\<rparr>"

lemma verifier_start_invar: "verifier_invar (verifier_start apr fo v f b)"
  by (simp add: verifier_start_def mrcp_verifier_state_machine_create_def mrcp_state_machine_init_def verifier_invar_def verifier_core_def
    mrcp_state_machine.defs mrcp_verifier_state_machine.defs)

definition verifier_msg :: "mrcp_message_type_e \<Rightarrow> nat \<Rightarrow> mrcp_request_id \<Rightarrow> nat \<Rightarrow> unit verifier_message" where
  "verifier_msg t k rid code =
     (let m = mrcp_request_create apr_std (Some (mrcp_verifier_resource_create apr_std float_unit)) MRCP_VERSION_2 k
      in m\<lparr>start_line := (start_line m)\<lparr>message_type := t, request_id := rid, request_state := MRCP_REQUEST_STATE_COMPLETE,
             status_code := code\<rparr>\<rparr>)"

lemma verifier_msg_facts [simp]:
  "msg_ok apr_std (range (mrcp_verifier_header_vtable_get apr_std float_unit)) (verifier_msg t k rid code)"
  "message_type (start_line (verifier_msg t k rid code)) = t"
  "method_id (start_line (verifier_msg t k rid code)) = k"
  "request_id (start_line (verifier_msg t k rid code)) = rid"
  "status_code (start_line (verifier_msg t k rid code)) = code"
proof -
  let ?m = "mrcp_request_create apr_std (Some (mrcp_verifier_resource_create apr_std float_unit)) MRCP_VERSION_2 k"
  have "msg_ok apr_std (range (mrcp_verifier_header_vtable_get apr_std float_unit)) ?m"
    by (rule request_create_ok) (simp add: mrcp_verifier_resource_create_def)
  then show "msg_ok apr_std (range (mrcp_verifier_header_vtable_get apr_std float_unit)) (verifier_msg t k rid code)"
    by (simp add: verifier_msg_def Let_def)
qed (auto simp: verifier_msg_def mrcp_request_create_def mrcp_message_resource_set_by_id_def Let_def split: option.split)

text \<open>
  C18: a verifier state machine never follows a NULL pointer. From its start, whatever messages for the verifier it is
  given and whenever it is deactivated, the next input is processed without a fault, provided that a response carries the
  method of the request it answers.
\<close>

theorem verifier_no_fault:
  assumes "sm_reachable (verifier_step apr) (verifier_allowed apr fo) (verifier_start apr fo v f b) sm"
    and "verifier_allowed apr fo sm i"
  shows "verifier_step apr sm i \<noteq> None"
  by (rule verifier_sm.no_fault [OF assms(1) verifier_start_invar assms(2)])

theorem verifier_no_fault_witness:
  "verifier_step apr_std (verifier_start apr_std float_unit MRCP_VERSION_2 (\<lambda>_. True) True)
     (Update (verifier_msg MRCP_MESSAGE_TYPE_REQUEST VERIFIER_VERIFY 1 0)) \<noteq> None"
  by (rule verifier_no_fault [OF sm_reachable.start [of _ _ "verifier_start apr_std float_unit MRCP_VERSION_2 (\<lambda>_. True) True"]])
    (simp add: verifier_start_def mrcp_verifier_state_machine_create_def mrcp_state_machine_init_def
      mrcp_state_machine.defs mrcp_verifier_state_machine.defs)

text \<open>
  C36: a VERIFY request that fails leaves the machine verifying. The response of the engine to VERIFY makes the machine
  enter the state VERIFYING whatever its status code and request state are.
\<close>

theorem verifier_failed_verify:
  assumes "verifier_invar sm" "active sm" "active_request sm = Some a" "request_id (start_line m) = request_id (start_line a)"
    and "message_type (start_line m) = MRCP_MESSAGE_TYPE_RESPONSE" "method_id (start_line m) = VERIFIER_VERIFY"
  shows "\<exists>b sm'. verifier_step apr sm (Update m) = Some (b, sm') \<and> sm_log sm' = sm_log sm @ [Dispatch m] \<and>
    state sm' = VERIFIER_STATE_VERIFYING"
proof -
  obtain f where "on_dispatch sm = Some f" using assms(1) by (auto simp: verifier_invar_def verifier_core_def)
  then show ?thesis
    using assms by (simp add: mrcp_state_machine_update_def verifier_state_update_def verifier_response_state_update_def
      VERIFIER_METHOD_COUNT_def VERIFIER_VERIFY_def method_lookup_def verifier_response_method_array_def
      verifier_response_verify_def verifier_state_change_def verifier_response_dispatch_def call_on_dispatch_def)
qed

text \<open>A machine in a given state, with a VERIFY request known.\<close>

definition verifier_in :: "mrcp_verifier_state_e \<Rightarrow> unit verifier_message option \<Rightarrow> unit mrcp_verifier_state_machine" where
  "verifier_in st a =
     (verifier_start apr_std float_unit MRCP_VERSION_2 (\<lambda>_. True) True)
       \<lparr>state := st, verify := Some (verifier_msg MRCP_MESSAGE_TYPE_REQUEST VERIFIER_VERIFY 1 0), active_request := a\<rparr>"

lemma verifier_in_facts [simp]:
  "verifier_invar (verifier_in st a)" "active (verifier_in st a)" "state (verifier_in st a) = st"
  "active_request (verifier_in st a) = a" "sm_log (verifier_in st a) = []"
  by (simp_all add: verifier_in_def verifier_start_def mrcp_verifier_state_machine_create_def mrcp_state_machine_init_def
    verifier_invar_def verifier_core_def mrcp_state_machine.defs mrcp_verifier_state_machine.defs)

theorem verifier_failed_verify_witness:
  "\<exists>b sm'. verifier_step apr_std
      (verifier_in VERIFIER_STATE_OPENED (Some (verifier_msg MRCP_MESSAGE_TYPE_REQUEST VERIFIER_VERIFY 1 0)))
      (Update (verifier_msg MRCP_MESSAGE_TYPE_RESPONSE VERIFIER_VERIFY 1 MRCP_STATUS_CODE_METHOD_FAILED)) = Some (b, sm') \<and>
    state sm' = VERIFIER_STATE_VERIFYING"
  using verifier_failed_verify [of
      "verifier_in VERIFIER_STATE_OPENED (Some (verifier_msg MRCP_MESSAGE_TYPE_REQUEST VERIFIER_VERIFY 1 0))"
      "verifier_msg MRCP_MESSAGE_TYPE_REQUEST VERIFIER_VERIFY 1 0"
      "verifier_msg MRCP_MESSAGE_TYPE_RESPONSE VERIFIER_VERIFY 1 MRCP_STATUS_CODE_METHOD_FAILED" apr_std]
  by (auto simp del: verifier_step.simps)

text \<open>
  C39: the input timers of a verification in progress cannot be started. A START-INPUT-TIMERS request is answered with
  "method not valid in this state" while the machine is verifying, and is sent to the engine when a session is open and
  nothing is being verified.
\<close>

theorem verifier_timers_rejected:
  assumes "verifier_invar sm" "active sm"
    and "message_type (start_line m) = MRCP_MESSAGE_TYPE_REQUEST" "method_id (start_line m) = VERIFIER_START_INPUT_TIMERS"
  shows "\<exists>b m' sm'. verifier_step apr sm (Update m) = Some (b, sm') \<and> sm_log sm' = sm_log sm @ [Dispatch m'] \<and>
    (state sm = VERIFIER_STATE_VERIFYING \<longrightarrow> status_code (start_line m') = MRCP_STATUS_CODE_METHOD_NOT_VALID) \<and>
    (state sm = VERIFIER_STATE_OPENED \<longrightarrow> m' = m)"
proof -
  obtain f where "on_dispatch sm = Some f" using assms(1) by (auto simp: verifier_invar_def verifier_core_def)
  then show ?thesis
    using assms by (simp add: mrcp_state_machine_update_def verifier_state_update_def verifier_request_state_update_def
      VERIFIER_METHOD_COUNT_def VERIFIER_START_INPUT_TIMERS_def method_lookup_def verifier_request_method_array_def
      verifier_request_start_input_timers_def verifier_response_dispatch_def verifier_request_dispatch_def
      call_on_dispatch_def method_not_valid_response_def Let_def)
qed

theorem verifier_timers_rejected_witness:
  "\<exists>b m' sm'. verifier_step apr_std (verifier_in VERIFIER_STATE_VERIFYING None)
      (Update (verifier_msg MRCP_MESSAGE_TYPE_REQUEST VERIFIER_START_INPUT_TIMERS 2 0)) = Some (b, sm') \<and>
    sm_log sm' = [Dispatch m'] \<and> status_code (start_line m') = MRCP_STATUS_CODE_METHOD_NOT_VALID"
  using verifier_timers_rejected [of "verifier_in VERIFIER_STATE_VERIFYING None"
      "verifier_msg MRCP_MESSAGE_TYPE_REQUEST VERIFIER_START_INPUT_TIMERS 2 0" apr_std]
  by (auto simp del: verifier_step.simps)

end
