(* ===== verification/Mrcp_Recorder_Resource.thy ===== *)
theory Mrcp_Recorder_Resource
  imports Mrcp_Header_Wire
begin

text \<open>
  The recorder resource: \<open>mrcp_recorder_header.c\<close>, \<open>mrcp_recorder_header.h\<close> and \<open>mrcp_recorder_resource.c\<close> of
  \<open>libs/mrcp/resources\<close>.
\<close>

section \<open>Identifiers\<close>

text \<open>The identifiers of the header fields, methods and events are their positions in the enumerations.\<close>

definition RECORDER_HEADER_COMPLETION_CAUSE :: nat where "RECORDER_HEADER_COMPLETION_CAUSE = 2"
definition RECORDER_HEADER_COUNT :: nat where "RECORDER_HEADER_COUNT = 15"

definition RECORDER_COMPLETION_CAUSE_SUCCESS_SILENCE :: nat where "RECORDER_COMPLETION_CAUSE_SUCCESS_SILENCE = 0"
definition RECORDER_COMPLETION_CAUSE_COUNT :: nat where "RECORDER_COMPLETION_CAUSE_COUNT = 5"

definition RECORDER_SET_PARAMS :: nat where "RECORDER_SET_PARAMS = 0"
definition RECORDER_GET_PARAMS :: nat where "RECORDER_GET_PARAMS = 1"
definition RECORDER_RECORD :: nat where "RECORDER_RECORD = 2"
definition RECORDER_STOP :: nat where "RECORDER_STOP = 3"
definition RECORDER_START_INPUT_TIMERS :: nat where "RECORDER_START_INPUT_TIMERS = 4"
definition RECORDER_METHOD_COUNT :: nat where "RECORDER_METHOD_COUNT = 5"

definition RECORDER_START_OF_INPUT :: nat where "RECORDER_START_OF_INPUT = 0"
definition RECORDER_RECORD_COMPLETE :: nat where "RECORDER_RECORD_COMPLETE = 1"
definition RECORDER_EVENT_COUNT :: nat where "RECORDER_EVENT_COUNT = 2"

section \<open>String tables\<close>

definition recorder_header_string_table :: "apt_str_table_item list" where
  "recorder_header_string_table =
     [\<lparr>item_value = ''Sensitivity-Level'', item_key = 3\<rparr>, \<lparr>item_value = ''No-Input-Timeout'', item_key = 2\<rparr>,
      \<lparr>item_value = ''Completion-Cause'', item_key = 16\<rparr>, \<lparr>item_value = ''Completion-Reason'', item_key = 11\<rparr>,
      \<lparr>item_value = ''Failed-Uri'', item_key = 10\<rparr>, \<lparr>item_value = ''Failed-Uri-Cause'', item_key = 16\<rparr>,
      \<lparr>item_value = ''Record-Uri'', item_key = 0\<rparr>, \<lparr>item_value = ''Media-Type'', item_key = 2\<rparr>,
      \<lparr>item_value = ''Max-Time'', item_key = 2\<rparr>, \<lparr>item_value = ''Trim-Length'', item_key = 0\<rparr>,
      \<lparr>item_value = ''Final-Silence'', item_key = 1\<rparr>, \<lparr>item_value = ''Capture-On-Speech'', item_key = 2\<rparr>,
      \<lparr>item_value = ''Ver-Buffer-Utterance'', item_key = 0\<rparr>, \<lparr>item_value = ''Start-Input-Timers'', item_key = 1\<rparr>,
      \<lparr>item_value = ''New-Audio-Channel'', item_key = 2\<rparr>]"

definition recorder_completion_cause_string_table :: "apt_str_table_item list" where
  "recorder_completion_cause_string_table =
     [\<lparr>item_value = ''success-silence'', item_key = 8\<rparr>, \<lparr>item_value = ''success-maxtime'', item_key = 8\<rparr>,
      \<lparr>item_value = ''no-input-timeout'', item_key = 0\<rparr>, \<lparr>item_value = ''uri-failure'', item_key = 0\<rparr>,
      \<lparr>item_value = ''error'', item_key = 0\<rparr>]"

definition recorder_method_string_table :: "apt_str_table_item list" where
  "recorder_method_string_table =
     [\<lparr>item_value = ''SET-PARAMS'', item_key = 10\<rparr>, \<lparr>item_value = ''GET-PARAMS'', item_key = 0\<rparr>,
      \<lparr>item_value = ''RECORD'', item_key = 0\<rparr>, \<lparr>item_value = ''STOP'', item_key = 2\<rparr>,
      \<lparr>item_value = ''START-INPUT-TIMERS'', item_key = 2\<rparr>]"

definition recorder_event_string_table :: "apt_str_table_item list" where
  "recorder_event_string_table =
     [\<lparr>item_value = ''START-OF-INPUT'', item_key = 0\<rparr>, \<lparr>item_value = ''RECORD-COMPLETE'', item_key = 0\<rparr>]"

section \<open>The header\<close>

record 'f mrcp_recorder_header =
  sensitivity_level :: "'f"
  no_input_timeout :: nat
  completion_cause :: nat
  completion_reason :: apt_str
  failed_uri :: apt_str
  failed_uri_cause :: apt_str
  record_uri :: apt_str
  media_type :: apt_str
  max_time :: nat
  trim_length :: nat
  final_silence :: nat
  capture_on_speech :: bool
  ver_buffer_utterance :: bool
  start_input_timers :: bool
  new_audio_channel :: bool

definition mrcp_recorder_header_init :: "'f float_ops \<Rightarrow> 'f mrcp_recorder_header" where
  "mrcp_recorder_header_init fo =
     \<lparr>sensitivity_level = flt_zero fo,
      no_input_timeout = 0,
      completion_cause = RECORDER_COMPLETION_CAUSE_COUNT,
      completion_reason = [],
      failed_uri = [],
      failed_uri_cause = [],
      record_uri = [],
      media_type = [],
      max_time = 0,
      trim_length = 0,
      final_silence = 0,
      capture_on_speech = False,
      ver_buffer_utterance = False,
      start_input_timers = False,
      new_audio_channel = False\<rparr>"

definition mrcp_recorder_header_parse :: "'f float_ops \<Rightarrow> 'f mrcp_recorder_header \<Rightarrow> nat \<Rightarrow> apt_str \<Rightarrow> bool \<times> 'f mrcp_recorder_header" where
  "mrcp_recorder_header_parse fo d k val =
     (if k = 0 then (True, d\<lparr>sensitivity_level := apt_float_value_parse fo val\<rparr>)
      else if k = 1 then (True, d\<lparr>no_input_timeout := apt_size_value_parse val\<rparr>)
      else if k = 2 then (True, d\<lparr>completion_cause := enum_of_size (apt_size_value_parse val)\<rparr>)
      else if k = 3 then (True, d\<lparr>completion_reason := val\<rparr>)
      else if k = 4 then (True, d\<lparr>failed_uri := val\<rparr>)
      else if k = 5 then (True, d\<lparr>failed_uri_cause := val\<rparr>)
      else if k = 6 then (True, d\<lparr>record_uri := val\<rparr>)
      else if k = 7 then (True, d\<lparr>media_type := val\<rparr>)
      else if k = 8 then (True, d\<lparr>max_time := apt_size_value_parse val\<rparr>)
      else if k = 9 then (True, d\<lparr>trim_length := apt_size_value_parse val\<rparr>)
      else if k = 10 then (True, d\<lparr>final_silence := apt_size_value_parse val\<rparr>)
      else if k = 11 then (True, d\<lparr>capture_on_speech := boolean_value_read val (capture_on_speech d)\<rparr>)
      else if k = 12 then (True, d\<lparr>ver_buffer_utterance := boolean_value_read val (ver_buffer_utterance d)\<rparr>)
      else if k = 13 then (True, d\<lparr>start_input_timers := boolean_value_read val (start_input_timers d)\<rparr>)
      else if k = 14 then (True, d\<lparr>new_audio_channel := boolean_value_read val (new_audio_channel d)\<rparr>)
      else (False, d))"

definition mrcp_recorder_header_generate :: "apr_fmt \<Rightarrow> 'f float_ops \<Rightarrow> 'f mrcp_recorder_header \<Rightarrow> nat \<Rightarrow> (bool \<times> apt_str) option" where
  "mrcp_recorder_header_generate apr fo d k =
     (if k = 0 then Some (True, apt_float_value_generate fo (sensitivity_level d))
      else if k = 1 then Some (True, apt_size_value_generate apr (no_input_timeout d))
      else if k = 2 then Some (True, case apt_completion_cause_generate recorder_completion_cause_string_table RECORDER_COMPLETION_CAUSE_COUNT (completion_cause d) of
          None \<Rightarrow> [] | Some v \<Rightarrow> v)
      else if k = 3 then Some (True, completion_reason d)
      else if k = 4 then Some (True, failed_uri d)
      else if k = 5 then Some (True, failed_uri_cause d)
      else if k = 6 then Some (True, record_uri d)
      else if k = 7 then Some (True, media_type d)
      else if k = 8 then Some (True, apt_size_value_generate apr (max_time d))
      else if k = 9 then Some (True, apt_size_value_generate apr (trim_length d))
      else if k = 10 then Some (True, apt_size_value_generate apr (final_silence d))
      else if k = 11 then Some (True, apt_boolean_value_generate (capture_on_speech d))
      else if k = 12 then Some (True, apt_boolean_value_generate (ver_buffer_utterance d))
      else if k = 13 then Some (True, apt_boolean_value_generate (start_input_timers d))
      else if k = 14 then Some (True, apt_boolean_value_generate (new_audio_channel d))
      else Some (True, []))"

definition mrcp_recorder_header_duplicate ::
  "'f mrcp_recorder_header option \<Rightarrow> 'f mrcp_recorder_header option \<Rightarrow> nat \<Rightarrow> apt_str \<Rightarrow> bool \<times> 'f mrcp_recorder_header option"
where
  "mrcp_recorder_header_duplicate dst source k val =
     (case (dst, source) of
        (Some d, Some src) \<Rightarrow>
     (if k = 0 then (True, Some (d\<lparr>sensitivity_level := sensitivity_level src\<rparr>))
      else if k = 1 then (True, Some (d\<lparr>no_input_timeout := no_input_timeout src\<rparr>))
      else if k = 2 then (True, Some (d\<lparr>completion_cause := completion_cause src\<rparr>))
      else if k = 3 then (True, Some (d\<lparr>completion_reason := val\<rparr>))
      else if k = 4 then (True, Some (d\<lparr>failed_uri := val\<rparr>))
      else if k = 5 then (True, Some (d\<lparr>failed_uri_cause := val\<rparr>))
      else if k = 6 then (True, Some (d\<lparr>record_uri := val\<rparr>))
      else if k = 7 then (True, Some (d\<lparr>media_type := val\<rparr>))
      else if k = 8 then (True, Some (d\<lparr>max_time := max_time src\<rparr>))
      else if k = 9 then (True, Some (d\<lparr>trim_length := trim_length src\<rparr>))
      else if k = 10 then (True, Some (d\<lparr>final_silence := final_silence src\<rparr>))
      else if k = 11 then (True, Some (d\<lparr>capture_on_speech := capture_on_speech src\<rparr>))
      else if k = 12 then (True, Some (d\<lparr>ver_buffer_utterance := ver_buffer_utterance src\<rparr>))
      else if k = 13 then (True, Some (d\<lparr>start_input_timers := start_input_timers src\<rparr>))
      else if k = 14 then (True, Some (d\<lparr>new_audio_channel := new_audio_channel src\<rparr>))
      else (False, Some d))
      | _ \<Rightarrow> (False, dst))"

definition mrcp_recorder_header_vtable_get ::
  "apr_fmt \<Rightarrow> 'f float_ops \<Rightarrow> mrcp_version_e \<Rightarrow> 'f mrcp_recorder_header mrcp_header_vtable"
where
  "mrcp_recorder_header_vtable_get apr fo v =
     \<lparr>allocate = Some (mrcp_recorder_header_init fo), parse_field = mrcp_recorder_header_parse fo,
      generate_field = mrcp_recorder_header_generate apr fo, duplicate_field = mrcp_recorder_header_duplicate,
      field_table = recorder_header_string_table, field_count = RECORDER_HEADER_COUNT\<rparr>"

definition mrcp_recorder_completion_cause_get :: "nat \<Rightarrow> mrcp_version_e \<Rightarrow> apt_str option" where
  "mrcp_recorder_completion_cause_get cause v =
     apt_string_table_str_get recorder_completion_cause_string_table RECORDER_COMPLETION_CAUSE_COUNT cause"

section \<open>The resource\<close>

definition mrcp_recorder_resource_create :: "apr_fmt \<Rightarrow> 'f float_ops \<Rightarrow> 'f mrcp_recorder_header mrcp_resource" where
  "mrcp_recorder_resource_create apr fo =
     \<lparr>res_id = 0, res_name = [], method_count = RECORDER_METHOD_COUNT, event_count = RECORDER_EVENT_COUNT,
      get_method_str_table = (\<lambda>_. recorder_method_string_table),
      get_event_str_table = (\<lambda>_. recorder_event_string_table),
      get_resource_header_vtable = (\<lambda>v. Some (mrcp_recorder_header_vtable_get apr fo v))\<rparr>"

section \<open>Fields on the wire\<close>

text \<open>The fields that survive: not the floating point numbers, and sizes that fit into a signed 64-bit integer.\<close>

definition recorder_wire_ok :: "apr_fmt \<Rightarrow> 'f mrcp_recorder_header \<Rightarrow> nat \<Rightarrow> bool" where
  "recorder_wire_ok apr d k \<longleftrightarrow>
     apr_fmt_ok apr \<and> k \<notin> {0} \<and> (k = 1 \<longrightarrow> no_input_timeout d < 2 ^ 63) \<and>
     (k = 8 \<longrightarrow> max_time d < 2 ^ 63) \<and> (k = 9 \<longrightarrow> trim_length d < 2 ^ 63) \<and>
     (k = 10 \<longrightarrow> final_silence d < 2 ^ 63)"

lemma recorder_names: "table_names_distinct recorder_header_string_table RECORDER_HEADER_COUNT"
  by code_simp

lemma recorder_wire:
  assumes "k < RECORDER_HEADER_COUNT" "recorder_wire_ok apr s k" "val \<noteq> []"
    and "Some (True, val) = generate_field (mrcp_recorder_header_vtable_get apr fo v) s k"
  shows "\<exists>d'. parse_field (mrcp_recorder_header_vtable_get apr fo v) d k val = (True, d') \<and>
    duplicate_field (mrcp_recorder_header_vtable_get apr fo v) (Some d) (Some s) k val = (True, Some d')"
proof -
  have "k < 15" using assms(1) by (simp add: RECORDER_HEADER_COUNT_def)
  then show ?thesis
    using assms(2-) unfolding numeral_cases
    by - (elim disjE less_zeroE; hypsubst_thin; simp add: recorder_wire_ok_def mrcp_recorder_header_vtable_get_def mrcp_recorder_header_parse_def
      mrcp_recorder_header_generate_def mrcp_recorder_header_duplicate_def RECORDER_HEADER_COUNT_def
      RECORDER_COMPLETION_CAUSE_COUNT_def wire_simps)
qed

interpretation recorder_fields: header_contract "mrcp_recorder_header_vtable_get apr fo v" "recorder_wire_ok apr"
  for apr fo v
proof (unfold_locales, goal_cases)
  case 1
  show ?case using recorder_names by (simp add: mrcp_recorder_header_vtable_get_def)
next
  case (2 k s val d)
  then show ?case by (intro recorder_wire) (simp_all add: mrcp_recorder_header_vtable_get_def)
qed

lemma recorder_apart: "table_without recorder_header_string_table generic_header_string_table"
  by code_simp

interpretation recorder_message: message_contract "mrcp_recorder_header_vtable_get apr fo v" "recorder_wire_ok apr"
  for apr fo v
  using recorder_apart by unfold_locales (simp add: mrcp_recorder_header_vtable_get_def)


text \<open>A header with two fields of the recorder and one of the generic header.\<close>

definition recorder_example :: "unit mrcp_recorder_header mrcp_message_header" where
  "recorder_example =
     \<lparr>generic_header_accessor =
        \<lparr>acc_data = Some (mrcp_generic_header_init\<lparr>content_type := ''text/plain''\<rparr>),
         acc_vtable = Some (mrcp_generic_header_vtable_get apr_std)\<rparr>,
      resource_header_accessor =
        \<lparr>acc_data = Some ((mrcp_recorder_header_init float_unit)\<lparr>max_time := 30, record_uri := ''sip:x''\<rparr>),
         acc_vtable = Some (mrcp_recorder_header_vtable_get apr_std float_unit MRCP_VERSION_2)\<rparr>,
      header_section =
        \<lparr>hs_ring =
           [(0, \<lparr>hf_name = ''Max-Time'', hf_value = ''30'', hf_id = 24\<rparr>), (1, \<lparr>hf_name = ''Record-Uri'', hf_value = ''sip:x'', hf_id = 22\<rparr>),
            (2, \<lparr>hf_name = ''Content-Type'', hf_value = ''text/plain'', hf_id = 3\<rparr>)],
         hs_arr = []\<rparr>\<rparr>"

lemma recorder_example_digits: "dec 30 = ''30''"
  by code_simp

lemma recorder_example_generate:
  "mrcp_header_field_value_generate (resource_header_accessor recorder_example) 8 False =
     Some (Some \<lparr>hf_name = ''Max-Time'', hf_value = ''30'', hf_id = UNKNOWN_HEADER_FIELD_ID\<rparr>)"
  "mrcp_header_field_value_generate (resource_header_accessor recorder_example) 6 False =
     Some (Some \<lparr>hf_name = ''Record-Uri'', hf_value = ''sip:x'', hf_id = UNKNOWN_HEADER_FIELD_ID\<rparr>)"
  "mrcp_header_field_value_generate (generic_header_accessor recorder_example) 3 False =
     Some (Some \<lparr>hf_name = ''Content-Type'', hf_value = ''text/plain'', hf_id = UNKNOWN_HEADER_FIELD_ID\<rparr>)"
  by (simp_all add: mrcp_header_field_value_generate_def recorder_example_def mrcp_recorder_header_vtable_get_def mrcp_recorder_header_generate_def recorder_header_string_table_def RECORDER_HEADER_COUNT_def
    mrcp_generic_header_vtable_get_def mrcp_generic_header_generate_def generic_header_string_table_def
    GENERIC_HEADER_COUNT_def apt_string_table_str_get_def apt_header_field_alloc_def apt_boolean_value_generate_def
    apt_size_value_generate_def apr_std_def recorder_example_digits)

lemma recorder_example_sent:
  "header_sent apr_std (mrcp_recorder_header_vtable_get apr_std float_unit MRCP_VERSION_2) (recorder_wire_ok apr_std) recorder_example"
proof -
  let ?n = "field_count (mrcp_recorder_header_vtable_get apr_std float_unit MRCP_VERSION_2)"
  have "header_ready apr_std (mrcp_recorder_header_vtable_get apr_std float_unit MRCP_VERSION_2) recorder_example"
    by (simp add: header_ready_def recorder_example_def)
  moreover have "resource_sent ?n (recorder_wire_ok apr_std) recorder_example
      \<lparr>hf_name = ''Max-Time'', hf_value = ''30'', hf_id = 24\<rparr>"
    unfolding resource_sent_def
    by (rule exI [of _ 8]) (simp add: recorder_example_generate apr_std_ok recorder_wire_ok_def
      mrcp_recorder_header_vtable_get_def RECORDER_HEADER_COUNT_def GENERIC_HEADER_COUNT_def, simp add: recorder_example_def)
  moreover have "resource_sent ?n (recorder_wire_ok apr_std) recorder_example
      \<lparr>hf_name = ''Record-Uri'', hf_value = ''sip:x'', hf_id = 22\<rparr>"
    unfolding resource_sent_def
    by (rule exI [of _ 6]) (simp add: recorder_example_generate apr_std_ok recorder_wire_ok_def
      mrcp_recorder_header_vtable_get_def RECORDER_HEADER_COUNT_def GENERIC_HEADER_COUNT_def, simp add: recorder_example_def)
  moreover have "generic_sent apr_std recorder_example \<lparr>hf_name = ''Content-Type'', hf_value = ''text/plain'', hf_id = 3\<rparr>"
    unfolding generic_sent_def
    by (simp add: recorder_example_generate apr_std_ok generic_wire_ok_def GENERIC_HEADER_COUNT_def) (simp add: recorder_example_def)
  moreover have "list_all (\<lambda>f. field_ok (snd f)) (hs_ring (header_section recorder_example))" by code_simp
  ultimately show ?thesis by (auto simp: header_sent_def recorder_example_def)
qed


end
