(* ===== verification/Mrcp_Recorder_State_Machine.thy ===== *)
theory Mrcp_Recorder_State_Machine
  imports Mrcp_State_Machine Mrcp_Recorder_Resource
begin

text \<open>
  The state machine of the recorder: \<open>libs/mrcp-engine/src/mrcp_recorder_state_machine.c\<close>.
\<close>

section \<open>The machine\<close>

datatype mrcp_recorder_state_e = RECORDER_STATE_IDLE | RECORDER_STATE_RECORDING

type_synonym 'f recorder_message = "'f mrcp_recorder_header mrcp_message"

record 'f mrcp_recorder_state_machine = "'f mrcp_recorder_header mrcp_message mrcp_state_machine" +
  state :: mrcp_recorder_state_e
  active_request :: "'f recorder_message option"
  record_request :: "'f recorder_message option"
  properties :: "'f mrcp_recorder_header mrcp_message_header"

type_synonym 'f recorder_method =
  "'f mrcp_recorder_state_machine \<Rightarrow> 'f recorder_message \<Rightarrow> (bool \<times> 'f mrcp_recorder_state_machine) option"

definition recorder_request_dispatch :: "'f recorder_method" where
  "recorder_request_dispatch sm m = call_on_dispatch m (sm\<lparr>active_request := Some m\<rparr>)"

definition recorder_response_dispatch :: "'f recorder_method" where
  "recorder_response_dispatch sm m =
     (let sm = sm\<lparr>active_request := None\<rparr>
      in if \<not> active sm then call_on_deactivate sm else call_on_dispatch m sm)"

definition recorder_event_dispatch :: "'f recorder_method" where
  "recorder_event_dispatch sm m = (if \<not> active sm then Some (False, sm) else call_on_dispatch m sm)"

definition recorder_state_change ::
  "mrcp_recorder_state_e \<Rightarrow> 'f mrcp_recorder_state_machine \<Rightarrow> 'f mrcp_recorder_state_machine"
where
  "recorder_state_change st sm =
     (let sm = sm\<lparr>state := st\<rparr> in if st = RECORDER_STATE_IDLE then sm\<lparr>record_request := None\<rparr> else sm)"

section \<open>Requests, responses and events\<close>

definition recorder_request_set_params :: "'f recorder_method" where
  "recorder_request_set_params sm m =
     recorder_request_dispatch (sm\<lparr>properties := snd (mrcp_header_fields_set (properties sm) (header m))\<rparr>) m"

definition recorder_response_set_params :: "'f recorder_method" where
  "recorder_response_set_params sm m = recorder_response_dispatch sm m"

definition recorder_request_get_params :: "'f recorder_method" where
  "recorder_request_get_params sm m = recorder_request_dispatch sm m"

definition recorder_response_get_params :: "'f recorder_method" where
  "recorder_response_get_params sm m = do {
     req \<leftarrow> active_request sm;
     recorder_response_dispatch sm (m\<lparr>header := snd (mrcp_header_fields_get (header m) (properties sm) (header req))\<rparr>)
   }"

definition recorder_request_record :: "apr_fmt \<Rightarrow> 'f recorder_method" where
  "recorder_request_record apr sm m =
     (let m = m\<lparr>header := snd (mrcp_header_fields_inherit (header m) (properties sm))\<rparr>
      in if state sm = RECORDER_STATE_RECORDING then recorder_response_dispatch sm (method_not_valid_response apr m)
         else recorder_request_dispatch sm m)"

definition recorder_response_record :: "'f recorder_method" where
  "recorder_response_record sm m =
     (if request_state (start_line m) = MRCP_REQUEST_STATE_INPROGRESS then
        recorder_response_dispatch
          (recorder_state_change RECORDER_STATE_RECORDING (sm\<lparr>record_request := active_request sm\<rparr>)) m
      else recorder_response_dispatch sm m)"

definition recorder_request_stop :: "apr_fmt \<Rightarrow> 'f recorder_method" where
  "recorder_request_stop apr sm m =
     (if state sm = RECORDER_STATE_RECORDING then recorder_request_dispatch sm m
      else recorder_response_dispatch sm (mrcp_response_create apr 0 (Some m)))"

definition recorder_response_stop :: "'f recorder_method" where
  "recorder_response_stop sm m = do {
     r \<leftarrow> record_request sm;
     m \<leftarrow> active_id_append (request_id (start_line r)) m;
     recorder_response_dispatch (recorder_state_change RECORDER_STATE_IDLE sm) m
   }"

definition recorder_request_start_timers :: "apr_fmt \<Rightarrow> 'f recorder_method" where
  "recorder_request_start_timers apr sm m =
     (if state sm = RECORDER_STATE_RECORDING then recorder_request_dispatch sm m
      else recorder_response_dispatch sm (method_not_valid_response apr m))"

definition recorder_response_start_timers :: "'f recorder_method" where
  "recorder_response_start_timers sm m = recorder_response_dispatch sm m"

definition recorder_event_start_of_input :: "'f recorder_method" where
  "recorder_event_start_of_input sm m =
     (case record_request sm of
        None \<Rightarrow> Some (False, sm)
      | Some r \<Rightarrow>
          if request_id (start_line r) \<noteq> request_id (start_line m) then Some (False, sm)
          else recorder_event_dispatch sm (request_state_set MRCP_REQUEST_STATE_INPROGRESS m))"

definition recorder_stop_outstanding :: "'f mrcp_recorder_state_machine \<Rightarrow> bool" where
  "recorder_stop_outstanding sm =
     (case active_request sm of None \<Rightarrow> False | Some a \<Rightarrow> method_id (start_line a) = RECORDER_STOP)"

definition recorder_cause_ensure :: "'f recorder_message \<Rightarrow> 'f recorder_message option" where
  "recorder_cause_ensure m =
     completion_cause_ensure RECORDER_HEADER_COMPLETION_CAUSE
       (\<lambda>d. d\<lparr>completion_cause := RECORDER_COMPLETION_CAUSE_SUCCESS_SILENCE\<rparr>) m"

definition recorder_event_record_complete :: "'f recorder_method" where
  "recorder_event_record_complete sm m =
     (case record_request sm of
        None \<Rightarrow> Some (False, sm)
      | Some r \<Rightarrow>
          if request_id (start_line r) \<noteq> request_id (start_line m) then Some (False, sm)
          else if recorder_stop_outstanding sm then Some (False, sm)
          else do {
            m \<leftarrow> recorder_cause_ensure m;
            recorder_event_dispatch (recorder_state_change RECORDER_STATE_IDLE sm) m
          })"

section \<open>Updating and deactivating\<close>

definition recorder_request_method_array :: "apr_fmt \<Rightarrow> 'f recorder_method list" where
  "recorder_request_method_array apr =
     [recorder_request_set_params, recorder_request_get_params, recorder_request_record apr, recorder_request_stop apr,
      recorder_request_start_timers apr]"

definition recorder_response_method_array :: "'f recorder_method list" where
  "recorder_response_method_array =
     [recorder_response_set_params, recorder_response_get_params, recorder_response_record, recorder_response_stop,
      recorder_response_start_timers]"

definition recorder_event_method_array :: "'f recorder_method list" where
  "recorder_event_method_array = [recorder_event_start_of_input, recorder_event_record_complete]"

definition recorder_request_state_update :: "apr_fmt \<Rightarrow> 'f recorder_method" where
  "recorder_request_state_update apr sm m =
     (if RECORDER_METHOD_COUNT \<le> method_id (start_line m) then Some (False, sm)
      else
        (case method_lookup (recorder_request_method_array apr) (method_id (start_line m)) of
           Some f \<Rightarrow> f sm m | None \<Rightarrow> recorder_request_dispatch sm m))"

definition recorder_response_state_update :: "'f recorder_method" where
  "recorder_response_state_update sm m =
     (case active_request sm of
        None \<Rightarrow> Some (False, sm)
      | Some a \<Rightarrow>
          if request_id (start_line a) \<noteq> request_id (start_line m) then Some (False, sm)
          else if RECORDER_METHOD_COUNT \<le> method_id (start_line m) then Some (False, sm)
          else
            (case method_lookup recorder_response_method_array (method_id (start_line m)) of
               Some f \<Rightarrow> f sm m | None \<Rightarrow> recorder_response_dispatch sm m))"

definition recorder_event_state_update :: "'f recorder_method" where
  "recorder_event_state_update sm m =
     (if RECORDER_EVENT_COUNT \<le> method_id (start_line m) then Some (False, sm)
      else
        (case method_lookup recorder_event_method_array (method_id (start_line m)) of
           Some f \<Rightarrow> f sm m | None \<Rightarrow> recorder_event_dispatch sm m))"

definition recorder_state_update :: "apr_fmt \<Rightarrow> 'f recorder_method" where
  "recorder_state_update apr sm m =
     (case message_type (start_line m) of
        MRCP_MESSAGE_TYPE_REQUEST \<Rightarrow> recorder_request_state_update apr sm m
      | MRCP_MESSAGE_TYPE_RESPONSE \<Rightarrow> recorder_response_state_update sm m
      | MRCP_MESSAGE_TYPE_EVENT \<Rightarrow> recorder_event_state_update sm m
      | _ \<Rightarrow> Some (False, sm))"

definition recorder_state_deactivate ::
  "apr_fmt \<Rightarrow> 'f mrcp_recorder_state_machine \<Rightarrow> (bool \<times> 'f mrcp_recorder_state_machine) option"
where
  "recorder_state_deactivate apr sm =
     (if state sm \<noteq> RECORDER_STATE_RECORDING then Some (False, sm)
      else
        (case record_request sm of
           None \<Rightarrow> Some (False, sm)
         | Some source \<Rightarrow> recorder_request_dispatch sm (deactivate_request apr RECORDER_STOP source)))"

definition mrcp_recorder_state_machine_create ::
  "apr_fmt \<Rightarrow> 'f float_ops \<Rightarrow> mrcp_version_e \<Rightarrow> 'f mrcp_recorder_state_machine"
where
  "mrcp_recorder_state_machine_create apr fo v =
     mrcp_state_machine.extend mrcp_state_machine_init
       (mrcp_recorder_state_machine.fields RECORDER_STATE_IDLE None None
          (mrcp_message_header_create (Some (mrcp_generic_header_vtable_get apr))
             (Some (mrcp_recorder_header_vtable_get apr fo v))))"

fun recorder_step ::
  "apr_fmt \<Rightarrow> 'f mrcp_recorder_state_machine \<Rightarrow> 'f recorder_message sm_input
    \<Rightarrow> (bool \<times> 'f mrcp_recorder_state_machine) option"
where
  "recorder_step apr sm (Update m) = mrcp_state_machine_update (Some (recorder_state_update apr)) sm m"
| "recorder_step apr sm Deactivate = mrcp_state_machine_deactivate (Some (recorder_state_deactivate apr)) sm"

section \<open>The invariant\<close>

definition recorder_core :: "'f mrcp_recorder_state_machine \<Rightarrow> bool" where
  "recorder_core sm \<longleftrightarrow>
     on_dispatch sm \<noteq> None \<and> on_deactivate sm \<noteq> None \<and>
     (state sm = RECORDER_STATE_IDLE \<longleftrightarrow> record_request sm = None)"

definition recorder_invar :: "'f mrcp_recorder_state_machine \<Rightarrow> bool" where
  "recorder_invar sm \<longleftrightarrow> recorder_core sm \<and> (recorder_stop_outstanding sm \<longrightarrow> state sm = RECORDER_STATE_RECORDING)"

fun recorder_allowed ::
  "apr_fmt \<Rightarrow> 'f float_ops \<Rightarrow> 'f mrcp_recorder_state_machine \<Rightarrow> 'f recorder_message sm_input \<Rightarrow> bool"
where
  "recorder_allowed apr fo sm (Update m) \<longleftrightarrow>
     msg_ok apr (range (mrcp_recorder_header_vtable_get apr fo)) m \<and>
     (case active_request sm of
        None \<Rightarrow> True
      | Some a \<Rightarrow>
          message_type (start_line m) = MRCP_MESSAGE_TYPE_RESPONSE \<and> request_id (start_line m) = request_id (start_line a)
          \<longrightarrow> method_id (start_line m) = method_id (start_line a))"
| "recorder_allowed apr fo sm Deactivate \<longleftrightarrow> True"

definition recorder_good ::
  "'f mrcp_recorder_state_machine \<Rightarrow> (bool \<times> 'f mrcp_recorder_state_machine) option \<Rightarrow> bool"
where
  "recorder_good sm r \<longleftrightarrow> (\<exists>b sm'. r = Some (b, sm') \<and> recorder_invar sm' \<and> sm_effect sm sm')"

interpretation recorder_cause: cause_header "range (mrcp_recorder_header_vtable_get apr fo)" RECORDER_HEADER_COMPLETION_CAUSE
  for apr fo
  by unfold_locales
    (auto simp: mrcp_recorder_header_vtable_get_def mrcp_recorder_header_generate_def RECORDER_HEADER_COMPLETION_CAUSE_def)

lemma recorder_goodI: "r = Some (b, sm') \<Longrightarrow> recorder_invar sm' \<Longrightarrow> sm_effect sm sm' \<Longrightarrow> recorder_good sm r"
  by (auto simp: recorder_good_def)

lemma recorder_invar_core: "recorder_invar sm \<Longrightarrow> recorder_core sm"
  by (simp add: recorder_invar_def)

lemma recorder_effect_ext [simp]:
  "sm_effect sm0 (sm\<lparr>state := st\<rparr>) = sm_effect sm0 sm"
  "sm_effect sm0 (sm\<lparr>record_request := r\<rparr>) = sm_effect sm0 sm"
  "sm_effect sm0 (sm\<lparr>properties := p\<rparr>) = sm_effect sm0 sm"
  "sm_effect sm0 (sm\<lparr>active_request := a\<rparr>) = sm_effect sm0 sm"
  "sm_effect sm0 (recorder_state_change st sm) = sm_effect sm0 sm"
  by (simp_all add: sm_effect_def recorder_state_change_def Let_def)

lemma recorder_core_ext [simp]:
  "recorder_core (sm\<lparr>properties := p\<rparr>) = recorder_core sm"
  "recorder_core (sm\<lparr>sm_log := l\<rparr>) = recorder_core sm"
  "recorder_core (sm\<lparr>active_request := a\<rparr>) = recorder_core sm"
  by (simp_all add: recorder_core_def)

lemma recorder_core_change [simp]:
  "recorder_core sm \<Longrightarrow> recorder_core (recorder_state_change RECORDER_STATE_IDLE sm)"
  "recorder_core sm \<Longrightarrow> recorder_core (recorder_state_change RECORDER_STATE_RECORDING (sm\<lparr>record_request := Some r\<rparr>))"
  by (simp_all add: recorder_core_def recorder_state_change_def)

lemma recorder_request_dispatch_good:
  assumes "recorder_core sm" "sm_effect sm0 sm" "message_type (start_line m) = MRCP_MESSAGE_TYPE_REQUEST"
    and "method_id (start_line m) = RECORDER_STOP \<Longrightarrow> state sm = RECORDER_STATE_RECORDING"
  shows "recorder_good sm0 (recorder_request_dispatch sm m)"
proof -
  let ?sm = "sm\<lparr>active_request := Some m\<rparr>"
  obtain b where "call_on_dispatch m ?sm = Some (b, ?sm\<lparr>sm_log := sm_log ?sm @ [Dispatch m]\<rparr>)"
    using call_on_dispatch_Some [of ?sm m] assms(1) by (auto simp: recorder_core_def)
  moreover have "sm_effect sm0 (?sm\<lparr>sm_log := sm_log ?sm @ [Dispatch m]\<rparr>)"
    by (rule sm_effect_log) (use assms in simp_all)
  ultimately show ?thesis
    using assms by (intro recorder_goodI)
      (simp_all add: recorder_request_dispatch_def recorder_invar_def recorder_stop_outstanding_def)
qed

lemma recorder_response_dispatch_good:
  assumes "recorder_core sm" "sm_effect sm0 sm"
  shows "recorder_good sm0 (recorder_response_dispatch sm m)"
proof -
  let ?sm = "sm\<lparr>active_request := None\<rparr>"
  let ?sm' = "?sm\<lparr>sm_log := sm_log ?sm @ [if active sm then Dispatch m else Deactivated]\<rparr>"
  obtain b c where "call_on_dispatch m ?sm = Some (b, ?sm\<lparr>sm_log := sm_log ?sm @ [Dispatch m]\<rparr>)"
      "call_on_deactivate ?sm = Some (c, ?sm\<lparr>sm_log := sm_log ?sm @ [Deactivated]\<rparr>)"
    using call_on_dispatch_Some [of ?sm m] call_on_deactivate_Some [of ?sm] assms(1) by (auto simp: recorder_core_def)
  moreover have "sm_effect sm0 ?sm'"
    by (rule sm_effect_log) (use assms in simp_all)
  ultimately show ?thesis
    using assms by (intro recorder_goodI [where b = "if active sm then b else c" and sm' = ?sm'])
      (simp_all add: recorder_response_dispatch_def recorder_invar_def recorder_stop_outstanding_def Let_def)
qed

lemma recorder_event_dispatch_good:
  assumes "recorder_invar sm" "sm_effect sm0 sm"
  shows "recorder_good sm0 (recorder_event_dispatch sm m)"
proof (cases "active sm")
  case True
  obtain b where "call_on_dispatch m sm = Some (b, sm\<lparr>sm_log := sm_log sm @ [Dispatch m]\<rparr>)"
    using call_on_dispatch_Some [of sm m] assms(1) by (auto simp: recorder_core_def recorder_invar_def)
  moreover have "sm_effect sm0 (sm\<lparr>sm_log := sm_log sm @ [Dispatch m]\<rparr>)"
    by (rule sm_effect_log) (use assms True in simp_all)
  ultimately show ?thesis
    using assms True by (intro recorder_goodI)
      (simp_all add: recorder_event_dispatch_def recorder_invar_def recorder_stop_outstanding_def)
qed (use assms in \<open>auto simp: recorder_event_dispatch_def recorder_good_def\<close>)

section \<open>Every input keeps the invariant\<close>

lemma recorder_method_cases:
  fixes m :: "'f recorder_message"
  obtains "RECORDER_METHOD_COUNT \<le> method_id (start_line m)" | "method_id (start_line m) = 0" | "method_id (start_line m) = 1"
    | "method_id (start_line m) = 2" | "method_id (start_line m) = 3" | "method_id (start_line m) = 4"
  by (fastforce simp: RECORDER_METHOD_COUNT_def)

lemma recorder_request_good:
  assumes "recorder_invar sm" "message_type (start_line m) = MRCP_MESSAGE_TYPE_REQUEST"
  shows "recorder_good sm (recorder_request_state_update apr sm m)"
proof -
  have core: "recorder_core sm" using assms(1) by (rule recorder_invar_core)
  show ?thesis
    by (cases rule: recorder_method_cases [of m])
      (use core assms in \<open>auto simp: recorder_request_state_update_def RECORDER_METHOD_COUNT_def method_lookup_def
        recorder_request_method_array_def recorder_request_set_params_def recorder_request_get_params_def
        recorder_request_record_def recorder_request_stop_def recorder_request_start_timers_def Let_def RECORDER_STOP_def
        recorder_good_def [of sm "Some _"]
        intro!: recorder_request_dispatch_good recorder_response_dispatch_good\<close>)
qed

lemma recorder_response_good:
  assumes inv: "recorder_invar sm" and ok: "msg_ok apr vts m"
    and a: "active_request sm = Some a" and meth: "method_id (start_line m) = method_id (start_line a)"
  shows "recorder_good sm (recorder_response_state_update sm m)"
proof -
  have core: "recorder_core sm" using inv by (rule recorder_invar_core)
  have stop: "recorder_good sm (recorder_response_stop sm m)" if "method_id (start_line m) = 3"
  proof -
    have "state sm = RECORDER_STATE_RECORDING"
      using inv a meth that by (simp add: recorder_invar_def recorder_stop_outstanding_def RECORDER_STOP_def)
    then obtain r where r: "record_request sm = Some r" using core by (auto simp: recorder_core_def)
    obtain m1 where "active_id_append (request_id (start_line r)) m = Some m1"
      by (rule active_id_append_ok [OF ok])
    then show ?thesis
      using r core by (simp add: recorder_response_stop_def recorder_response_dispatch_good)
  qed
  show ?thesis
    by (cases rule: recorder_method_cases [of m])
      (use core inv a stop in \<open>auto simp: recorder_response_state_update_def RECORDER_METHOD_COUNT_def method_lookup_def
        recorder_response_method_array_def recorder_response_set_params_def recorder_response_get_params_def
        recorder_response_record_def recorder_response_start_timers_def recorder_good_def [of sm "Some _"]
        intro!: recorder_response_dispatch_good\<close>)
qed

lemma recorder_event_good:
  assumes inv: "recorder_invar sm" and ok: "msg_ok apr (range (mrcp_recorder_header_vtable_get apr fo)) m"
  shows "recorder_good sm (recorder_event_state_update sm m)"
proof -
  obtain m1 where m1: "recorder_cause_ensure m = Some m1"
    unfolding recorder_cause_ensure_def by (rule recorder_cause.cause_ensure_ok [OF ok])
  have complete: "recorder_good sm (recorder_event_record_complete sm m)"
  proof (cases "record_request sm = None \<or> request_id (start_line (the (record_request sm))) \<noteq> request_id (start_line m) \<or>
      recorder_stop_outstanding sm")
    case True
    then show ?thesis using inv by (auto simp: recorder_event_record_complete_def recorder_good_def split: option.split)
  next
    case False
    have "recorder_invar (recorder_state_change RECORDER_STATE_IDLE sm)"
      using False inv by (auto simp: recorder_invar_def recorder_core_def recorder_state_change_def recorder_stop_outstanding_def)
    then show ?thesis
      using False m1 by (auto simp: recorder_event_record_complete_def intro!: recorder_event_dispatch_good)
  qed
  consider "RECORDER_EVENT_COUNT \<le> method_id (start_line m)" | "method_id (start_line m) = 0" | "method_id (start_line m) = 1"
    by (fastforce simp: RECORDER_EVENT_COUNT_def)
  then show ?thesis
    using inv complete by cases (auto simp: recorder_event_state_update_def RECORDER_EVENT_COUNT_def method_lookup_def
      recorder_event_method_array_def recorder_event_start_of_input_def
      recorder_good_def [of sm "Some _"] split: option.split intro!: recorder_event_dispatch_good)
qed

lemma recorder_step_good:
  assumes inv: "recorder_invar sm" and al: "recorder_allowed apr fo sm i"
  shows "recorder_good (case i of Update m \<Rightarrow> sm | Deactivate \<Rightarrow> sm\<lparr>active := False\<rparr>) (recorder_step apr sm i)"
proof (cases i)
  case (Update m)
  have "recorder_good sm (recorder_response_state_update sm m)" if "message_type (start_line m) = MRCP_MESSAGE_TYPE_RESPONSE"
  proof (cases "active_request sm")
    case (Some a)
    show ?thesis
    proof (cases "request_id (start_line m) = request_id (start_line a)")
      case True
      then show ?thesis
        using recorder_response_good [of sm apr "range (mrcp_recorder_header_vtable_get apr fo)" m a] inv al Some that Update
        by simp
    next
      case False
      then show ?thesis using Some inv by (auto simp: recorder_response_state_update_def recorder_good_def)
    qed
  qed (use inv in \<open>auto simp: recorder_response_state_update_def recorder_good_def\<close>)
  then show ?thesis
    using Update al recorder_request_good [OF inv] recorder_event_good [OF inv, of apr fo m] inv
    by (cases "message_type (start_line m)")
      (auto simp: mrcp_state_machine_update_def recorder_state_update_def recorder_good_def [of sm "Some _"])
next
  case Deactivate
  have "recorder_invar (sm\<lparr>active := False\<rparr>)"
    using inv by (simp add: recorder_invar_def recorder_core_def recorder_stop_outstanding_def)
  then show ?thesis
    using Deactivate by (auto simp: mrcp_state_machine_deactivate_def recorder_state_deactivate_def
      recorder_good_def [of _ "Some _"] recorder_invar_core split: option.split intro!: recorder_request_dispatch_good)
qed

interpretation recorder_sm: state_machine "recorder_step apr" "recorder_allowed apr fo" recorder_invar
  for apr :: apr_fmt and fo :: "'f float_ops"
  by unfold_locales (use recorder_step_good in \<open>fastforce simp: recorder_good_def\<close>)

section \<open>Properties\<close>

text \<open>The machine as a server session starts it, and messages of a session for the witnesses.\<close>

definition recorder_start ::
  "apr_fmt \<Rightarrow> 'f float_ops \<Rightarrow> mrcp_version_e \<Rightarrow> ('f recorder_message \<Rightarrow> bool) \<Rightarrow> bool \<Rightarrow> 'f mrcp_recorder_state_machine"
where
  "recorder_start apr fo v f b =
     (mrcp_recorder_state_machine_create apr fo v)\<lparr>on_dispatch := Some f, on_deactivate := Some b\<rparr>"

lemma recorder_start_invar: "recorder_invar (recorder_start apr fo v f b)"
  by (simp add: recorder_start_def mrcp_recorder_state_machine_create_def mrcp_state_machine_init_def recorder_invar_def recorder_core_def
    recorder_stop_outstanding_def mrcp_state_machine.defs mrcp_recorder_state_machine.defs)

definition recorder_msg :: "mrcp_message_type_e \<Rightarrow> nat \<Rightarrow> mrcp_request_id \<Rightarrow> nat \<Rightarrow> unit recorder_message" where
  "recorder_msg t k rid code =
     (let m = mrcp_request_create apr_std (Some (mrcp_recorder_resource_create apr_std float_unit)) MRCP_VERSION_2 k
      in m\<lparr>start_line := (start_line m)\<lparr>message_type := t, request_id := rid, request_state := MRCP_REQUEST_STATE_COMPLETE,
             status_code := code\<rparr>\<rparr>)"

lemma recorder_msg_facts [simp]:
  "msg_ok apr_std (range (mrcp_recorder_header_vtable_get apr_std float_unit)) (recorder_msg t k rid code)"
  "message_type (start_line (recorder_msg t k rid code)) = t"
  "method_id (start_line (recorder_msg t k rid code)) = k"
  "request_id (start_line (recorder_msg t k rid code)) = rid"
  "status_code (start_line (recorder_msg t k rid code)) = code"
proof -
  let ?m = "mrcp_request_create apr_std (Some (mrcp_recorder_resource_create apr_std float_unit)) MRCP_VERSION_2 k"
  have "msg_ok apr_std (range (mrcp_recorder_header_vtable_get apr_std float_unit)) ?m"
    by (rule request_create_ok) (simp add: mrcp_recorder_resource_create_def)
  then show "msg_ok apr_std (range (mrcp_recorder_header_vtable_get apr_std float_unit)) (recorder_msg t k rid code)"
    by (simp add: recorder_msg_def Let_def)
qed (auto simp: recorder_msg_def mrcp_request_create_def mrcp_message_resource_set_by_id_def Let_def split: option.split)

text \<open>
  C19: a recorder state machine never follows a NULL pointer. From its start, whatever messages for the recorder it is
  given and whenever it is deactivated, the next input is processed without a fault, provided that a response carries the
  method of the request it answers.
\<close>

theorem recorder_no_fault:
  assumes "sm_reachable (recorder_step apr) (recorder_allowed apr fo) (recorder_start apr fo v f b) sm"
    and "recorder_allowed apr fo sm i"
  shows "recorder_step apr sm i \<noteq> None"
  by (rule recorder_sm.no_fault [OF assms(1) recorder_start_invar assms(2)])

theorem recorder_no_fault_witness:
  "recorder_step apr_std (recorder_start apr_std float_unit MRCP_VERSION_2 (\<lambda>_. True) True)
     (Update (recorder_msg MRCP_MESSAGE_TYPE_REQUEST RECORDER_RECORD 1 0)) \<noteq> None"
  by (rule recorder_no_fault [OF sm_reachable.start [of _ _ "recorder_start apr_std float_unit MRCP_VERSION_2 (\<lambda>_. True) True"]])
    (simp add: recorder_start_def mrcp_recorder_state_machine_create_def mrcp_state_machine_init_def
      mrcp_state_machine.defs mrcp_recorder_state_machine.defs)

text \<open>
  C37: a RECORD request that is rejected makes the machine forget the request that waits for the engine. While a
  recording is in progress, another RECORD request is answered with "method not valid in this state" and the recording
  goes on, but the response of the engine to a request sent to it before is then ignored.
\<close>

theorem recorder_reject_forgets_outstanding:
  assumes "recorder_invar sm" "active sm" "state sm = RECORDER_STATE_RECORDING"
    and "message_type (start_line m) = MRCP_MESSAGE_TYPE_REQUEST" "method_id (start_line m) = RECORDER_RECORD"
  shows "\<exists>b m' sm'. recorder_step apr sm (Update m) = Some (b, sm') \<and> sm_log sm' = sm_log sm @ [Dispatch m'] \<and>
    status_code (start_line m') = MRCP_STATUS_CODE_METHOD_NOT_VALID \<and>
    state sm' = state sm \<and> record_request sm' = record_request sm \<and>
    (\<forall>r. message_type (start_line r) = MRCP_MESSAGE_TYPE_RESPONSE \<longrightarrow> recorder_step apr sm' (Update r) = Some (False, sm'))"
proof -
  obtain f where "on_dispatch sm = Some f" using assms(1) by (auto simp: recorder_invar_def recorder_core_def)
  then show ?thesis
    using assms by (simp add: mrcp_state_machine_update_def recorder_state_update_def recorder_request_state_update_def
      RECORDER_METHOD_COUNT_def RECORDER_RECORD_def method_lookup_def recorder_request_method_array_def
      recorder_request_record_def recorder_response_dispatch_def call_on_dispatch_def method_not_valid_response_def
      recorder_response_state_update_def Let_def)
qed

theorem recorder_reject_forgets_outstanding_witness:
  "\<exists>b m' sm'. recorder_step apr_std
      ((recorder_start apr_std float_unit MRCP_VERSION_2 (\<lambda>_. True) True)
        \<lparr>state := RECORDER_STATE_RECORDING, record_request := Some (recorder_msg MRCP_MESSAGE_TYPE_REQUEST RECORDER_RECORD 1 0),
         active_request := Some (recorder_msg MRCP_MESSAGE_TYPE_REQUEST RECORDER_STOP 2 0)\<rparr>)
      (Update (recorder_msg MRCP_MESSAGE_TYPE_REQUEST RECORDER_RECORD 3 0)) = Some (b, sm') \<and>
    status_code (start_line m') = MRCP_STATUS_CODE_METHOD_NOT_VALID \<and> last (sm_log sm') = Dispatch m' \<and>
    recorder_step apr_std sm' (Update (recorder_msg MRCP_MESSAGE_TYPE_RESPONSE RECORDER_STOP 2 200)) = Some (False, sm')"
proof -
  let ?sm = "(recorder_start apr_std float_unit MRCP_VERSION_2 (\<lambda>_. True) True)
    \<lparr>state := RECORDER_STATE_RECORDING, record_request := Some (recorder_msg MRCP_MESSAGE_TYPE_REQUEST RECORDER_RECORD 1 0),
     active_request := Some (recorder_msg MRCP_MESSAGE_TYPE_REQUEST RECORDER_STOP 2 0)\<rparr>"
  have "recorder_invar ?sm" "active ?sm" "state ?sm = RECORDER_STATE_RECORDING"
    by (simp_all add: recorder_start_def mrcp_recorder_state_machine_create_def mrcp_state_machine_init_def recorder_invar_def
      recorder_core_def mrcp_state_machine.defs mrcp_recorder_state_machine.defs)
  from recorder_reject_forgets_outstanding [OF this, of "recorder_msg MRCP_MESSAGE_TYPE_REQUEST RECORDER_RECORD 3 0" apr_std]
  show ?thesis by (auto simp del: recorder_step.simps)
qed

end
