(* ===== verification/Mrcp_Resource_Factory.thy ===== *)
theory Mrcp_Resource_Factory
  imports Mrcp_Message
begin

text \<open>
  The registry of resources, \<open>libs/mrcp/control/src/mrcp_resource_factory.c\<close>. Resources are found by identifier in an
  array and by name in a hash table. The hash table belongs to the portable runtime: its operations are a parameter, and
  \<open>apr_hash_ok\<close> is what its documentation says of them.
\<close>

section \<open>Hash tables\<close>

record ('h, 'v) apr_hash_ops =
  apr_hash_make :: 'h
  apr_hash_set :: "'h \<Rightarrow> string \<Rightarrow> 'v \<Rightarrow> 'h"
  apr_hash_get :: "'h \<Rightarrow> string \<Rightarrow> 'v option"

definition apr_hash_ok :: "('h, 'v) apr_hash_ops \<Rightarrow> bool" where
  "apr_hash_ok hash \<longleftrightarrow>
     (\<forall>key. apr_hash_get hash (apr_hash_make hash) key = None) \<and>
     (\<forall>h key v key'. apr_hash_get hash (apr_hash_set hash h key v) key' =
        (if key' = key then Some v else apr_hash_get hash h key'))"

definition apr_hash_std :: "((string \<times> 'v) list, 'v) apr_hash_ops" where
  "apr_hash_std = \<lparr>apr_hash_make = [], apr_hash_set = (\<lambda>h key v. (key, v) # h), apr_hash_get = map_of\<rparr>"

lemma apr_hash_std_ok [simp]: "apr_hash_ok apr_hash_std"
  by (simp add: apr_hash_ok_def apr_hash_std_def)

lemma apr_hash_okD:
  assumes "apr_hash_ok hash"
  shows "apr_hash_get hash (apr_hash_make hash) key = None"
    and "apr_hash_get hash (apr_hash_set hash h key v) = (apr_hash_get hash h)(key \<mapsto> v)"
  using assms by (auto simp: apr_hash_ok_def fun_eq_iff)

section \<open>The factory\<close>

record ('h, 'r) mrcp_resource_factory =
  resource_array :: "'r mrcp_resource option list"
  resource_hash :: 'h

definition mrcp_resource_factory_create ::
  "('h, 'r mrcp_resource) apr_hash_ops \<Rightarrow> nat \<Rightarrow> ('h, 'r) mrcp_resource_factory option"
where
  "mrcp_resource_factory_create hash n =
     (if n = 0 then None else Some \<lparr>resource_array = replicate n None, resource_hash = apr_hash_make hash\<rparr>)"

text \<open>The table functions of a resource are always set in the model.\<close>

definition mrcp_resource_validate :: "'r mrcp_resource \<Rightarrow> bool" where
  "mrcp_resource_validate res \<longleftrightarrow> method_count res \<noteq> 0 \<and> event_count res \<noteq> 0 \<and> res_name res \<noteq> []"

definition mrcp_resource_register ::
  "('h, 'r mrcp_resource) apr_hash_ops \<Rightarrow> ('h, 'r) mrcp_resource_factory \<Rightarrow> 'r mrcp_resource option \<Rightarrow>
   bool \<times> ('h, 'r) mrcp_resource_factory"
where
  "mrcp_resource_register hash factory r =
     (case r of None \<Rightarrow> (False, factory)
      | Some res \<Rightarrow>
          if length (resource_array factory) \<le> res_id res then (False, factory)
          else if resource_array factory ! res_id res \<noteq> None then (False, factory)
          else if \<not> mrcp_resource_validate res then (False, factory)
          else (True, factory\<lparr>resource_array := (resource_array factory)[res_id res := Some res],
                              resource_hash := apr_hash_set hash (resource_hash factory) (res_name res) res\<rparr>))"

definition mrcp_resource_get :: "('h, 'r) mrcp_resource_factory \<Rightarrow> nat \<Rightarrow> 'r mrcp_resource option" where
  "mrcp_resource_get factory i = (if length (resource_array factory) \<le> i then None else resource_array factory ! i)"

definition mrcp_resource_find ::
  "('h, 'r mrcp_resource) apr_hash_ops \<Rightarrow> ('h, 'r) mrcp_resource_factory \<Rightarrow> apt_str \<Rightarrow> 'r mrcp_resource option"
where
  "mrcp_resource_find hash factory name = (if name = [] then None else apr_hash_get hash (resource_hash factory) name)"

section \<open>The two views agree\<close>

text \<open>
  The invariant of the factory: a slot holds a valid resource with the identifier of the slot, and the resource found by
  a name has that name and is the one in its slot.
\<close>

definition factory_wf :: "('h, 'r mrcp_resource) apr_hash_ops \<Rightarrow> ('h, 'r) mrcp_resource_factory \<Rightarrow> bool" where
  "factory_wf hash factory \<longleftrightarrow>
     (\<forall>i res. mrcp_resource_get factory i = Some res \<longrightarrow> res_id res = i \<and> mrcp_resource_validate res) \<and>
     (\<forall>name res. mrcp_resource_find hash factory name = Some res \<longrightarrow>
        res_name res = name \<and> mrcp_resource_get factory (res_id res) = Some res)"

lemma factory_wf_create:
  "apr_hash_ok hash \<Longrightarrow> mrcp_resource_factory_create hash n = Some factory \<Longrightarrow> factory_wf hash factory"
  by (auto simp: mrcp_resource_factory_create_def factory_wf_def mrcp_resource_get_def mrcp_resource_find_def
    apr_hash_okD split: if_splits)

text \<open>A resource that was accepted is found by its identifier and by its name; the others are found as before.\<close>

lemma register_found:
  assumes "apr_hash_ok hash" "mrcp_resource_register hash factory (Some res) = (True, factory')"
  shows "mrcp_resource_get factory' = (mrcp_resource_get factory)(res_id res \<mapsto> res)"
    and "mrcp_resource_find hash factory' = (mrcp_resource_find hash factory)(res_name res \<mapsto> res)"
  using assms(2)
  by (auto simp: mrcp_resource_register_def mrcp_resource_get_def mrcp_resource_find_def apr_hash_okD [OF assms(1)] fun_eq_iff
    mrcp_resource_validate_def nth_list_update split: if_splits)

lemma factory_wf_register:
  assumes "apr_hash_ok hash" "factory_wf hash factory" "mrcp_resource_register hash factory r = (b, factory')"
  shows "factory_wf hash factory'"
proof (cases b)
  case True
  then obtain res where res: "r = Some res" "mrcp_resource_register hash factory (Some res) = (True, factory')"
      "mrcp_resource_get factory (res_id res) = None" "mrcp_resource_validate res"
    using assms(3) by (auto simp: mrcp_resource_register_def mrcp_resource_get_def split: option.splits if_splits)
  then show ?thesis
    using assms(2) unfolding factory_wf_def register_found [OF assms(1) res(2)] by (auto split: if_splits) (metis option.distinct(1))
next
  case False
  then show ?thesis
    using assms(2,3) by (auto simp: mrcp_resource_register_def split: option.splits if_splits)
qed

end
