(* ===== verification/Apt_Text_Message.thy ===== *)
theory Apt_Text_Message
  imports Apt_Header_Section
begin

text \<open>
  The parser and the generator of text messages, \<open>apt_message_parser_run\<close> and \<open>apt_message_generator_run\<close> of
  \<open>libs/apr-toolkit/src/apt_text_message.c\<close>. They are shared by the protocols (MRCP, RTSP): the type \<open>'m\<close> of the
  message is a parameter, and the table of handlers a protocol provides is a record of functions. Logging is left out.
\<close>

section \<open>The parser\<close>

datatype apt_message_status_e = APT_MESSAGE_STATUS_COMPLETE | APT_MESSAGE_STATUS_INCOMPLETE | APT_MESSAGE_STATUS_INVALID

datatype apt_message_stage_e = APT_MESSAGE_STAGE_START_LINE | APT_MESSAGE_STAGE_HEADER | APT_MESSAGE_STAGE_BODY

text \<open>
  The handlers of a protocol. Starting a message reads its first line and gives the new message, or none. When the header
  is complete, the handler answers whether it is valid, and the length of the body that follows. The context of the C code
  points to the header section and to the body inside the message: the last four members read and write them.
\<close>

record 'm apt_message_parser_vtable =
  on_start :: "apt_text_stream \<Rightarrow> 'm option \<times> apt_text_stream"
  on_header_complete :: "'m \<Rightarrow> (bool \<times> 'm \<times> nat) option"
  ctx_header :: "'m \<Rightarrow> apt_header_section"
  ctx_header_put :: "apt_header_section \<Rightarrow> 'm \<Rightarrow> 'm"
  ctx_body :: "'m \<Rightarrow> apt_str"
  ctx_body_put :: "apt_str \<Rightarrow> 'm \<Rightarrow> 'm"

record 'm apt_message_parser =
  context_message :: "'m option"
  parser_content_length :: nat
  stage :: apt_message_stage_e
  skip_lf :: bool

definition apt_message_parser_create :: "'m apt_message_parser" where
  "apt_message_parser_create =
     \<lparr>context_message = None, parser_content_length = 0, stage = APT_MESSAGE_STAGE_START_LINE, skip_lf = False\<rparr>"

text \<open>The test reads the character before the cursor, also when the cursor is at the start of the memory.\<close>

definition apt_crlf_segmentation_test :: "'m apt_message_parser \<Rightarrow> apt_text_stream \<Rightarrow> 'm apt_message_parser option" where
  "apt_crlf_segmentation_test p s =
     (if ts_pos s = ts_end s then
        (if ts_pos s = 0 \<or> length (ts_mem s) < ts_pos s then None
         else Some (if ts_mem s ! (ts_pos s - 1) = APT_TOKEN_CR then p\<lparr>skip_lf := True\<rparr> else p))
      else Some p)"

text \<open>
  What is missing of the body is taken from the stream, as far as it goes. The first result says whether the body is
  complete.
\<close>

definition apt_message_body_read :: "nat \<Rightarrow> apt_str \<Rightarrow> apt_text_stream \<Rightarrow> (bool \<times> apt_str \<times> apt_text_stream) option" where
  "apt_message_body_read content_length body s =
     (let stream_length = ts_length s - (ts_pos s - ts_buf s);
          required_length = content_length - length body;
          n = min required_length stream_length
      in if length (ts_mem s) < ts_pos s + n then None
         else Some (required_length \<le> stream_length, body @ take n (drop (ts_pos s) (ts_mem s)), s\<lparr>ts_pos := ts_pos s + n\<rparr>))"

text \<open>The outcome of a run: the status, the message when it is complete, the parser, the stream and the next address.\<close>

type_synonym 'm parser_result = "apt_message_status_e \<times> 'm option \<times> 'm apt_message_parser \<times> apt_text_stream \<times> nat"

definition parser_body_stage ::
  "'m apt_message_parser_vtable \<Rightarrow> nat \<Rightarrow> 'm apt_message_parser \<Rightarrow> apt_text_stream \<Rightarrow> 'm parser_result option"
where
  "parser_body_stage vt pool p s = do {
     m \<leftarrow> context_message p;
     (complete, body, s) \<leftarrow> apt_message_body_read (parser_content_length p) (ctx_body vt m) s;
     let m = ctx_body_put vt body m;
     let p = p\<lparr>context_message := Some m\<rparr>;
     Some (if complete
           then (APT_MESSAGE_STATUS_COMPLETE, Some m, p\<lparr>stage := APT_MESSAGE_STAGE_START_LINE\<rparr>, s, pool)
           else (APT_MESSAGE_STATUS_INCOMPLETE, None, p, s, pool))
   }"

text \<open>
  The buffer of the body has one cell more than the content. The size is computed with 64 bits: for the largest content
  length the buffer is empty and the terminating zero is written outside of it, which is a fault.
\<close>

definition parser_header_stage ::
  "'m apt_message_parser_vtable \<Rightarrow> nat \<Rightarrow> 'm apt_message_parser \<Rightarrow> apt_text_stream \<Rightarrow> 'm parser_result option"
where
  "parser_header_stage vt pool p s = do {
     m \<leftarrow> context_message p;
     let (res, sec, s, pool) = apt_header_section_parse pool (ctx_header vt m) s;
     let m = ctx_header_put vt sec m;
     p \<leftarrow> apt_crlf_segmentation_test (p\<lparr>context_message := Some m\<rparr>) s;
     if \<not> res then Some (APT_MESSAGE_STATUS_INCOMPLETE, None, p, s, pool)
     else do {
       (valid, m, n) \<leftarrow> on_header_complete vt m;
       let p = p\<lparr>context_message := Some m\<rparr>;
       if \<not> valid then Some (APT_MESSAGE_STATUS_INVALID, None, p, s, pool)
       else if n \<noteq> 0 then
         (if (n + 1) mod 2 ^ 64 \<le> n then None
          else
            parser_body_stage vt pool
              (p\<lparr>context_message := Some (ctx_body_put vt [] m), parser_content_length := n,
                 stage := APT_MESSAGE_STAGE_BODY\<rparr>) s)
       else Some (APT_MESSAGE_STATUS_COMPLETE, Some m, p\<lparr>stage := APT_MESSAGE_STAGE_START_LINE\<rparr>, s, pool)
     }
   }"

text \<open>Every path through the body of the loop of the C code leaves the loop, so that it runs once.\<close>

definition apt_message_parser_run ::
  "'m apt_message_parser_vtable \<Rightarrow> nat \<Rightarrow> 'm apt_message_parser \<Rightarrow> apt_text_stream \<Rightarrow> 'm parser_result option"
where
  "apt_message_parser_run vt pool p s =
     (let s = (if skip_lf p then apt_text_char_skip APT_TOKEN_LF s else s);
          p = p\<lparr>skip_lf := False\<rparr>
      in case stage p of
           APT_MESSAGE_STAGE_START_LINE \<Rightarrow>
             (case on_start vt s of
                (None, s) \<Rightarrow>
                  Some (if apt_text_is_eos s then APT_MESSAGE_STATUS_INCOMPLETE else APT_MESSAGE_STATUS_INVALID,
                        None, p, s, pool)
              | (Some m, s) \<Rightarrow> do {
                  p \<leftarrow> apt_crlf_segmentation_test (p\<lparr>context_message := Some m\<rparr>) s;
                  parser_header_stage vt pool (p\<lparr>stage := APT_MESSAGE_STAGE_HEADER\<rparr>) s
                })
         | APT_MESSAGE_STAGE_HEADER \<Rightarrow> parser_header_stage vt pool p s
         | APT_MESSAGE_STAGE_BODY \<Rightarrow> parser_body_stage vt pool p s)"

section \<open>The generator\<close>

text \<open>
  Starting a message generates its first line; the handler answers whether it succeeded and whether it has set the
  pointers to the header section and to the body.
\<close>

record 'm apt_message_generator_vtable =
  gen_on_start :: "'m \<Rightarrow> apt_text_stream \<Rightarrow> (bool \<times> bool \<times> 'm \<times> apt_text_stream) option"
  gen_on_header_complete :: "'m \<Rightarrow> apt_text_stream \<Rightarrow> (bool \<times> 'm \<times> apt_text_stream) option"
  gen_header :: "'m \<Rightarrow> apt_header_section"
  gen_body :: "'m \<Rightarrow> apt_str"
  gen_body_put :: "apt_str \<Rightarrow> 'm \<Rightarrow> 'm"

text \<open>A message has an address, by which the generator recognises that it goes on with the same message.\<close>

record apt_message_generator =
  gen_message :: "nat option"
  gen_content_length :: nat
  gen_stage :: apt_message_stage_e

definition apt_message_generator_create :: apt_message_generator where
  "apt_message_generator_create =
     \<lparr>gen_message = None, gen_content_length = 0, gen_stage = APT_MESSAGE_STAGE_START_LINE\<rparr>"

definition apt_message_generator_break :: "apt_text_stream \<Rightarrow> apt_message_status_e" where
  "apt_message_generator_break s =
     (if apt_text_is_eos s then APT_MESSAGE_STATUS_INCOMPLETE else APT_MESSAGE_STATUS_INVALID)"

text \<open>
  The generator counts what it has written in the length of the body itself, so that the body is a growing part of the
  buffer \<open>buf\<close> behind it. The first result says whether all of it has been written.
\<close>

definition apt_message_body_write ::
  "nat \<Rightarrow> string \<Rightarrow> apt_str \<Rightarrow> apt_text_stream \<Rightarrow> (bool \<times> apt_str \<times> apt_text_stream) option"
where
  "apt_message_body_write content_length buf body s =
     (if length body < content_length then
        (let stream_length = ts_length s - (ts_pos s - ts_buf s);
             required_length = content_length - length body;
             n = min required_length stream_length
         in if length buf < length body + n then None
            else do {
              s \<leftarrow> ts_put (take n (drop (length body) buf)) s;
              Some (required_length \<le> stream_length, take (length body + n) buf, s)
            })
      else Some (True, body, s))"

type_synonym 'm generator_result = "apt_message_status_e \<times> 'm \<times> apt_message_generator \<times> apt_text_stream"

definition generator_body_stage ::
  "'m apt_message_generator_vtable \<Rightarrow> string \<Rightarrow> 'm \<Rightarrow> apt_message_generator \<Rightarrow> apt_text_stream \<Rightarrow> 'm generator_result option"
where
  "generator_body_stage vt buf m g s =
     (if gen_stage g = APT_MESSAGE_STAGE_BODY then do {
        (complete, body, s) \<leftarrow> apt_message_body_write (gen_content_length g) buf (gen_body vt m) s;
        let m = gen_body_put vt body m;
        Some (if complete then (APT_MESSAGE_STATUS_COMPLETE, m, g\<lparr>gen_stage := APT_MESSAGE_STAGE_START_LINE\<rparr>, s)
              else (apt_message_generator_break s, m, g, s))
      } else Some (APT_MESSAGE_STATUS_COMPLETE, m, g, s))"

text \<open>The message is given by its address, its content and the buffer of its body.\<close>

definition apt_message_generator_run ::
  "'m apt_message_generator_vtable \<Rightarrow> apt_message_generator \<Rightarrow> nat \<Rightarrow> string \<Rightarrow> 'm \<Rightarrow> apt_text_stream \<Rightarrow>
   'm generator_result option"
where
  "apt_message_generator_run vt g a buf m s =
     (let g = (if gen_message g \<noteq> Some a
               then g\<lparr>gen_stage := APT_MESSAGE_STAGE_START_LINE, gen_message := Some a\<rparr> else g)
      in if gen_stage g = APT_MESSAGE_STAGE_START_LINE then do {
           (ok, context_set, m, s) \<leftarrow> gen_on_start vt m s;
           if \<not> ok then Some (apt_message_generator_break s, m, g, s)
           else if \<not> context_set then Some (APT_MESSAGE_STATUS_INVALID, m, g, s)
           else do {
             (ok, s) \<leftarrow> apt_header_section_generate (gen_header vt m) s;
             if \<not> ok then Some (apt_message_generator_break s, m, g, s)
             else do {
               (_, m, s) \<leftarrow> gen_on_header_complete vt m s;
               let n = length (gen_body vt m);
               let g = g\<lparr>gen_stage := APT_MESSAGE_STAGE_START_LINE, gen_content_length := n\<rparr>;
               if n \<noteq> 0 then
                 generator_body_stage vt buf (gen_body_put vt [] m) (g\<lparr>gen_stage := APT_MESSAGE_STAGE_BODY\<rparr>) s
               else generator_body_stage vt buf m g s
             }
           }
         }
         else generator_body_stage vt buf m g s)"

section \<open>Writing the body\<close>

definition ts_room :: "apt_text_stream \<Rightarrow> nat" where
  "ts_room s = ts_end s - ts_pos s"

text \<open>The window of the text ends where the stream ends.\<close>

definition ts_whole :: "apt_text_stream \<Rightarrow> bool" where
  "ts_whole s \<longleftrightarrow> ts_wf s \<and> ts_buf s + ts_length s = ts_end s"

lemma ts_whole_room: "ts_whole s \<Longrightarrow> ts_length s - (ts_pos s - ts_buf s) = ts_room s"
  by (auto simp: ts_whole_def ts_wf_def ts_room_def)

lemma ts_whole_init: "n \<le> length buffer \<Longrightarrow> ts_whole (apt_text_stream_init buffer n)"
  by (simp add: ts_whole_def ts_wf_def apt_text_stream_init_def apt_text_stream_reset_def)

lemma ts_whole_ext: "ts_whole s \<Longrightarrow> ts_ext s cs s' \<Longrightarrow> length cs \<le> ts_room s \<Longrightarrow> ts_whole s'"
  by (auto simp: ts_whole_def ts_wf_def ts_ext_def ts_room_def)

lemma body_write_part:
  assumes "ts_whole s" "k < length buf"
  defines "n \<equiv> min (length buf - k) (ts_room s)"
  obtains s' where "apt_message_body_write (length buf) buf (take k buf) s =
      Some (length buf - k \<le> ts_room s, take (k + n) buf, s')"
    and "ts_ext s (take n (drop k buf)) s'" "ts_whole s'"
proof -
  have len: "length (take n (drop k buf)) = n" by (simp add: n_def)
  have fits: "ts_pos s + n \<le> length (ts_mem s)"
    using assms(1) by (auto simp: ts_whole_def ts_wf_def n_def ts_room_def)
  obtain s' where s': "ts_put (take n (drop k buf)) s = Some s'" "ts_ext s (take n (drop k buf)) s'"
    using ts_put_ext [of s "take n (drop k buf)"] fits len by auto
  have "ts_whole s'" by (rule ts_whole_ext [OF assms(1) s'(2)]) (simp add: n_def)
  moreover have "apt_message_body_write (length buf) buf (take k buf) s =
      Some (length buf - k \<le> ts_room s, take (k + n) buf, s')"
    using assms(2) s'(1) ts_whole_room [OF assms(1)] by (simp add: apt_message_body_write_def Let_def n_def)
  ultimately show ?thesis using s'(2) that by blast
qed

section \<open>Reading\<close>

lemma length_ts_rest_room: "ts_whole s \<Longrightarrow> length (ts_rest s) = ts_room s"
  by (simp add: ts_whole_def ts_room_def length_ts_rest)

text \<open>The body grows by what the stream holds, up to the length that was announced.\<close>

lemma body_read_part:
  assumes "ts_whole s"
  shows "apt_message_body_read n body s =
    Some (n - length body \<le> ts_room s, body @ take (n - length body) (ts_rest s),
          s\<lparr>ts_pos := ts_pos s + min (n - length body) (ts_room s)\<rparr>)"
proof -
  let ?k = "min (n - length body) (ts_room s)"
  have "ts_pos s + ?k \<le> length (ts_mem s)"
    using assms by (auto simp: ts_whole_def ts_wf_def ts_room_def)
  moreover have "take ?k (drop (ts_pos s) (ts_mem s)) = take (n - length body) (ts_rest s)"
    by (simp add: ts_rest_def ts_room_def min.commute)
  ultimately show ?thesis
    using ts_whole_room [OF assms] by (simp add: apt_message_body_read_def Let_def)
qed

text \<open>Behind a complete line there is no segmentation of the end of line.\<close>

lemma crlf_test_eol:
  assumes "ts_wf s" "ts_rest s = xs @ CRLF @ rest"
  shows "apt_crlf_segmentation_test p (s\<lparr>ts_pos := ts_pos s + (length xs + 2)\<rparr>) = Some p"
proof -
  have le: "ts_pos s + (length xs + 2) \<le> length (ts_mem s)"
    using assms length_ts_rest [OF assms(1)] by (auto simp: ts_wf_def)
  have lt: "length xs + 1 < ts_end s - ts_pos s" using assms(2) length_ts_rest [OF assms(1)] by simp
  have "ts_mem s ! (ts_pos s + (length xs + 1)) = ts_rest s ! (length xs + 1)"
    using lt le unfolding ts_rest_def by (subst nth_take) simp_all
  then have "ts_mem s ! (ts_pos s + (length xs + 1)) = APT_TOKEN_LF"
    using assms(2) by (simp add: nth_append)
  moreover have "ts_end s - 1 = ts_pos s + (length xs + 1)" if "ts_pos s + (length xs + 2) = ts_end s"
    using that by simp
  ultimately show ?thesis
    using le by (auto simp: apt_crlf_segmentation_test_def)
qed

lemma crlf_test_inside: "ts_pos s < ts_end s \<Longrightarrow> apt_crlf_segmentation_test p s = Some p"
  by (simp add: apt_crlf_segmentation_test_def)

lemma ts_whole_advance: "ts_whole s \<Longrightarrow> n \<le> ts_room s \<Longrightarrow> ts_whole (s\<lparr>ts_pos := ts_pos s + n\<rparr>)"
  by (auto simp: ts_whole_def ts_wf_def ts_room_def)

section \<open>Progress of the readers\<close>

text \<open>A reader moves the cursor over what is left, and may notice the end of the stream.\<close>

definition ts_reads :: "apt_text_stream \<Rightarrow> apt_text_stream \<Rightarrow> bool" where
  "ts_reads s s' \<longleftrightarrow>
     (\<exists>k e. s' = s\<lparr>ts_pos := ts_pos s + k, is_eos := e\<rparr> \<and> k \<le> length (ts_rest s) \<and> (is_eos s \<longrightarrow> e))"

lemma ts_reads_refl [simp]: "ts_reads s s"
  unfolding ts_reads_def by (rule exI [of _ 0], rule exI [of _ "is_eos s"]) simp

lemma ts_reads_advance: "k \<le> length (ts_rest s) \<Longrightarrow> ts_reads s (s\<lparr>ts_pos := ts_pos s + k\<rparr>)"
  unfolding ts_reads_def by (rule exI [of _ k], rule exI [of _ "is_eos s"]) simp

lemma ts_reads_eos: "ts_reads s (s\<lparr>is_eos := True\<rparr>)"
  unfolding ts_reads_def by (rule exI [of _ 0], rule exI [of _ True]) simp

lemma ts_reads_wf:
  assumes "ts_wf s" "ts_reads s s'"
  shows "ts_wf s'" "ts_pos s \<le> ts_pos s'" "ts_end s' = ts_end s" "ts_mem s' = ts_mem s" "ts_buf s' = ts_buf s"
    "ts_length s' = ts_length s" "is_eos s \<Longrightarrow> is_eos s'" "ts_rest s' = drop (ts_pos s' - ts_pos s) (ts_rest s)"
proof -
  obtain k e where s': "s' = s\<lparr>ts_pos := ts_pos s + k, is_eos := e\<rparr>" "k \<le> length (ts_rest s)" "is_eos s \<longrightarrow> e"
    using assms(2) by (auto simp: ts_reads_def)
  have rest: "ts_rest (t\<lparr>is_eos := e\<rparr>) = ts_rest t" for t by (simp add: ts_rest_def)
  show "ts_wf s'" "ts_rest s' = drop (ts_pos s' - ts_pos s) (ts_rest s)"
    using ts_advance [OF assms(1) s'(2)] by (auto simp: s'(1) ts_wf_def ts_rest_def)
  show "ts_pos s \<le> ts_pos s'" "ts_end s' = ts_end s" "ts_mem s' = ts_mem s" "ts_buf s' = ts_buf s"
    "ts_length s' = ts_length s" "is_eos s \<Longrightarrow> is_eos s'"
    using s' by simp_all
qed

lemma ts_reads_trans:
  assumes "ts_wf s" "ts_reads s s'" "ts_reads s' s''"
  shows "ts_reads s s''"
proof -
  obtain k e where s': "s' = s\<lparr>ts_pos := ts_pos s + k, is_eos := e\<rparr>" "k \<le> length (ts_rest s)" "is_eos s \<longrightarrow> e"
    using assms(2) by (auto simp: ts_reads_def)
  obtain l f where s'': "s'' = s'\<lparr>ts_pos := ts_pos s' + l, is_eos := f\<rparr>" "l \<le> length (ts_rest s')" "is_eos s' \<longrightarrow> f"
    using assms(3) by (auto simp: ts_reads_def)
  have "length (ts_rest s') = length (ts_rest s) - k" using ts_reads_wf(8) [OF assms(1,2)] s'(1) by simp
  then show ?thesis
    unfolding ts_reads_def using s' s'' by (intro exI [of _ "k + l"] exI [of _ f]) auto
qed

lemma line_scan_bounds: "line_scan cs = (l, Some n) \<Longrightarrow> 0 < n \<and> n \<le> length cs"
  by (induction cs arbitrary: l n) (auto simp: cr_length_def split: if_splits list.splits prod.splits)

lemma line_read_reads:
  assumes "apt_text_line_read s = (b, line, s')"
  shows "ts_reads s s'" and "if b then ts_pos s < ts_pos s' else is_eos s'"
proof -
  show "ts_reads s s'"
  proof (cases "line_scan (ts_rest s)")
    case (Pair l n)
    then show ?thesis
      using assms line_scan_bounds [of "ts_rest s" l]
      by (cases n) (auto simp: apt_text_line_read_def intro: ts_reads_advance ts_reads_eos)
  qed
  show "if b then ts_pos s < ts_pos s' else is_eos s'"
    using assms line_scan_bounds [of "ts_rest s"] by (auto simp: apt_text_line_read_def split: prod.splits option.splits)
qed

lemma cr_length_bound: "cr_length cs \<le> Suc (length cs)"
  by (simp add: cr_length_def split: list.split)

lemma header_scan_bounds: "fst (header_scan cs i nb nl vb) \<Longrightarrow> fst (snd (header_scan cs i nb nl vb)) \<le> i + length cs"
proof (induction cs arbitrary: i nb nl vb)
  case (Cons c cs)
  have "fst (snd (header_scan cs (Suc i) nb' nl' vb')) \<le> Suc (i + length cs)" if "fst (header_scan cs (Suc i) nb' nl' vb')"
    for nb' nl' vb'
    using Cons.IH [OF that] by simp
  then show ?case
    using Cons.prems cr_length_bound [of cs]
    by (cases "c = APT_TOKEN_CR"; cases "c = APT_TOKEN_LF"; cases "nl = 0") (simp_all add: Let_def split del: if_split)
qed simp

lemma header_read_reads:
  assumes "apt_text_header_read s = (b, name, val, s')"
  shows "ts_reads s s'"
proof -
  obtain status n r where sc: "header_scan (ts_rest s) 0 None 0 None = (status, n, r)" by (metis prod_cases3)
  show ?thesis
  proof (cases status)
    case True
    then have "n \<le> length (ts_rest s)" using header_scan_bounds [of "ts_rest s" 0 None 0 None] sc by simp
    then show ?thesis
      using assms sc True by (auto simp: apt_text_header_read_def Let_def split: prod.splits intro: ts_reads_advance)
  next
    case False
    then show ?thesis
      using assms sc by (auto simp: apt_text_header_read_def Let_def split: prod.splits intro: ts_reads_eos)
  qed
qed

lemma skip_reads: "ts_reads s (ts_skip P s)"
  unfolding ts_skip_def by (rule ts_reads_advance) (rule length_takeWhile_le)

lemma fold_lines_reads: "ts_wf s \<Longrightarrow> fold_lines s = (ls, s') \<Longrightarrow> ts_reads s s'"
proof (induction s arbitrary: ls s' rule: fold_lines.induct)
  case (1 s)
  show ?case
  proof (cases "ts_rest s = [] \<or> \<not> apt_text_is_wsp (hd (ts_rest s))")
    case True
    then show ?thesis using 1(3) fold_lines_stop [OF True] by simp
  next
    case False
    then obtain c cs where c: "ts_rest s = c # cs" "\<not> \<not> apt_text_is_wsp c" by (cases "ts_rest s") auto
    define s0 where "s0 = s\<lparr>ts_pos := ts_pos s + 1\<rparr>"
    define s1 where "s1 = apt_text_white_spaces_skip s0"
    obtain b line s2 where s2: "apt_text_line_read s1 = (b, line, s2)" by (metis prod_cases3)
    obtain ls2 s3 where s3: "fold_lines s2 = (ls2, s3)" by fastforce
    have r0: "ts_reads s s0"
      unfolding s0_def using c by (intro ts_reads_advance) simp
    have r1: "ts_reads s0 s1" unfolding s1_def apt_text_white_spaces_skip_def by (rule skip_reads)
    note r2 = line_read_reads(1) [OF s2]
    have wf0: "ts_wf s0" by (rule ts_reads_wf(1) [OF 1(2) r0])
    have wf1: "ts_wf s1" by (rule ts_reads_wf(1) [OF wf0 r1])
    have wf2: "ts_wf s2" by (rule ts_reads_wf(1) [OF wf1 r2])
    have "s' = s3"
      using 1(3) c s2 s3 by (subst (asm) fold_lines.simps) (simp add: s1_def s0_def)
    moreover have "ts_reads s2 s3"
      using 1(1) [OF c s1_def [unfolded s0_def] s2 [symmetric] refl refl wf2 s3] .
    ultimately show ?thesis
      using ts_reads_trans [OF 1(2) r0 ts_reads_trans [OF wf0 r1 ts_reads_trans [OF wf1 r2]]] by simp
  qed
qed

lemma field_parse_reads:
  assumes "ts_wf s" "apt_header_field_parse s = (f, s')"
  shows "ts_reads s s'" and "is_eos s' \<or> ts_pos s < ts_pos s'"
proof -
  obtain b name val s1 where r: "apt_text_header_read s = (b, name, val, s1)" by (metis prod_cases4)
  obtain ls s2 where l: "fold_lines s1 = (ls, s2)" by fastforce
  have s': "s' = s1 \<or> s' = s2"
    using assms(2) r l by (auto simp: apt_header_field_parse_def Let_def split: if_splits)
  note r1 = header_read_reads [OF r]
  have wf: "ts_wf s1" by (rule ts_reads_wf(1) [OF assms(1) r1])
  note r2 = fold_lines_reads [OF wf l]
  show "ts_reads s s'" using s' r1 ts_reads_trans [OF assms(1) r1 r2] by auto
  show "is_eos s' \<or> ts_pos s < ts_pos s'"
    using header_read_pos(2) [OF r] s' ts_reads_wf(2,7) [OF wf r2] by auto
qed

lemma section_parse_reads:
  assumes "ts_wf s" "apt_header_section_parse pool h s = (b, h', s', n)"
  shows "ts_reads s s' \<and> (b \<or> apt_text_is_eos s') \<and> (is_eos s' \<or> ts_pos s < ts_pos s')"
  using assms
proof (induction pool h s arbitrary: b h' s' n rule: apt_header_section_parse.induct)
  case (1 pool h s)
  obtain f s1 where p: "apt_header_field_parse s = (f, s1)" by fastforce
  note r = field_parse_reads [OF 1(3) p]
  have wf: "ts_wf s1" by (rule ts_reads_wf(1) [OF 1(3) r(1)])
  have rec: ?case if "apt_header_section_parse q g s1 = (b, h', s', n)"
    "ts_reads s1 s' \<and> (b \<or> apt_text_is_eos s') \<and> (is_eos s' \<or> ts_pos s1 < ts_pos s')" for q g
    using that(2) ts_reads_trans [OF 1(3) r(1)] ts_reads_wf(2) [OF 1(3) r(1)] by auto
  show ?case
  proof (cases "(\<exists>g. f = Some g \<and> hf_name g = []) \<or> apt_text_is_eos s1")
    case True
    then have "s' = s1 \<and> (b \<or> apt_text_is_eos s1)"
      using 1(4) p by (subst (asm) apt_header_section_parse.simps) (auto simp: Let_def split: option.splits if_splits)
    then show ?thesis using r by auto
  next
    case False
    then show ?thesis
    proof (cases f)
      case None
      then have "apt_header_section_parse pool h s1 = (b, h', s', n)"
        using 1(4) p False by (subst (asm) apt_header_section_parse.simps) simp
      with None False show ?thesis using 1(1) [OF p [symmetric] None _ wf] rec by auto
    next
      case (Some g)
      let ?h = "snd (apt_header_section_field_add (pool, g) h)"
      have "apt_header_section_parse (pool + 1) ?h s1 = (b, h', s', n)"
        using 1(4) p False Some by (subst (asm) apt_header_section_parse.simps) (simp add: Let_def)
      with Some False show ?thesis using 1(2) [OF p [symmetric] Some _ refl _ wf] rec by auto
    qed
  qed
qed

lemma char_skip_reads: "ts_reads s (apt_text_char_skip ch s)"
  by (auto simp: apt_text_char_skip_def split: list.splits intro: ts_reads_advance [of 1, simplified])

lemma ts_whole_reads: "ts_whole s \<Longrightarrow> ts_reads s s' \<Longrightarrow> ts_whole s'"
  using ts_reads_wf [of s s'] by (auto simp: ts_whole_def)

lemma crlf_test_parser:
  "apt_crlf_segmentation_test p s = Some p' \<Longrightarrow> p' = p \<or> p' = p\<lparr>skip_lf := True\<rparr>"
  by (auto simp: apt_crlf_segmentation_test_def split: if_splits)

text \<open>A parser that waits for the rest of a body has not got all of it.\<close>

definition parser_ok :: "'m apt_message_parser_vtable \<Rightarrow> 'm apt_message_parser \<Rightarrow> bool" where
  "parser_ok vt p \<longleftrightarrow>
     (stage p = APT_MESSAGE_STAGE_BODY \<longrightarrow>
        (\<exists>m. context_message p = Some m \<and> length (ctx_body vt m) < parser_content_length p))"

lemma parser_ok_create [simp]: "parser_ok vt apt_message_parser_create"
  by (simp add: parser_ok_def apt_message_parser_create_def)

text \<open>What a run of the parser does to the stream: it reads, and unless it reaches the end it gets ahead.\<close>

definition run_reads ::
  "'m apt_message_parser_vtable \<Rightarrow> apt_text_stream \<Rightarrow> 'm parser_result \<Rightarrow> bool"
where
  "run_reads vt s r \<longleftrightarrow>
     (case r of (status, m, p, s', n) \<Rightarrow>
        ts_reads s s' \<and> (apt_text_is_eos s' \<or> ts_pos s < ts_pos s') \<and>
        (status = APT_MESSAGE_STATUS_INCOMPLETE \<longrightarrow> apt_text_is_eos s') \<and> parser_ok vt p)"

lemma run_reads_after:
  assumes "ts_wf s" "ts_reads s s1" "run_reads vt s1 r"
  shows "run_reads vt s r"
  using assms ts_reads_trans [OF assms(1,2)] ts_reads_wf(2) [OF assms(1,2)] by (auto simp: run_reads_def)

text \<open>What the parser relies on: starting a message reads the stream, and the body that is stored is read back.\<close>

locale message_reader =
  fixes vt :: "'m apt_message_parser_vtable"
  assumes start_reads: "\<lbrakk>ts_wf s; on_start vt s = (r, s')\<rbrakk> \<Longrightarrow> ts_reads s s' \<and> (is_eos s' \<or> ts_pos s < ts_pos s')"
    and body_put: "ctx_body vt (ctx_body_put vt b m) = b"
begin

lemma body_stage_reads:
  assumes "ts_whole s" "parser_ok vt p" "stage p = APT_MESSAGE_STAGE_BODY" "parser_body_stage vt pool p s = Some r"
  shows "run_reads vt s r"
proof -
  obtain m where m: "context_message p = Some m" "length (ctx_body vt m) < parser_content_length p"
    using assms(2,3) by (auto simp: parser_ok_def)
  let ?k = "parser_content_length p - length (ctx_body vt m)"
  let ?s = "s\<lparr>ts_pos := ts_pos s + min ?k (ts_room s)\<rparr>"
  have "ts_reads s ?s" by (rule ts_reads_advance) (simp add: length_ts_rest_room [OF assms(1)])
  moreover have "apt_text_is_eos ?s" if "\<not> ?k \<le> ts_room s"
    using that by (auto simp: apt_text_is_eos_def ts_room_def min_def)
  moreover have "apt_text_is_eos ?s \<or> ts_pos s < ts_pos ?s"
    using m(2) by (cases "ts_room s = 0") (auto simp: apt_text_is_eos_def ts_room_def)
  moreover have "length (take ?k (ts_rest s)) < ?k" if "\<not> ?k \<le> ts_room s"
    using that by (simp add: length_ts_rest_room [OF assms(1)])
  ultimately show ?thesis
    using assms(4) m body_read_part [OF assms(1), of "parser_content_length p" "ctx_body vt m"]
    by (auto simp: parser_body_stage_def run_reads_def parser_ok_def body_put Let_def split: if_splits)
qed

lemma header_stage_reads:
  assumes "ts_whole s" "stage p = APT_MESSAGE_STAGE_HEADER" "parser_header_stage vt pool p s = Some r"
  shows "run_reads vt s r"
proof -
  obtain m where m: "context_message p = Some m"
    using assms(3) by (auto simp: parser_header_stage_def split: bind_splits)
  obtain b sec s1 n where sec: "apt_header_section_parse pool (ctx_header vt m) s = (b, sec, s1, n)" by (metis prod_cases4)
  have wf: "ts_wf s" using assms(1) by (simp add: ts_whole_def)
  note reads = section_parse_reads [OF wf sec]
  then have whole: "ts_whole s1" using ts_whole_reads [OF assms(1)] by blast
  let ?p = "p\<lparr>context_message := Some (ctx_header_put vt sec m)\<rparr>"
  obtain p1 where p1: "apt_crlf_segmentation_test ?p s1 = Some p1"
    using assms(3) m sec by (auto simp: parser_header_stage_def Let_def split: bind_splits)
  have st: "stage p1 = APT_MESSAGE_STAGE_HEADER" using crlf_test_parser [OF p1] assms(2) by auto
  have eos: "apt_text_is_eos s1 \<or> ts_pos s < ts_pos s1" using reads by (auto simp: apt_text_is_eos_def)
  show ?thesis
  proof (cases "\<exists>m1 k. b \<and> on_header_complete vt (ctx_header_put vt sec m) = Some (True, m1, k) \<and> k \<noteq> 0")
    case True
    then obtain m1 k where k: "b" "on_header_complete vt (ctx_header_put vt sec m) = Some (True, m1, k)" "k \<noteq> 0" by blast
    let ?q = "p1\<lparr>context_message := Some (ctx_body_put vt [] m1), parser_content_length := k, stage := APT_MESSAGE_STAGE_BODY\<rparr>"
    have "parser_body_stage vt n ?q s1 = Some r"
      using assms(3) m sec p1 k by (simp add: parser_header_stage_def Let_def split: if_splits)
    moreover have "parser_ok vt ?q" using k(3) by (simp add: parser_ok_def body_put)
    ultimately have "run_reads vt s1 r" by (intro body_stage_reads [OF whole]) simp_all
    then show ?thesis using run_reads_after [OF wf] reads by blast
  next
    case False
    then have "\<exists>status m' p'. r = (status, m', p', s1, n) \<and> stage p' \<noteq> APT_MESSAGE_STAGE_BODY \<and>
        (status = APT_MESSAGE_STATUS_INCOMPLETE \<longrightarrow> \<not> b)"
      using assms(3) m sec p1 st by (auto simp: parser_header_stage_def Let_def split: if_splits bind_splits)
    then show ?thesis using reads eos by (auto simp: run_reads_def parser_ok_def)
  qed
qed

lemma parser_run_reads:
  assumes "ts_whole s" "parser_ok vt p" "apt_message_parser_run vt pool p s = Some r"
  shows "run_reads vt s r"
proof -
  define s1 where "s1 = (if skip_lf p then apt_text_char_skip APT_TOKEN_LF s else s)"
  define q where "q = p\<lparr>skip_lf := False\<rparr>"
  have wf: "ts_wf s" using assms(1) by (simp add: ts_whole_def)
  have r1: "ts_reads s s1" by (simp add: s1_def char_skip_reads)
  note whole = ts_whole_reads [OF assms(1) r1]
  have ok: "parser_ok vt q" using assms(2) by (simp add: q_def parser_ok_def)
  note run = assms(3) [unfolded apt_message_parser_run_def Let_def, folded s1_def q_def]
  have "run_reads vt s1 r"
  proof (cases "stage q")
    case APT_MESSAGE_STAGE_START_LINE
    obtain mo s2 where start: "on_start vt s1 = (mo, s2)" by fastforce
    have wf1: "ts_wf s1" using whole by (simp add: ts_whole_def)
    note r2 = start_reads [OF wf1 start]
    show ?thesis
    proof (cases mo)
      case None
      then show ?thesis
        using run APT_MESSAGE_STAGE_START_LINE start r2
        by (auto simp: run_reads_def parser_ok_def apt_text_is_eos_def split: if_splits)
    next
      case (Some m)
      then obtain p1 where p1: "apt_crlf_segmentation_test (q\<lparr>context_message := Some m\<rparr>) s2 = Some p1"
          "parser_header_stage vt pool (p1\<lparr>stage := APT_MESSAGE_STAGE_HEADER\<rparr>) s2 = Some r"
        using run APT_MESSAGE_STAGE_START_LINE start by (auto split: bind_splits)
      have "run_reads vt s2 r"
        by (rule header_stage_reads [OF _ _ p1(2)]) (use ts_whole_reads [OF whole] r2 in auto)
      then show ?thesis using run_reads_after [OF wf1] r2 by blast
    qed
  next
    case APT_MESSAGE_STAGE_HEADER
    then show ?thesis using run by (intro header_stage_reads [OF whole]) simp_all
  next
    case APT_MESSAGE_STAGE_BODY
    then show ?thesis using run by (intro body_stage_reads [OF whole ok]) simp_all
  qed
  then show ?thesis by (rule run_reads_after [OF wf r1])
qed

end

end
