(* ===== verification/Mrcp_Stream.thy ===== *)
theory Mrcp_Stream
  imports Mrcp_Header_Wire Mrcp_Resource_Factory Apt_Text_Message
begin

text \<open>
  The parser and the generator of MRCP messages, \<open>libs/mrcp/control/src/mrcp_stream.c\<close>: the handlers that
  \<open>apt_message_parser_run\<close> and \<open>apt_message_generator_run\<close> call for an MRCP message.
\<close>

section \<open>The parser\<close>

record ('h, 'r) mrcp_parser =
  base :: "'r mrcp_message apt_message_parser"
  resource_factory :: "('h, 'r) mrcp_resource_factory"
  parser_resource :: "'r mrcp_resource option"

definition mrcp_parser_create :: "('h, 'r) mrcp_resource_factory \<Rightarrow> ('h, 'r) mrcp_parser" where
  "mrcp_parser_create factory = \<lparr>base = apt_message_parser_create, resource_factory = factory, parser_resource = None\<rparr>"

definition mrcp_parser_resource_set ::
  "('h, 'r mrcp_resource) apr_hash_ops \<Rightarrow> ('h, 'r) mrcp_parser \<Rightarrow> apt_str option \<Rightarrow> ('h, 'r) mrcp_parser"
where
  "mrcp_parser_resource_set hash parser name =
     (case name of None \<Rightarrow> parser
      | Some n \<Rightarrow> parser\<lparr>parser_resource := mrcp_resource_find hash (resource_factory parser) n\<rparr>)"

text \<open>\<open>garbage\<close> is what the memory of a new message holds.\<close>

definition mrcp_parser_on_start ::
  "apr_fmt \<Rightarrow> nat \<Rightarrow> ('h, 'r) mrcp_parser \<Rightarrow> apt_text_stream \<Rightarrow> 'r mrcp_message option \<times> apt_text_stream"
where
  "mrcp_parser_on_start apr garbage parser s =
     (case apt_text_line_read s of
        (False, _, s) \<Rightarrow> (None, s)
      | (True, line, s) \<Rightarrow>
          (let m = mrcp_message_create garbage
           in case mrcp_start_line_parse (start_line m) line of
                (False, _) \<Rightarrow> (None, s)
              | (True, sl) \<Rightarrow>
                  (let m = m\<lparr>start_line := sl\<rparr>
                   in if version sl = MRCP_VERSION_1 then
                        (case parser_resource parser of None \<Rightarrow> (None, s)
                         | Some res \<Rightarrow>
                             (case mrcp_message_resource_set apr
                                (m\<lparr>channel_id := (channel_id m)\<lparr>resource_name := res_name res\<rparr>\<rparr>) (Some res) of
                                (False, _) \<Rightarrow> (None, s)
                              | (True, m) \<Rightarrow> (Some m, s)))
                      else (Some m, s))))"

text \<open>The last result is the length of the body after the handler.\<close>

definition header_fields_complete :: "'r mrcp_message \<Rightarrow> (bool \<times> 'r mrcp_message \<times> nat) option" where
  "header_fields_complete m = do {
     (ok, h) \<leftarrow> mrcp_header_fields_parse (header m);
     let m = m\<lparr>header := h\<rparr>;
     let n = (if ok \<and> mrcp_generic_header_property_check m GENERIC_HEADER_CONTENT_LENGTH then
                (case mrcp_generic_header_get m of
                   None \<Rightarrow> length (body m)
                 | Some d \<Rightarrow> if content_length d \<noteq> 0 then content_length d else length (body m))
              else length (body m));
     Some (ok, m, n)
   }"

definition mrcp_parser_on_header_complete ::
  "apr_fmt \<Rightarrow> ('h, 'r mrcp_resource) apr_hash_ops \<Rightarrow> ('h, 'r) mrcp_parser \<Rightarrow> 'r mrcp_message \<Rightarrow>
   (bool \<times> 'r mrcp_message \<times> nat) option"
where
  "mrcp_parser_on_header_complete apr hash parser m =
     (if version (start_line m) = MRCP_VERSION_2 then
        (case mrcp_channel_id_parse (channel_id m) (header m) of
           (False, cid, h) \<Rightarrow> Some (False, m\<lparr>channel_id := cid, header := h\<rparr>, length (body m))
         | (True, cid, h) \<Rightarrow>
             (let m = m\<lparr>channel_id := cid, header := h\<rparr>
              in case mrcp_resource_find hash (resource_factory parser) (resource_name cid) of
                   None \<Rightarrow> Some (False, m, length (body m))
                 | Some res \<Rightarrow>
                     (case mrcp_message_resource_set apr m (Some res) of
                        (False, m) \<Rightarrow> Some (False, m, length (body m))
                      | (True, m) \<Rightarrow> header_fields_complete m)))
      else header_fields_complete m)"

definition parser_vtable ::
  "apr_fmt \<Rightarrow> ('h, 'r mrcp_resource) apr_hash_ops \<Rightarrow> nat \<Rightarrow> ('h, 'r) mrcp_parser \<Rightarrow>
   'r mrcp_message apt_message_parser_vtable"
where
  "parser_vtable apr hash garbage parser =
     \<lparr>on_start = mrcp_parser_on_start apr garbage parser,
      on_header_complete = mrcp_parser_on_header_complete apr hash parser,
      ctx_header = (\<lambda>m. header_section (header m)),
      ctx_header_put = (\<lambda>sec m. m\<lparr>header := (header m)\<lparr>header_section := sec\<rparr>\<rparr>),
      ctx_body = body, ctx_body_put = (\<lambda>b m. m\<lparr>body := b\<rparr>)\<rparr>"

definition mrcp_parser_run ::
  "apr_fmt \<Rightarrow> ('h, 'r mrcp_resource) apr_hash_ops \<Rightarrow> nat \<Rightarrow> nat \<Rightarrow> ('h, 'r) mrcp_parser \<Rightarrow> apt_text_stream \<Rightarrow>
   (apt_message_status_e \<times> 'r mrcp_message option \<times> ('h, 'r) mrcp_parser \<times> apt_text_stream \<times> nat) option"
where
  "mrcp_parser_run apr hash garbage pool parser s = do {
     (status, m, b, s, pool) \<leftarrow> apt_message_parser_run (parser_vtable apr hash garbage parser) pool (base parser) s;
     Some (status, m, parser\<lparr>base := b\<rparr>, s, pool)
   }"

section \<open>The generator\<close>

type_synonym mrcp_generator = apt_message_generator

definition mrcp_generator_create :: mrcp_generator where
  "mrcp_generator_create = apt_message_generator_create"

text \<open>The result of generating the channel identifier is not used.\<close>

definition channel_id_line_generate :: "'r mrcp_message \<Rightarrow> apt_text_stream \<Rightarrow> apt_text_stream option" where
  "channel_id_line_generate m s =
     (if version (start_line m) = MRCP_VERSION_2 then map_option snd (mrcp_channel_id_generate (channel_id m) s) else Some s)"

definition mrcp_generator_on_start ::
  "apr_fmt \<Rightarrow> 'r mrcp_message \<Rightarrow> apt_text_stream \<Rightarrow> (bool \<times> bool \<times> 'r mrcp_message \<times> apt_text_stream) option"
where
  "mrcp_generator_on_start apr m s = do {
     (ok, m) \<leftarrow> mrcp_message_validate m;
     if \<not> ok then Some (False, False, m, s)
     else do {
       (ok, sl, s) \<leftarrow> mrcp_start_line_generate apr (start_line m) s;
       let m = m\<lparr>start_line := sl\<rparr>;
       if \<not> ok then Some (False, False, m, s)
       else do { s \<leftarrow> channel_id_line_generate m s; Some (True, True, m, s) }
     }
   }"

definition mrcp_generator_on_header_complete ::
  "'r mrcp_message \<Rightarrow> apt_text_stream \<Rightarrow> (bool \<times> 'r mrcp_message \<times> apt_text_stream) option"
where
  "mrcp_generator_on_header_complete m s = do {
     (ok, sl, s) \<leftarrow> mrcp_start_line_finalize (start_line m) (length (body m)) s;
     Some (ok, m\<lparr>start_line := sl\<rparr>, s)
   }"

definition generator_vtable :: "apr_fmt \<Rightarrow> 'r mrcp_message apt_message_generator_vtable" where
  "generator_vtable apr =
     \<lparr>gen_on_start = mrcp_generator_on_start apr, gen_on_header_complete = mrcp_generator_on_header_complete,
      gen_header = (\<lambda>m. header_section (header m)), gen_body = body, gen_body_put = (\<lambda>b m. m\<lparr>body := b\<rparr>)\<rparr>"

definition mrcp_generator_run ::
  "apr_fmt \<Rightarrow> mrcp_generator \<Rightarrow> nat \<Rightarrow> string \<Rightarrow> 'r mrcp_message \<Rightarrow> apt_text_stream \<Rightarrow>
   'r mrcp_message generator_result option"
where
  "mrcp_generator_run apr = apt_message_generator_run (generator_vtable apr)"

text \<open>The message without its body.\<close>

definition mrcp_message_generate ::
  "apr_fmt \<Rightarrow> 'r mrcp_message \<Rightarrow> apt_text_stream \<Rightarrow> (bool \<times> 'r mrcp_message \<times> apt_text_stream) option"
where
  "mrcp_message_generate apr m s = do {
     (ok, m) \<leftarrow> mrcp_message_validate m;
     if \<not> ok then Some (False, m, s)
     else do {
       (ok, sl, s) \<leftarrow> mrcp_start_line_generate apr (start_line m) s;
       let m = m\<lparr>start_line := sl\<rparr>;
       if \<not> ok then Some (False, m, s)
       else do {
         s \<leftarrow> channel_id_line_generate m s;
         (ok, s) \<leftarrow> apt_header_section_generate (header_section (header m)) s;
         if \<not> ok then Some (False, m, s)
         else do {
           (ok, sl, s) \<leftarrow> mrcp_start_line_finalize (start_line m) (length (body m)) s;
           Some (ok, m\<lparr>start_line := sl\<rparr>, s)
         }
       }
     }
   }"

section \<open>The parser gets ahead\<close>

interpretation mrcp_reader: message_reader "parser_vtable apr hash garbage parser"
  for apr hash garbage parser
proof (unfold_locales, goal_cases)
  case (1 s r s')
  obtain b line s1 where l: "apt_text_line_read s = (b, line, s1)" by (metis prod_cases3)
  have "s' = s1"
    using 1(2) l by (auto simp: parser_vtable_def mrcp_parser_on_start_def Let_def
      split: if_splits bool.splits prod.splits option.splits)
  then show ?case using line_read_reads [OF l] by (auto split: if_splits)
next
  case (2 b m)
  show ?case by (simp add: parser_vtable_def)
qed

text \<open>A parser that waits for the rest of a body has not got all of it.\<close>

definition receiving :: "('h, 'r) mrcp_parser \<Rightarrow> bool" where
  "receiving parser \<longleftrightarrow>
     (stage (base parser) = APT_MESSAGE_STAGE_BODY \<longrightarrow>
        (\<exists>m. context_message (base parser) = Some m \<and> length (body m) < parser_content_length (base parser)))"

lemma receiving_create [simp]: "receiving (mrcp_parser_create factory)"
  by (simp add: receiving_def mrcp_parser_create_def apt_message_parser_create_def)

lemma mrcp_parser_run_reads:
  assumes "ts_whole s" "receiving parser" "mrcp_parser_run apr hash garbage pool parser s = Some (status, m, parser', s', n)"
  shows "receiving parser'" "ts_whole s'" "ts_reads s s'" "apt_text_is_eos s' \<or> ts_pos s < ts_pos s'"
    "status = APT_MESSAGE_STATUS_INCOMPLETE \<Longrightarrow> apt_text_is_eos s'"
proof -
  let ?vt = "parser_vtable apr hash garbage parser"
  obtain b where b: "apt_message_parser_run ?vt pool (base parser) s = Some (status, m, b, s', n)" "parser' = parser\<lparr>base := b\<rparr>"
    using assms(3) by (auto simp: mrcp_parser_run_def split: bind_splits)
  have "parser_ok ?vt (base parser)" using assms(2) by (simp add: parser_ok_def receiving_def parser_vtable_def)
  from mrcp_reader.parser_run_reads [OF assms(1) this b(1)]
  have r: "ts_reads s s'" "apt_text_is_eos s' \<or> ts_pos s < ts_pos s'" "parser_ok ?vt b"
      "status = APT_MESSAGE_STATUS_INCOMPLETE \<longrightarrow> apt_text_is_eos s'"
    by (auto simp: run_reads_def)
  show "receiving parser'" using r(3) b(2) by (simp add: parser_ok_def receiving_def parser_vtable_def)
  show "ts_whole s'" by (rule ts_whole_reads [OF assms(1) r(1)])
  show "ts_reads s s'" "apt_text_is_eos s' \<or> ts_pos s < ts_pos s'"
    "status = APT_MESSAGE_STATUS_INCOMPLETE \<Longrightarrow> apt_text_is_eos s'"
    using r by auto
qed

section \<open>What is generated\<close>

text \<open>The channel identifier is a header field that is not in the section; it comes first.\<close>

definition channel_field :: "mrcp_channel_id \<Rightarrow> apt_header_field" where
  "channel_field cid =
     \<lparr>hf_name = MRCP_CHANNEL_ID, hf_value = apt_id_resource_generate (session_id cid) (resource_name cid) (CHR ''@''),
      hf_id = UNKNOWN_HEADER_FIELD_ID\<rparr>"

definition wire_ring :: "'r mrcp_message \<Rightarrow> field_obj list" where
  "wire_ring m = (0, channel_field (channel_id m)) # hs_ring (header_section (header m))"

definition v2_line :: "mrcp_start_line \<Rightarrow> nat \<Rightarrow> string" where
  "v2_line sl n = version_text MRCP_VERSION_2 @ APT_TOKEN_SP # dec n @ APT_TOKEN_SP # v2_tail sl"

definition wire_head :: "'r mrcp_message \<Rightarrow> nat \<Rightarrow> string" where
  "wire_head m n = v2_line (start_line m) n @ CRLF @ ring_text (wire_ring m) @ CRLF"

text \<open>The room the head of a message needs; the length takes at most seven characters.\<close>

definition head_size :: "'r mrcp_message \<Rightarrow> nat" where
  "head_size m = length (v2_text (start_line m)) + length (ring_text (wire_ring m)) + 2"

lemma ring_text_Cons: "ring_text (f # ring) = field_line (snd f) @ ring_text ring"
  by (simp add: ring_text_def)

lemma channel_id_generated:
  assumes "ts_wf s" "ts_pos s + length (field_line (channel_field cid)) < ts_end s"
  obtains s' where "mrcp_channel_id_generate cid s = Some (True, s')" "ts_wf s'" "ts_ext s (field_line (channel_field cid)) s'"
proof -
  let ?name = "MRCP_CHANNEL_ID" and ?sep = "[CHR '':'', APT_TOKEN_SP]"
  have len: "ts_pos s + (length ?name + (2 + (length (session_id cid) + (1 + (length (resource_name cid) + 2))))) < ts_end s"
    using assms(2) by (simp add: field_line_def channel_field_def apt_id_resource_generate_def)
  let ?puts = "do { s1 \<leftarrow> ts_put ?name s; s2 \<leftarrow> ts_put ?sep s1; s3 \<leftarrow> ts_put (session_id cid) s2; s4 \<leftarrow> ts_put ''@'' s3;
    ts_put (resource_name cid) s4 }"
  have "ts_emits s (?name @ ?sep @ session_id cid @ ''@'' @ resource_name cid) ?puts"
    by (intro ts_emits_bind ts_emits_put assms(1)) (use len in \<open>auto dest!: ts_ext_pos\<close>)
  then obtain s5 where s5: "?puts = Some s5" "ts_wf s5" "ts_ext s (?name @ ?sep @ session_id cid @ ''@'' @ resource_name cid) s5"
    by (auto simp: ts_emits_def)
  have "ts_pos s5 + 2 < ts_end s5"
    using len ts_ext_pos [OF s5(3)] by simp
  then obtain s6 where s6: "apt_text_eol_insert s5 = Some (True, s6)" "ts_wf s6" "ts_ext s5 CRLF s6"
    using ts_writes_eol [OF s5(2)] by (auto simp: ts_writes_def split: option.splits)
  have "mrcp_channel_id_generate cid s = ?puts \<bind> apt_text_eol_insert"
    using len by (simp add: mrcp_channel_id_generate_def)
  then have "mrcp_channel_id_generate cid s = Some (True, s6)"
    using s5(1) s6(1) by simp
  moreover have "ts_ext s (field_line (channel_field cid)) s6"
    using ts_ext_trans [OF s5(3) s6(3)] by (simp add: field_line_def channel_field_def apt_id_resource_generate_def)
  ultimately show ?thesis using s6(2) that by blast
qed

lemma finalize_window:
  assumes "mrcp_start_line_finalize sl n s = Some (b, sl', s')" "MAX_DIGIT_COUNT \<le> ts_length s"
  shows "ts_buf s' + ts_length s' = ts_buf s + ts_length s"
  using assms by (auto simp: mrcp_start_line_finalize_def Let_def split: prod.splits option.splits if_splits)

text \<open>The head of a version 2 message, as both generators write it.\<close>

lemma head_generated:
  assumes apr: "apr_fmt_ok apr" and s: "ts_wf s" "ts_pos s = ts_buf s" "ts_buf s + ts_length s = ts_end s"
    and m: "mrcp_message_validate m = Some (True, m1)" "version (start_line m1) = MRCP_VERSION_2"
    and room: "ts_pos s + head_size m1 < ts_end s" "head_size m1 + length (body m1) + 1 < 10 ^ 6"
  obtains m2 s2 s3 n s4 where "mrcp_generator_on_start apr m s = Some (True, True, m2, s2)"
    and "apt_header_section_generate (header_section (header m2)) s2 = Some (True, s3)"
    and "mrcp_generator_on_header_complete m2 s3 = Some (True, m1\<lparr>start_line := (start_line m1)\<lparr>sl_length := n\<rparr>\<rparr>, s4)"
    and "ts_written s4 = wire_head m1 n" "n = length (wire_head m1 n) + length (body m1)" "n < 10 ^ 6"
    and "ts_wf s4" "ts_buf s4 + ts_length s4 = ts_end s4" "ts_end s4 = ts_end s" "is_eos s4 = is_eos s"
    and "ts_pos s4 = ts_pos s + head_size m1" "length (ts_mem s4) = length (ts_mem s)"
proof -
  let ?sl = "start_line m1" and ?ring = "hs_ring (header_section (header m1))"
  let ?m2 = "m1\<lparr>start_line := ?sl\<lparr>sl_length := 9\<rparr>\<rparr>" and ?cf = "field_line (channel_field (channel_id m1))"
  have size: "head_size m1 = length (v2_text ?sl) + (length ?cf + (length (ring_text ?ring) + 2))"
    by (simp add: head_size_def wire_ring_def ring_text_Cons)
  have fits: "ts_pos s + length (v2_text ?sl) < ts_end s" using room(1) size by simp
  obtain s1 where s1: "mrcp_start_line_generate apr ?sl s = Some (True, ?sl\<lparr>sl_length := 9\<rparr>, s1)" "ts_wf s1"
      "ts_ext s (v2_text ?sl) s1"
    by (rule v2_start_line_generate [OF apr s(1) m(2) fits])
  have "ts_pos s1 + length ?cf < ts_end s1" using ts_ext_pos [OF s1(3)] room(1) size by simp
  with s1(2) obtain s2 where s2: "mrcp_channel_id_generate (channel_id m1) s1 = Some (True, s2)" "ts_wf s2" "ts_ext s1 ?cf s2"
    by (rule channel_id_generated)
  have "ts_pos s2 + length (ring_text ?ring @ CRLF) < ts_end s2"
    using ts_ext_pos [OF s1(3)] ts_ext_pos [OF s2(3)] room(1) size by simp
  with s2(2) obtain s3 where s3: "apt_header_section_generate (header_section (header m1)) s2 = Some (True, s3)" "ts_wf s3"
      "ts_ext s2 (ring_text ?ring @ CRLF) s3"
    by (rule section_generate_text)
  note ext = ts_ext_trans [OF s1(3) ts_ext_trans [OF s2(3) s3(3)]]
  let ?P = "version_text MRCP_VERSION_2 @ [APT_TOKEN_SP]" and ?Z = "v2_tail ?sl @ CRLF @ ring_text (wire_ring m1) @ CRLF"
  have w: "ts_written s3 = ?P @ replicate 7 APT_TOKEN_SP @ ?Z"
    using ts_ext_written [OF ext s(2,1)] by (simp add: v2_text_def wire_ring_def ring_text_Cons)
  have len: "length (ts_written s3) + length (body m1) + 1 < 10 ^ 6"
    using w room(2) by (simp add: head_size_def v2_text_def)
  have pre: "version (?sl\<lparr>sl_length := 9\<rparr>) = MRCP_VERSION_2" "ts_buf s3 \<le> ts_pos s3" "ts_pos s3 \<le> length (ts_mem s3)"
      "length ?P = sl_length (?sl\<lparr>sl_length := 9\<rparr>)"
    using m(2) s3(2) by (simp_all add: ts_wf_def)
  have upd: "?sl\<lparr>sl_length := 9, sl_length := n\<rparr> = ?sl\<lparr>sl_length := n\<rparr>" for n by simp
  obtain n s4 where s4: "mrcp_start_line_finalize (?sl\<lparr>sl_length := 9\<rparr>) (length (body m1)) s3 = Some (True, ?sl\<lparr>sl_length := n\<rparr>, s4)"
      "ts_written s4 = ?P @ dec n @ APT_TOKEN_SP # ?Z" "n = length (ts_written s4) + length (body m1)" "n < 10 ^ 6"
      "ts_pos s4 = ts_pos s3" "ts_end s4 = ts_end s3" "is_eos s4 = is_eos s3" "length (ts_mem s4) = length (ts_mem s3)"
      "ts_buf s4 \<le> ts_pos s4"
    using finalize_spec [OF pre(1-3) w pre(4) len, unfolded upd] by blast
  have head: "ts_written s4 = wire_head m1 n" using s4(2) by (simp add: wire_head_def v2_line_def)
  have frame: "ts_end s3 = ts_end s" "is_eos s3 = is_eos s" "ts_buf s3 = ts_buf s" "ts_length s3 = ts_length s"
      "ts_pos s3 = ts_pos s + head_size m1" "length (ts_mem s3) = length (ts_mem s)"
    using ext size by (simp_all add: ts_ext_def)
  have "7 \<le> ts_length s" using room(1) s(2,3) by (simp add: head_size_def v2_text_def)
  then have win: "ts_buf s4 + ts_length s4 = ts_end s4"
    using finalize_window [OF s4(1)] frame s(3) s4(6) by (simp add: MAX_DIGIT_COUNT_def)
  have wf: "ts_wf s4" using s3(2) s4(5-9) by (simp add: ts_wf_def)
  have start: "mrcp_generator_on_start apr m s = Some (True, True, ?m2, s2)"
    using m s1(1) s2(1) by (simp add: mrcp_generator_on_start_def channel_id_line_generate_def)
  have complete: "mrcp_generator_on_header_complete ?m2 s3 = Some (True, m1\<lparr>start_line := ?sl\<lparr>sl_length := n\<rparr>\<rparr>, s4)"
    using s4(1) by (simp add: mrcp_generator_on_header_complete_def)
  have sec: "apt_header_section_generate (header_section (header ?m2)) s2 = Some (True, s3)" using s3(1) by simp
  have total: "n = length (wire_head m1 n) + length (body m1)" using s4(3) unfolding head .
  have pos: "ts_end s4 = ts_end s" "is_eos s4 = is_eos s" "ts_pos s4 = ts_pos s + head_size m1"
      "length (ts_mem s4) = length (ts_mem s)"
    using s4(5-8) frame by simp_all
  show ?thesis by (rule that [OF start sec complete head total s4(4) wf win pos])
qed

text \<open>The first run of the generator writes the head and goes on with the body.\<close>

lemma generator_starts:
  assumes apr: "apr_fmt_ok apr" and s: "ts_whole s" "ts_pos s = ts_buf s"
    and m: "mrcp_message_validate m = Some (True, m1)" "version (start_line m1) = MRCP_VERSION_2"
    and room: "head_size m1 < ts_room s" "head_size m1 + length (body m1) + 1 < 10 ^ 6"
    and g: "gen_message g \<noteq> Some a \<or> gen_stage g = APT_MESSAGE_STAGE_START_LINE"
  obtains n s' where
    "mrcp_generator_run apr g a buf m s =
      generator_body_stage (generator_vtable apr) buf
        (m1\<lparr>start_line := (start_line m1)\<lparr>sl_length := n\<rparr>, body := []\<rparr>)
        \<lparr>gen_message = Some a, gen_content_length = length (body m1),
         gen_stage = (if body m1 = [] then APT_MESSAGE_STAGE_START_LINE else APT_MESSAGE_STAGE_BODY)\<rparr> s'"
    and "ts_written s' = wire_head m1 n" "n = length (wire_head m1 n) + length (body m1)" "n < 10 ^ 6"
    and "ts_whole s'" "ts_end s' = ts_end s" "is_eos s' = is_eos s" "ts_pos s' = ts_pos s + head_size m1"
    and "length (ts_mem s') = length (ts_mem s)"
proof -
  have wf: "ts_wf s" "ts_buf s + ts_length s = ts_end s" "ts_pos s + head_size m1 < ts_end s"
    using s(1) room(1) by (auto simp: ts_whole_def ts_room_def)
  obtain m2 s2 s3 n s4 where h: "mrcp_generator_on_start apr m s = Some (True, True, m2, s2)"
      "apt_header_section_generate (header_section (header m2)) s2 = Some (True, s3)"
      "mrcp_generator_on_header_complete m2 s3 = Some (True, m1\<lparr>start_line := (start_line m1)\<lparr>sl_length := n\<rparr>\<rparr>, s4)"
    and w: "ts_written s4 = wire_head m1 n" "n = length (wire_head m1 n) + length (body m1)" "n < 10 ^ 6"
    and f: "ts_wf s4" "ts_buf s4 + ts_length s4 = ts_end s4" "ts_end s4 = ts_end s" "is_eos s4 = is_eos s"
      "ts_pos s4 = ts_pos s + head_size m1" "length (ts_mem s4) = length (ts_mem s)"
    by (rule head_generated [OF apr wf(1) s(2) wf(2) m wf(3) room(2)])
  have whole: "ts_whole s4" using f(1,2) by (simp add: ts_whole_def)
  let ?g = "\<lparr>gen_message = Some a, gen_content_length = length (body m1),
         gen_stage = (if body m1 = [] then APT_MESSAGE_STAGE_START_LINE else APT_MESSAGE_STAGE_BODY)\<rparr>"
  have "mrcp_generator_run apr g a buf m s = generator_body_stage (generator_vtable apr) buf
        (m1\<lparr>start_line := (start_line m1)\<lparr>sl_length := n\<rparr>, body := []\<rparr>) ?g s4"
    using g h by (cases g; cases m1) (auto simp: mrcp_generator_run_def apt_message_generator_run_def generator_vtable_def Let_def)
  then show ?thesis by (rule that [OF _ w whole f(3-6)])
qed

section \<open>What is parsed\<close>

text \<open>The identifier a receiver gives to the method or event of a start line, if the resource knows the name.\<close>

definition known_method :: "'r mrcp_resource \<Rightarrow> nat \<Rightarrow> mrcp_start_line \<Rightarrow> nat option" where
  "known_method res garbage sl =
     (case message_type sl of
        MRCP_MESSAGE_TYPE_REQUEST \<Rightarrow>
          (let k = apt_string_table_id_find (get_method_str_table res (version sl)) (method_count res) (method_name sl)
           in if k < method_count res then Some k else None)
      | MRCP_MESSAGE_TYPE_EVENT \<Rightarrow>
          (let k = apt_string_table_id_find (get_event_str_table res (version sl)) (event_count res) (method_name sl)
           in if k < event_count res then Some k else None)
      | _ \<Rightarrow> Some garbage)"

definition channel_ok :: "mrcp_channel_id \<Rightarrow> bool" where
  "channel_ok cid \<longleftrightarrow>
     CHR ''@'' \<notin> set (session_id cid) \<and> APT_NUL \<notin> set (session_id cid) \<and> resource_name cid \<noteq> [] \<and>
     no_eol (session_id cid) \<and> no_eol (resource_name cid) \<and>
     (session_id cid = [] \<or> \<not> apt_text_is_wsp (hd (session_id cid)))"

text \<open>The length of the body that the header of a message announces.\<close>

definition announced_length :: "'r mrcp_message \<Rightarrow> nat" where
  "announced_length m =
     (case mrcp_generic_header_get m of None \<Rightarrow> 0
      | Some d \<Rightarrow>
          if GENERIC_HEADER_CONTENT_LENGTH \<in> (hf_id \<circ> snd) ` set (hs_ring (header_section (header m)))
          then content_length d else 0)"

text \<open>A message that is ready to be sent to a peer that has the resource.\<close>

definition message_sent ::
  "apr_fmt \<Rightarrow> 'r mrcp_header_vtable \<Rightarrow> ('r \<Rightarrow> nat \<Rightarrow> bool) \<Rightarrow> 'r mrcp_resource \<Rightarrow> 'r mrcp_message \<Rightarrow> bool"
where
  "message_sent apr vt ok res m \<longleftrightarrow>
     version (start_line m) = MRCP_VERSION_2 \<and> start_line_ok (start_line m) \<and> channel_ok (channel_id m) \<and>
     get_resource_header_vtable res MRCP_VERSION_2 = Some vt \<and> known_method res 0 (start_line m) \<noteq> None \<and>
     header_sent apr vt ok (header m) \<and> announced_length m = length (body m)"

text \<open>What the receiver gets, for a start line that says that the message has \<open>n\<close> bytes.\<close>

definition message_received ::
  "apr_fmt \<Rightarrow> 'r mrcp_header_vtable \<Rightarrow> 'r mrcp_resource \<Rightarrow> nat \<Rightarrow> nat \<Rightarrow> 'r mrcp_message \<Rightarrow> 'r mrcp_message \<Rightarrow> bool"
where
  "message_received apr vt res garbage n m m' \<longleftrightarrow>
     (\<exists>k. known_method res garbage (start_line m) = Some k \<and>
        start_line m' = (received (mrcp_start_line_init garbage) ((start_line m)\<lparr>sl_length := n\<rparr>))\<lparr>method_id := k\<rparr>) \<and>
     channel_id m' = channel_id m \<and> body m' = body m \<and> resource m' = Some res \<and>
     map snd (hs_ring (header_section (header m'))) = map snd (hs_ring (header_section (header m))) \<and>
     header m' = (snd (mrcp_header_fields_inherit
       (mrcp_message_header_create (Some (mrcp_generic_header_vtable_get apr)) (Some vt)) (header m)))
       \<lparr>header_section := header_section (header m')\<rparr>"

lemma channel_field_ok: "channel_ok cid \<Longrightarrow> field_ok (channel_field cid)"
  by (auto simp: channel_ok_def field_ok_def channel_field_def header_name_ok_def header_value_ok_def MRCP_CHANNEL_ID_def
    apt_text_is_wsp_def no_eol_def apt_id_resource_generate_def hd_append)

lemma parsed_ring_fst: "f \<in> set (parsed_ring pool ring) \<Longrightarrow> pool \<le> fst f"
  by (induction ring arbitrary: pool) fastforce+

lemma parsed_ring_remove: "filter (\<lambda>g. fst g \<noteq> pool) (parsed_ring (Suc pool) ring) = parsed_ring (Suc pool) ring"
  by (rule filter_True) (use parsed_ring_fst [of _ "Suc pool" ring] in fastforce)

text \<open>The channel identifier is taken out of the section of the receiver.\<close>

lemma channel_id_parsed:
  assumes "channel_ok (channel_id m)"
    and "header_section h = \<lparr>hs_ring = parsed_ring pool (wire_ring m), hs_arr = []\<rparr>"
  shows "mrcp_channel_id_parse cid0 h =
    (True, channel_id m,
     h\<lparr>header_section := \<lparr>hs_ring = parsed_ring (Suc pool) (hs_ring (header_section (header m))), hs_arr = []\<rparr>\<rparr>)"
proof -
  let ?f = "(pool, channel_field (channel_id m))"
  have cf: "(channel_field (channel_id m))\<lparr>hf_id := UNKNOWN_HEADER_FIELD_ID\<rparr> = channel_field (channel_id m)"
    by (simp add: channel_field_def)
  have ring: "parsed_ring pool (wire_ring m) = ?f # parsed_ring (Suc pool) (hs_ring (header_section (header m)))"
    by (simp add: wire_ring_def cf)
  have "is_channel_id_field ?f"
    by (simp add: is_channel_id_field_def channel_field_def apt_id_resource_generate_def strncaseeq_def)
  moreover have "apt_id_resource_parse (hf_value (channel_field (channel_id m))) (CHR ''@'') =
      Some (session_id (channel_id m), resource_name (channel_id m))"
    using assms(1) by (simp add: channel_field_def id_resource_roundtrip channel_ok_def)
  ultimately show ?thesis
    using assms(2) by (simp add: mrcp_channel_id_parse_def ring apt_header_section_field_remove_def Let_def parsed_ring_remove)
qed

text \<open>The data a receiver allocates for the header section it has parsed.\<close>

lemma header_alloc_ring:
  "snd (mrcp_message_header_data_alloc (Some g) (Some vt) (mrcp_message_header_init\<lparr>header_section := \<lparr>hs_ring = ring, hs_arr = []\<rparr>\<rparr>)) =
    (mrcp_message_header_create (Some g) (Some vt))
      \<lparr>header_section := (header_section (mrcp_message_header_create (Some g) (Some vt)))\<lparr>hs_ring := ring\<rparr>\<rparr>"
  by (simp add: mrcp_message_header_create_def mrcp_message_header_data_alloc_def
    apt_header_section_array_alloc_def mrcp_message_header_init_def apt_header_section_init_def)

lemma resource_set_known:
  assumes "known_method res (method_id (start_line m)) (start_line m) = Some k" "message_type (start_line m) \<noteq> MRCP_MESSAGE_TYPE_UNKNOWN"
    and "get_resource_header_vtable res (version (start_line m)) = Some vt"
  shows "mrcp_message_resource_set apr m (Some res) =
    (True, m\<lparr>start_line := (start_line m)\<lparr>method_id := k\<rparr>, resource := Some res,
             header := snd (mrcp_message_header_data_alloc (Some (mrcp_generic_header_vtable_get apr)) (Some vt) (header m))\<rparr>)"
  using assms by (auto simp: mrcp_message_resource_set_def known_method_def Let_def split: mrcp_message_type_e.splits if_splits)

lemma known_method_received:
  "known_method res garbage (received sl0 sl) = known_method res garbage sl"
  by (auto simp: known_method_def received_def Let_def split: mrcp_message_type_e.splits)

lemma received_simps:
  "version (received sl0 sl) = version sl" "message_type (received sl0 sl) = message_type sl"
  "method_id (received sl0 sl) = method_id sl0"
  by (simp_all add: received_def Let_def split: mrcp_message_type_e.splits)

lemma known_method_length [simp]: "known_method res garbage (sl\<lparr>sl_length := n\<rparr>) = known_method res garbage sl"
  by (cases "message_type sl") (simp_all add: known_method_def)

lemma known_method_any: "known_method res 0 sl \<noteq> None \<Longrightarrow> \<exists>k. known_method res garbage sl = Some k"
  by (auto simp: known_method_def Let_def split: mrcp_message_type_e.splits if_splits)

context message_contract
begin

text \<open>The handler of the complete header.\<close>

lemma header_completed:
  assumes m: "message_sent apr vt wire_ok res m" and alloc: "allocate vt \<noteq> None"
    and find: "mrcp_resource_find hash (resource_factory parser) (resource_name (channel_id m)) = Some res"
    and m0: "start_line m0 = received (mrcp_start_line_init garbage) ((start_line m)\<lparr>sl_length := n\<rparr>)"
      "header m0 = mrcp_message_header_init\<lparr>header_section := \<lparr>hs_ring = parsed_ring pool (wire_ring m), hs_arr = []\<rparr>\<rparr>"
      "body m0 = []"
  shows "\<exists>m'. mrcp_parser_on_header_complete apr hash parser m0 = Some (True, m', length (body m)) \<and>
    body m' = [] \<and> message_received apr vt res garbage n m (m'\<lparr>body := body m\<rparr>)"
proof -
  let ?ring = "hs_ring (header_section (header m))" and ?g = "mrcp_generic_header_vtable_get apr"
  let ?sl = "received (mrcp_start_line_init garbage) ((start_line m)\<lparr>sl_length := n\<rparr>)"
  let ?h0 = "mrcp_message_header_create (Some ?g) (Some vt)"
  let ?h1 = "mrcp_message_header_init\<lparr>header_section := \<lparr>hs_ring = parsed_ring (Suc pool) ?ring, hs_arr = []\<rparr>\<rparr>"
  let ?h2 = "?h0\<lparr>header_section := (header_section ?h0)\<lparr>hs_ring := parsed_ring (Suc pool) ?ring\<rparr>\<rparr>"
  have v: "version ?sl = MRCP_VERSION_2" "message_type ?sl \<noteq> MRCP_MESSAGE_TYPE_UNKNOWN" "method_id ?sl = garbage"
    using m by (auto simp: message_sent_def received_simps start_line_ok_def mrcp_start_line_init_def)
  obtain k where k: "known_method res garbage (start_line m) = Some k"
    using m known_method_any [of res "start_line m" garbage] by (auto simp: message_sent_def)
  let ?m1 = "m0\<lparr>channel_id := channel_id m, header := ?h1\<rparr>"
  have "mrcp_channel_id_parse (channel_id m0) (header m0) = (True, channel_id m, ?h1)"
    using channel_id_parsed [of m "header m0" pool] m by (simp add: m0 message_sent_def)
  moreover have "mrcp_message_resource_set apr ?m1 (Some res) =
      (True, ?m1\<lparr>start_line := ?sl\<lparr>method_id := k\<rparr>, resource := Some res, header := ?h2\<rparr>)"
    using resource_set_known [of res ?m1 k vt apr] v k m header_alloc_ring [of ?g vt]
    by (simp add: m0 known_method_received message_sent_def)
  ultimately have "mrcp_parser_on_header_complete apr hash parser m0 =
      header_fields_complete (?m1\<lparr>start_line := ?sl\<lparr>method_id := k\<rparr>, resource := Some res, header := ?h2\<rparr>)"
    using v(1) find by (simp add: mrcp_parser_on_header_complete_def m0)
  moreover have hs: "header_sent apr vt wire_ok (header m)" using m by (simp add: message_sent_def)
  obtain sec where sec: "mrcp_header_fields_parse ?h2 =
        Some (True, (snd (mrcp_header_fields_inherit ?h0 (header m)))\<lparr>header_section := sec\<rparr>)"
      "map snd (hs_ring sec) = map snd ?ring"
      "\<And>i. apt_header_section_field_check sec i \<longleftrightarrow> i \<in> (hf_id \<circ> snd) ` set ?ring"
    using header_parsed [OF hs alloc, of "Suc pool"] by auto
  obtain d e where d: "acc_data (generic_header_accessor (header m)) = Some e"
      "acc_data (generic_header_accessor (snd (mrcp_header_fields_inherit ?h0 (header m)))) = Some d"
      "content_length d = (if GENERIC_HEADER_CONTENT_LENGTH \<in> (hf_id \<circ> snd) ` set ?ring then content_length e else 0)"
    using received_content_length [OF hs alloc] by auto
  have n: "length (body m) = (if GENERIC_HEADER_CONTENT_LENGTH \<in> (hf_id \<circ> snd) ` set ?ring then content_length e else 0)"
    using m d(1) by (auto simp: message_sent_def announced_length_def mrcp_generic_header_get_def)
  let ?m' = "?m1\<lparr>start_line := ?sl\<lparr>method_id := k\<rparr>, resource := Some res,
    header := (snd (mrcp_header_fields_inherit ?h0 (header m)))\<lparr>header_section := sec\<rparr>\<rparr>"
  have "header_fields_complete (?m1\<lparr>start_line := ?sl\<lparr>method_id := k\<rparr>, resource := Some res, header := ?h2\<rparr>) =
      Some (True, ?m', length (body m))"
    using sec(1,3) d(2,3) n by (simp add: header_fields_complete_def mrcp_generic_header_property_check_def
      mrcp_generic_header_get_def m0 Let_def)
  moreover have "body ?m' = []" "message_received apr vt res garbage n m (?m'\<lparr>body := body m\<rparr>)"
    using sec(2) k by (simp_all add: message_received_def m0)
  ultimately show ?thesis by (intro exI [of _ ?m']) simp
qed

end

text \<open>The stream behind the start line and behind the head of a message.\<close>

lemma wire_head_read:
  assumes "ts_whole s" "\<not> is_eos s" "ts_rest s = wire_head m n @ rest" "start_line_ok (start_line m)"
    and "version (start_line m) = MRCP_VERSION_2" "n < 10 ^ 6" "\<forall>f \<in> set (wire_ring m). field_ok (snd f)"
  defines "s1 \<equiv> s\<lparr>ts_pos := ts_pos s + (length (v2_line (start_line m) n) + 2)\<rparr>"
    and "s2 \<equiv> s\<lparr>ts_pos := ts_pos s + length (wire_head m n)\<rparr>"
  shows "mrcp_parser_on_start apr garbage parser s =
      (Some ((mrcp_message_create garbage)
        \<lparr>start_line := received (mrcp_start_line_init garbage) ((start_line m)\<lparr>sl_length := n\<rparr>)\<rparr>), s1)"
    and "apt_crlf_segmentation_test p s1 = Some p"
    and "apt_header_section_parse pool apt_header_section_init s1 =
      (True, \<lparr>hs_ring = parsed_ring pool (wire_ring m), hs_arr = []\<rparr>, s2, pool + length (wire_ring m) + 1)"
    and "apt_crlf_segmentation_test p s2 = Some p"
    and "ts_whole s2" and "ts_rest s2 = rest"
proof -
  let ?sl = "start_line m" and ?hdr = "ring_text (wire_ring m)"
  have wf: "ts_wf s" using assms(1) by (simp add: ts_whole_def)
  have rest: "ts_rest s = v2_line ?sl n @ CRLF @ ?hdr @ CRLF @ rest"
    using assms(3) by (simp add: wire_head_def)
  have line: "no_eol (v2_line ?sl n)"
    using no_eol_v2_tail [OF assms(4)] by (simp add: v2_line_def)
  have pl: "mrcp_start_line_parse sl0 (v2_line ?sl n) = (True, received sl0 (?sl\<lparr>sl_length := n\<rparr>))" for sl0
    using parse_v2_line [OF assms(4,5), of n] assms(6) by (simp add: v2_line_def)
  have v: "version (received sl0 (?sl\<lparr>sl_length := n\<rparr>)) \<noteq> MRCP_VERSION_1" for sl0
    using assms(5) by (simp add: received_simps)
  show "mrcp_parser_on_start apr garbage parser s =
      (Some ((mrcp_message_create garbage)
        \<lparr>start_line := received (mrcp_start_line_init garbage) (?sl\<lparr>sl_length := n\<rparr>)\<rparr>), s1)"
    using line_read_crlf [OF rest line] pl v
    by (simp add: mrcp_parser_on_start_def s1_def mrcp_message_create_def Let_def)
  have s1: "ts_wf s1" "ts_rest s1 = ?hdr @ CRLF @ rest" "\<not> is_eos s1"
    using line_rest [OF wf rest] assms(2) by (simp_all add: s1_def)
  have s2: "s2 = s1\<lparr>ts_pos := ts_pos s1 + (length ?hdr + 2)\<rparr>"
    by (simp add: s2_def s1_def wire_head_def)
  show "apt_crlf_segmentation_test p s1 = Some p"
    by (rule crlf_test_inside) (use s1(2) in \<open>auto intro: ts_rest_nonempty\<close>)
  show "apt_crlf_segmentation_test p s2 = Some p"
    unfolding s2 by (rule crlf_test_eol [OF s1(1,2)])
  show "apt_header_section_parse pool apt_header_section_init s1 =
      (True, \<lparr>hs_ring = parsed_ring pool (wire_ring m), hs_arr = []\<rparr>, s2, pool + length (wire_ring m) + 1)"
    using section_parse_text [OF s1(1,3,2) assms(7), of apt_header_section_init pool]
    by (simp add: apt_header_section_init_def s2)
  have le: "length (wire_head m n) \<le> length (ts_rest s)" using assms(3) by simp
  show "ts_whole s2"
    unfolding s2_def using le assms(1) by (intro ts_whole_advance) (simp_all add: length_ts_rest_room)
  show "ts_rest s2 = rest"
    using ts_advance(2) [OF wf le] assms(3) by (simp add: s2_def)
qed

context message_contract
begin

text \<open>A message that was sent is parsed, whatever follows it in the stream.\<close>

lemma message_parsed:
  assumes m: "message_sent apr vt wire_ok res m" and alloc: "allocate vt \<noteq> None"
    and find: "mrcp_resource_find hash (resource_factory parser) (resource_name (channel_id m)) = Some res"
    and s: "ts_whole s" "\<not> is_eos s" "ts_rest s = wire_head m n @ body m @ rest"
    and n: "n = length (wire_head m n) + length (body m)" "n < 10 ^ 6"
    and p: "stage (base parser) = APT_MESSAGE_STAGE_START_LINE" "\<not> skip_lf (base parser)"
  shows "\<exists>m' b k. mrcp_parser_run apr hash garbage pool parser s =
      Some (APT_MESSAGE_STATUS_COMPLETE, Some m', parser\<lparr>base := b\<rparr>, s\<lparr>ts_pos := ts_pos s + n\<rparr>, k) \<and>
    message_received apr vt res garbage n m m' \<and> stage b = APT_MESSAGE_STAGE_START_LINE \<and> \<not> skip_lf b"
proof -
  let ?vt = "parser_vtable apr hash garbage parser" and ?p = "(base parser)\<lparr>skip_lf := False\<rparr>"
  let ?s2 = "s\<lparr>ts_pos := ts_pos s + length (wire_head m n)\<rparr>"
  have ok: "start_line_ok (start_line m)" "version (start_line m) = MRCP_VERSION_2"
      "\<forall>f \<in> set (wire_ring m). field_ok (snd f)"
    using m channel_field_ok by (auto simp: message_sent_def header_sent_def wire_ring_def)
  note read = wire_head_read [OF s ok(1,2) n(2) ok(3)]
  have test: "apt_crlf_segmentation_test q (s\<lparr>ts_pos := ts_pos s + (length (v2_line (start_line m) n) + 2)\<rparr>) = Some q"
      "apt_crlf_segmentation_test q ?s2 = Some q" for q :: "'r mrcp_message apt_message_parser"
    by (rule read(2,4))+
  have pos: "s\<lparr>ts_pos := ts_pos s + n\<rparr> = ?s2" if "body m = []"
    using n(1) that by simp
  obtain m' where m': "mrcp_parser_on_header_complete apr hash parser
      ((mrcp_message_create garbage)
        \<lparr>start_line := received (mrcp_start_line_init garbage) ((start_line m)\<lparr>sl_length := n\<rparr>),
         header := mrcp_message_header_init\<lparr>header_section := \<lparr>hs_ring = parsed_ring pool (wire_ring m), hs_arr = []\<rparr>\<rparr>\<rparr>) =
        Some (True, m', length (body m))"
      "body m' = []" "message_received apr vt res garbage n m (m'\<lparr>body := body m\<rparr>)"
    using header_completed [OF m alloc find, of "(mrcp_message_create garbage)
        \<lparr>start_line := received (mrcp_start_line_init garbage) ((start_line m)\<lparr>sl_length := n\<rparr>),
         header := mrcp_message_header_init\<lparr>header_section := \<lparr>hs_ring = parsed_ring pool (wire_ring m), hs_arr = []\<rparr>\<rparr>\<rparr>" garbage n pool]
    by (auto simp: mrcp_message_create_def)
  have body: "apt_message_body_read (length (body m)) [] ?s2 = Some (True, body m, s\<lparr>ts_pos := ts_pos s + n\<rparr>)"
    using body_read_part [OF read(5)] read(6) length_ts_rest_room [OF read(5)] n(1) by simp
  have bound: "\<not> (length (body m) + 1) mod 2 ^ 64 \<le> length (body m)"
    using n by simp
  define b where "b = (if body m = [] then ?p\<lparr>context_message := Some m', stage := APT_MESSAGE_STAGE_START_LINE\<rparr>
    else ?p\<lparr>context_message := Some (m'\<lparr>body := body m\<rparr>), parser_content_length := length (body m),
      stage := APT_MESSAGE_STAGE_START_LINE\<rparr>)"
  have "mrcp_parser_run apr hash garbage pool parser s =
      Some (APT_MESSAGE_STATUS_COMPLETE, Some (m'\<lparr>body := body m\<rparr>), parser\<lparr>base := b\<rparr>, s\<lparr>ts_pos := ts_pos s + n\<rparr>,
        pool + length (wire_ring m) + 1)"
    using p read(1) [of apr garbage parser] test read(3) [of pool] m'(1,2) body bound pos
    by (cases "body m = []") (simp_all add: mrcp_parser_run_def apt_message_parser_run_def parser_header_stage_def
      parser_body_stage_def parser_vtable_def Let_def b_def mrcp_message_create_def mrcp_message_header_init_def)
  then show ?thesis using m'(3) p by (auto simp: b_def)
qed

end

end
