(* ===== verification/Mrcp_Connection.thy ===== *)
theory Mrcp_Connection
  imports Mrcp_Stream
begin

text \<open>
  Sending and receiving over a connection, \<open>libs/mrcpv2-transport\<close>: the loop that sends a message with a transmit buffer
  (in \<open>mrcp_server_agent_messsage_send\<close> and \<open>mrcp_client_agent_messsage_send\<close>) and the loop that receives messages into a
  receive buffer (in \<open>mrcp_server_poller_signal_process\<close> and \<open>mrcp_client_poller_signal_process\<close>). The socket belongs to
  the portable runtime: sending is a parameter that changes the world \<open>'w\<close>, and what is received is an argument.
\<close>

section \<open>Sending\<close>

definition MRCP_STREAM_BUFFER_SIZE :: nat where "MRCP_STREAM_BUFFER_SIZE = 1024"

text \<open>
  One turn of the loop: fill the transmit buffer, whose memory has one cell more than its size, terminate the text and
  send it. The results are the status of the generator, whether something was sent, and what has changed.
\<close>

definition message_send_step ::
  "apr_fmt \<Rightarrow> (string \<Rightarrow> 'w \<Rightarrow> bool \<times> 'w) \<Rightarrow> nat \<Rightarrow> string \<Rightarrow> mrcp_generator \<Rightarrow> 'r mrcp_message \<Rightarrow> string \<Rightarrow> 'w \<Rightarrow>
   (apt_message_status_e \<times> bool \<times> mrcp_generator \<times> 'r mrcp_message \<times> string \<times> 'w) option"
where
  "message_send_step apr apr_socket_send a buf g m tx_buffer w = do {
     (result, m, g, s) \<leftarrow> mrcp_generator_run apr g a buf m (apt_text_stream_init tx_buffer (length tx_buffer - 1));
     if result \<noteq> APT_MESSAGE_STATUS_INVALID then
       (if length (ts_mem s) \<le> ts_pos s then None
        else
          (let (sent, w) = apr_socket_send (ts_written s) w
           in Some (result, sent, g, m, (ts_mem s)[ts_pos s := APT_NUL], w)))
     else Some (result, False, g, m, ts_mem s, w)
   }"

text \<open>The loop goes on as long as the generator has not finished the message.\<close>

partial_function (option) message_send_loop ::
  "apr_fmt \<Rightarrow> (string \<Rightarrow> 'w \<Rightarrow> bool \<times> 'w) \<Rightarrow> nat \<Rightarrow> string \<Rightarrow> bool \<Rightarrow> mrcp_generator \<Rightarrow> 'r mrcp_message \<Rightarrow> string \<Rightarrow> 'w \<Rightarrow>
   (bool \<times> mrcp_generator \<times> 'r mrcp_message \<times> string \<times> 'w) option"
where
  "message_send_loop apr apr_socket_send a buf status g m tx_buffer w = do {
     (result, sent, g, m, tx_buffer, w) \<leftarrow> message_send_step apr apr_socket_send a buf g m tx_buffer w;
     if result = APT_MESSAGE_STATUS_INCOMPLETE
     then message_send_loop apr apr_socket_send a buf (status \<or> sent) g m tx_buffer w
     else Some (status \<or> sent, g, m, tx_buffer, w)
   }"

section \<open>Receiving\<close>

text \<open>
  The loop over the messages in the receive buffer: \<open>None\<close> when it does not end, \<open>Some None\<close> on a fault. The handler of the agent gets the message and the status, and changes
  the state \<open>'a\<close> of the agent; when it answers \<open>FALSE\<close>, the loop is left at once. The state of the parser and the stream
  belong to the connection. \<open>garbage\<close> is what the memory of a message allocated at an address holds.
\<close>

type_synonym ('h, 'r, 'a) receive_state = "('h, 'r) mrcp_parser \<times> apt_text_stream \<times> nat \<times> 'a"

definition receive_step ::
  "apr_fmt \<Rightarrow> ('h, 'r mrcp_resource) apr_hash_ops \<Rightarrow> (nat \<Rightarrow> nat) \<Rightarrow>
   (apt_message_status_e \<Rightarrow> 'r mrcp_message option \<Rightarrow> 'a \<Rightarrow> (bool \<times> 'a) option) \<Rightarrow>
   ('h, 'r, 'a) receive_state \<Rightarrow> (bool \<times> ('h, 'r, 'a) receive_state) option"
where
  "receive_step apr hash garbage handler st =
     (case st of (parser, s, pool, agent) \<Rightarrow> do {
        (msg_status, m, parser, s, pool) \<leftarrow> mrcp_parser_run apr hash (garbage pool) pool parser s;
        (ok, agent) \<leftarrow> handler msg_status m agent;
        Some (ok, parser, s, pool, agent)
      })"

partial_function (option) receive_loop ::
  "apr_fmt \<Rightarrow> ('h, 'r mrcp_resource) apr_hash_ops \<Rightarrow> (nat \<Rightarrow> nat) \<Rightarrow>
   (apt_message_status_e \<Rightarrow> 'r mrcp_message option \<Rightarrow> 'a \<Rightarrow> (bool \<times> 'a) option) \<Rightarrow>
   ('h, 'r, 'a) receive_state \<Rightarrow> (bool \<times> ('h, 'r, 'a) receive_state) option option"
where
  "receive_loop apr hash garbage handler st =
     (case receive_step apr hash garbage handler st of
        None \<Rightarrow> Some None
      | Some (ok, st) \<Rightarrow>
          if \<not> ok then Some (Some (False, st))
          else if apt_text_is_eos (fst (snd st)) then Some (Some (True, st))
          else receive_loop apr hash garbage handler st)"

text \<open>
  Receiving \<open>data\<close> behind what is left of the previous receive. The receive buffer has \<open>size\<close> cells and one more; the
  socket has been given the cells that are free, and at least one byte has been received.
\<close>

definition connection_receive ::
  "apr_fmt \<Rightarrow> ('h, 'r mrcp_resource) apr_hash_ops \<Rightarrow> (nat \<Rightarrow> nat) \<Rightarrow>
   (apt_message_status_e \<Rightarrow> 'r mrcp_message option \<Rightarrow> 'a \<Rightarrow> (bool \<times> 'a) option) \<Rightarrow> string \<Rightarrow>
   ('h, 'r, 'a) receive_state \<Rightarrow> (bool \<times> ('h, 'r, 'a) receive_state) option"
where
  "connection_receive apr hash garbage handler data st =
     (case st of (parser, s, pool, agent) \<Rightarrow> do {
        let offset = ts_pos s - ts_buf s;
        t \<leftarrow> ts_put (data @ [APT_NUL]) s;
        let s = apt_text_stream_reset (t\<lparr>ts_pos := ts_pos s, ts_length := offset + length data\<rparr>);
        r \<leftarrow> receive_loop apr hash garbage handler (parser, s, pool, agent);
        (ok, parser, s, pool, agent) \<leftarrow> r;
        if \<not> ok then Some (False, parser, s, pool, agent)
        else do {
          (_, s) \<leftarrow> apt_text_stream_scroll s;
          Some (True, parser, s, pool, agent)
        }
      })"

section \<open>Reading the socket\<close>

text \<open>
  What \<open>apr_socket_recv\<close> promises, for a socket whose world \<open>w\<close> still has the bytes \<open>queue w\<close> of the peer: it takes at
  most the bytes it is asked for, in order, and at least one if there is one.
\<close>

definition apr_socket_recv_ok :: "(nat \<Rightarrow> 'w \<Rightarrow> string \<times> 'w) \<Rightarrow> ('w \<Rightarrow> string) \<Rightarrow> bool" where
  "apr_socket_recv_ok recv queue \<longleftrightarrow>
     (\<forall>k w d w'. recv k w = (d, w') \<longrightarrow> length d \<le> k \<and> queue w = d @ queue w' \<and> (0 < k \<and> queue w \<noteq> [] \<longrightarrow> d \<noteq> []))"

text \<open>
  One signal of the poller for a connection whose receive buffer has the size \<open>size\<close>. The connection is given up when nothing
  could be received; otherwise the result is the one of \<open>connection_receive\<close>.
\<close>

datatype poll_result = PEER_DISCONNECTED | DATA_PROCESSED bool

definition poller_signal_process ::
  "apr_fmt \<Rightarrow> ('h, 'r mrcp_resource) apr_hash_ops \<Rightarrow> (nat \<Rightarrow> nat) \<Rightarrow>
   (apt_message_status_e \<Rightarrow> 'r mrcp_message option \<Rightarrow> 'a \<Rightarrow> (bool \<times> 'a) option) \<Rightarrow>
   (nat \<Rightarrow> 'w \<Rightarrow> string \<times> 'w) \<Rightarrow> nat \<Rightarrow> ('h, 'r, 'a) receive_state \<Rightarrow> 'w \<Rightarrow>
   (poll_result \<times> ('h, 'r, 'a) receive_state \<times> 'w) option"
where
  "poller_signal_process apr hash garbage handler apr_socket_recv rx_buffer_size st w =
     (case st of (parser, s, pool, agent) \<Rightarrow>
        (let offset = ts_pos s - ts_buf s;
             (data, w) = apr_socket_recv (rx_buffer_size - offset) w
         in if data = [] then Some (PEER_DISCONNECTED, st, w)
            else do { (ok, st) \<leftarrow> connection_receive apr hash garbage handler data st; Some (DATA_PROCESSED ok, st, w) }))"

text \<open>The signals of the poller while data arrives: at most \<open>k\<close> of them, as long as the connection is not given up.\<close>

fun poller_signals ::
  "nat \<Rightarrow> apr_fmt \<Rightarrow> ('h, 'r mrcp_resource) apr_hash_ops \<Rightarrow> (nat \<Rightarrow> nat) \<Rightarrow>
   (apt_message_status_e \<Rightarrow> 'r mrcp_message option \<Rightarrow> 'a \<Rightarrow> (bool \<times> 'a) option) \<Rightarrow>
   (nat \<Rightarrow> 'w \<Rightarrow> string \<times> 'w) \<Rightarrow> nat \<Rightarrow> ('h, 'r, 'a) receive_state \<Rightarrow> 'w \<Rightarrow>
   (poll_result \<times> ('h, 'r, 'a) receive_state \<times> 'w) option"
where
  "poller_signals 0 apr hash garbage handler recv n st w = Some (DATA_PROCESSED True, st, w)"
| "poller_signals (Suc k) apr hash garbage handler recv n st w = do {
     (r, st, w) \<leftarrow> poller_signal_process apr hash garbage handler recv n st w;
     if r = PEER_DISCONNECTED then Some (r, st, w) else poller_signals k apr hash garbage handler recv n st w
   }"

section \<open>A message is sent\<close>

lemma ts_written_ext:
  assumes "ts_wf s" "ts_ext s cs s'"
  shows "ts_written s' = ts_written s @ cs"
proof -
  have "ts_written s' = drop (ts_buf s) (take (ts_pos s') (ts_mem s'))"
    using assms(2) by (simp add: ts_written_def ts_ext_def drop_take)
  also have "\<dots> = drop (ts_buf s) (take (ts_pos s) (ts_mem s) @ cs)"
    using assms(2) unfolding ts_ext_def by (intro arg_cong [where f = "drop _"]) blast
  also have "\<dots> = ts_written s @ cs"
    using assms(1) by (simp add: ts_written_def ts_wf_def drop_take)
  finally show ?thesis .
qed

text \<open>The pieces of a text are handed to the socket one after the other; it is noted whether any was sent.\<close>

definition send_all :: "(string \<Rightarrow> 'w \<Rightarrow> bool \<times> 'w) \<Rightarrow> string list \<Rightarrow> bool \<times> 'w \<Rightarrow> bool \<times> 'w" where
  "send_all send cs = fold (\<lambda>c (status, w). let (sent, w) = send c w in (status \<or> sent, w)) cs"

lemma send_all_simps [simp]:
  "send_all send [] st = st"
  "send_all send (c # cs) (status, w) = send_all send cs (status \<or> fst (send c w), snd (send c w))"
  by (simp_all add: send_all_def split_def Let_def)

text \<open>One run of the generator on the body: it fills the buffer or finishes the message.\<close>

lemma generator_body_part:
  assumes "ts_whole s" "k < length buf" "body m = take k buf"
    and "gen_stage g = APT_MESSAGE_STAGE_BODY" "gen_content_length g = length buf"
  obtains s' where
    "generator_body_stage (generator_vtable apr) buf m g s =
      Some (if length buf - k \<le> ts_room s
            then (APT_MESSAGE_STATUS_COMPLETE, m\<lparr>body := buf\<rparr>, g\<lparr>gen_stage := APT_MESSAGE_STAGE_START_LINE\<rparr>, s')
            else (APT_MESSAGE_STATUS_INCOMPLETE, m\<lparr>body := take (k + ts_room s) buf\<rparr>, g, s'))"
    and "ts_written s' = ts_written s @ take (ts_room s) (drop k buf)"
    and "ts_whole s'" "ts_end s' = ts_end s" "length (ts_mem s') = length (ts_mem s)"
proof -
  let ?n = "min (length buf - k) (ts_room s)"
  obtain s' where s': "apt_message_body_write (length buf) buf (take k buf) s =
      Some (length buf - k \<le> ts_room s, take (k + ?n) buf, s')" "ts_ext s (take ?n (drop k buf)) s'" "ts_whole s'"
    by (rule body_write_part [OF assms(1,2)])
  have part: "take ?n (drop k buf) = take (ts_room s) (drop k buf)" by (simp add: min_def)
  have "apt_text_is_eos s'" if "\<not> length buf - k \<le> ts_room s"
    using that s'(2) by (auto simp: apt_text_is_eos_def ts_ext_def ts_room_def)
  then have "generator_body_stage (generator_vtable apr) buf m g s =
      Some (if length buf - k \<le> ts_room s
            then (APT_MESSAGE_STATUS_COMPLETE, m\<lparr>body := buf\<rparr>, g\<lparr>gen_stage := APT_MESSAGE_STAGE_START_LINE\<rparr>, s')
            else (APT_MESSAGE_STATUS_INCOMPLETE, m\<lparr>body := take (k + ts_room s) buf\<rparr>, g, s'))"
    using s'(1) assms(3-5) by (simp add: generator_body_stage_def generator_vtable_def apt_message_generator_break_def min_def)
  moreover have "ts_written s' = ts_written s @ take (ts_room s) (drop k buf)"
    using ts_written_ext [OF _ s'(2)] assms(1) part by (simp add: ts_whole_def)
  ultimately show ?thesis using s'(2,3) that by (simp add: ts_ext_def)
qed

text \<open>The fresh stream of a turn.\<close>

lemma tx_stream:
  assumes "tx \<noteq> []"
  defines "s \<equiv> apt_text_stream_init tx (length tx - 1)"
  shows "ts_whole s" "ts_pos s = ts_buf s" "ts_room s = length tx - 1" "ts_written s = []" "ts_mem s = tx"
    "ts_end s < length tx"
  using assms(1) ts_whole_init [of "length tx - 1" tx]
  by (auto simp: s_def apt_text_stream_init_def apt_text_stream_reset_def ts_room_def ts_written_def length_greater_0_conv [symmetric]
    simp del: length_greater_0_conv)

text \<open>The rest of the body is sent in pieces that fit into the buffer.\<close>

lemma send_body:
  assumes "1 < length tx" "k < length buf" "body m = take k buf"
    and "gen_message g = Some a" "gen_stage g = APT_MESSAGE_STAGE_BODY" "gen_content_length g = length buf"
  shows "\<exists>cs tx'. message_send_loop apr send a buf status g m tx w =
      Some (fst (send_all send cs (status, w)), g\<lparr>gen_stage := APT_MESSAGE_STAGE_START_LINE\<rparr>, m\<lparr>body := buf\<rparr>, tx',
        snd (send_all send cs (status, w))) \<and>
    concat cs = drop k buf \<and> length tx' = length tx \<and> (\<forall>c \<in> set cs. c \<noteq> [] \<and> length c < length tx)"
  using assms
proof (induction "length buf - k" arbitrary: k m tx status w rule: less_induct)
  case less
  let ?s = "apt_text_stream_init tx (length tx - 1)" and ?c = "take (length tx - 1) (drop k buf)"
  have tx: "tx \<noteq> []" using less.prems(1) by auto
  note s = tx_stream [OF tx]
  obtain s' where run: "generator_body_stage (generator_vtable apr) buf m g ?s =
      Some (if length buf - k \<le> length tx - 1
            then (APT_MESSAGE_STATUS_COMPLETE, m\<lparr>body := buf\<rparr>, g\<lparr>gen_stage := APT_MESSAGE_STAGE_START_LINE\<rparr>, s')
            else (APT_MESSAGE_STATUS_INCOMPLETE, m\<lparr>body := take (k + (length tx - 1)) buf\<rparr>, g, s'))"
    and part: "ts_written s' = ts_written ?s @ ?c" "ts_whole s'" "ts_end s' = ts_end ?s" "length (ts_mem s') = length (ts_mem ?s)"
    using generator_body_part [OF s(1) less.prems(2,3,5,6), of apr, unfolded s(3)] by metis
  have s': "ts_written s' = ?c" "length (ts_mem s') = length tx" "ts_pos s' < length (ts_mem s')"
    using part s(4-6) by (simp_all add: ts_whole_def ts_wf_def)
  define tx1 where "tx1 = (ts_mem s')[ts_pos s' := APT_NUL]"
  have tx1: "length tx1 = length tx" by (simp add: tx1_def s'(2))
  have step: "message_send_step apr send a buf g m tx w =
      Some (if length buf - k \<le> length tx - 1
            then (APT_MESSAGE_STATUS_COMPLETE, fst (send ?c w), g\<lparr>gen_stage := APT_MESSAGE_STAGE_START_LINE\<rparr>, m\<lparr>body := buf\<rparr>,
                  tx1, snd (send ?c w))
            else (APT_MESSAGE_STATUS_INCOMPLETE, fst (send ?c w), g, m\<lparr>body := take (k + (length tx - 1)) buf\<rparr>, tx1,
                  snd (send ?c w)))"
    using run s' less.prems(4,5) by (simp add: message_send_step_def mrcp_generator_run_def apt_message_generator_run_def
      tx1_def split_def Let_def)
  have c: "?c \<noteq> []" "length ?c < length tx" using less.prems(1,2) by auto
  show ?case
  proof (cases "length buf - k \<le> length tx - 1")
    case True
    then have "message_send_loop apr send a buf status g m tx w =
        Some (status \<or> fst (send ?c w), g\<lparr>gen_stage := APT_MESSAGE_STAGE_START_LINE\<rparr>, m\<lparr>body := buf\<rparr>, tx1, snd (send ?c w))"
      by (subst message_send_loop.simps) (simp add: step)
    with True c tx1 show ?thesis by (intro exI [of _ "[?c]"] exI [of _ tx1]) simp
  next
    case False
    let ?k = "k + (length tx - 1)" and ?m = "m\<lparr>body := take (k + (length tx - 1)) buf\<rparr>"
    have shorter: "length buf - ?k < length buf - k" "?k < length buf" using False less.prems(1,2) by linarith+
    have m: "1 < length tx1" "body ?m = take ?k buf" using less.prems(1) tx1 by simp_all
    obtain cs tx' where IH: "message_send_loop apr send a buf (status \<or> fst (send ?c w)) g ?m tx1 (snd (send ?c w)) =
        Some (fst (send_all send cs (status \<or> fst (send ?c w), snd (send ?c w))), g\<lparr>gen_stage := APT_MESSAGE_STAGE_START_LINE\<rparr>,
          ?m\<lparr>body := buf\<rparr>, tx', snd (send_all send cs (status \<or> fst (send ?c w), snd (send ?c w))))"
        "concat cs = drop ?k buf" "length tx' = length tx1" "\<forall>c \<in> set cs. c \<noteq> [] \<and> length c < length tx1"
      using less.hyps [OF shorter(1) m(1) shorter(2) m(2) less.prems(4-6)] by blast
    have "message_send_loop apr send a buf status g m tx w =
        message_send_loop apr send a buf (status \<or> fst (send ?c w)) g ?m tx1 (snd (send ?c w))"
      using False by (subst message_send_loop.simps) (simp add: step)
    moreover have "concat (?c # cs) = drop k buf"
      using IH(2) append_take_drop_id [of "length tx - 1" "drop k buf"] by (simp add: add.commute)
    ultimately show ?thesis using IH c tx1 by (intro exI [of _ "?c # cs"] exI [of _ tx']) simp
  qed
qed

text \<open>The first turn writes the head and as much of the body as fits behind it.\<close>

lemma generator_first_run:
  assumes run: "mrcp_generator_run apr g a buf m s =
      generator_body_stage (generator_vtable apr) buf (m1\<lparr>start_line := sl, body := []\<rparr>)
        \<lparr>gen_message = Some a, gen_content_length = length buf,
         gen_stage = (if buf = [] then APT_MESSAGE_STAGE_START_LINE else APT_MESSAGE_STAGE_BODY)\<rparr> s1"
    and s1: "ts_written s1 = h" "ts_whole s1" "ts_end s1 = e" and buf: "buf = body m1"
  obtains s' where "mrcp_generator_run apr g a buf m s =
      Some (if length buf \<le> ts_room s1
            then (APT_MESSAGE_STATUS_COMPLETE, m1\<lparr>start_line := sl\<rparr>,
              \<lparr>gen_message = Some a, gen_content_length = length buf, gen_stage = APT_MESSAGE_STAGE_START_LINE\<rparr>, s')
            else (APT_MESSAGE_STATUS_INCOMPLETE, m1\<lparr>start_line := sl, body := take (ts_room s1) buf\<rparr>,
              \<lparr>gen_message = Some a, gen_content_length = length buf, gen_stage = APT_MESSAGE_STAGE_BODY\<rparr>, s'))"
    and "ts_written s' = h @ take (ts_room s1) buf" "ts_whole s'" "ts_end s' = e" "length (ts_mem s') = length (ts_mem s1)"
proof (cases "buf = []")
  case True
  have "m1\<lparr>start_line := sl, body := []\<rparr> = m1\<lparr>start_line := sl\<rparr>" using True buf by (cases m1) simp
  then show ?thesis
    using run True s1 by (intro that [of s1]) (simp_all add: generator_body_stage_def)
next
  case False
  let ?g = "\<lparr>gen_message = Some a, gen_content_length = length buf, gen_stage = APT_MESSAGE_STAGE_BODY\<rparr>"
  have lt: "0 < length buf" and body: "body (m1\<lparr>start_line := sl, body := []\<rparr>) = take 0 buf" using False by simp_all
  have g: "gen_stage ?g = APT_MESSAGE_STAGE_BODY" "gen_content_length ?g = length buf" by simp_all
  have m: "m1\<lparr>start_line := sl, body := buf\<rparr> = m1\<lparr>start_line := sl\<rparr>" using buf by (cases m1) simp
  obtain s' where s': "generator_body_stage (generator_vtable apr) buf (m1\<lparr>start_line := sl, body := []\<rparr>) ?g s1 =
      Some (if length buf - 0 \<le> ts_room s1
            then (APT_MESSAGE_STATUS_COMPLETE, m1\<lparr>start_line := sl, body := [], body := buf\<rparr>,
              ?g\<lparr>gen_stage := APT_MESSAGE_STAGE_START_LINE\<rparr>, s')
            else (APT_MESSAGE_STATUS_INCOMPLETE, m1\<lparr>start_line := sl, body := [], body := take (0 + ts_room s1) buf\<rparr>, ?g, s'))"
      "ts_written s' = ts_written s1 @ take (ts_room s1) (drop 0 buf)"
      "ts_whole s'" "ts_end s' = ts_end s1" "length (ts_mem s') = length (ts_mem s1)"
    by (rule generator_body_part [OF s1(2) lt body g])
  then show ?thesis
    using run False s1 m by (intro that [of s']) simp_all
qed

text \<open>
  Sending a message whose head fits into the transmit buffer: the loop ends, and the pieces that were handed to the socket
  make up the message.
\<close>

lemma message_send_pieces:
  assumes apr: "apr_fmt_ok apr" and m: "mrcp_message_validate m = Some (True, m1)" "version (start_line m1) = MRCP_VERSION_2"
    and room: "head_size m1 + 1 < length tx" "head_size m1 + length (body m1) + 1 < 10 ^ 6"
    and g: "gen_message g \<noteq> Some a \<or> gen_stage g = APT_MESSAGE_STAGE_START_LINE"
  shows "\<exists>n cs g' tx'. message_send_loop apr send a (body m1) status g m tx w =
      Some (fst (send_all send cs (status, w)), g', m1\<lparr>start_line := (start_line m1)\<lparr>sl_length := n\<rparr>\<rparr>, tx',
        snd (send_all send cs (status, w))) \<and>
    concat cs = wire_head m1 n @ body m1 \<and> n = length (concat cs) \<and> n < 10 ^ 6 \<and> length tx' = length tx \<and>
    gen_stage g' = APT_MESSAGE_STAGE_START_LINE \<and> (\<forall>c \<in> set cs. c \<noteq> [] \<and> length c < length tx)"
proof -
  let ?s = "apt_text_stream_init tx (length tx - 1)" and ?buf = "body m1"
  have tx: "tx \<noteq> []" "1 < length tx" using room(1) by auto
  note s = tx_stream [OF tx(1)]
  have fits: "head_size m1 < ts_room ?s" using room(1) s(3) by simp
  obtain n s1 where run: "mrcp_generator_run apr g a ?buf m ?s =
      generator_body_stage (generator_vtable apr) ?buf (m1\<lparr>start_line := (start_line m1)\<lparr>sl_length := n\<rparr>, body := []\<rparr>)
        \<lparr>gen_message = Some a, gen_content_length = length ?buf,
         gen_stage = (if ?buf = [] then APT_MESSAGE_STAGE_START_LINE else APT_MESSAGE_STAGE_BODY)\<rparr> s1"
    and n: "ts_written s1 = wire_head m1 n" "n = length (wire_head m1 n) + length ?buf" "n < 10 ^ 6"
    and s1: "ts_whole s1" "ts_end s1 = ts_end ?s" "ts_pos s1 = ts_pos ?s + head_size m1" "length (ts_mem s1) = length (ts_mem ?s)"
    by (rule generator_starts [OF apr s(1,2) m fits room(2) g, of ?buf])
  let ?m = "m1\<lparr>start_line := (start_line m1)\<lparr>sl_length := n\<rparr>\<rparr>" and ?r = "ts_room s1"
  let ?g = "\<lparr>gen_message = Some a, gen_content_length = length ?buf, gen_stage = APT_MESSAGE_STAGE_START_LINE\<rparr>"
  let ?b = "\<lparr>gen_message = Some a, gen_content_length = length ?buf, gen_stage = APT_MESSAGE_STAGE_BODY\<rparr>"
  let ?c = "wire_head m1 n @ take ?r ?buf"
  obtain s' where first: "mrcp_generator_run apr g a ?buf m ?s =
      Some (if length ?buf \<le> ?r then (APT_MESSAGE_STATUS_COMPLETE, ?m, ?g, s')
            else (APT_MESSAGE_STATUS_INCOMPLETE, ?m\<lparr>body := take ?r ?buf\<rparr>, ?b, s'))"
    and s': "ts_written s' = ?c" "ts_whole s'" "ts_end s' = ts_end ?s" "length (ts_mem s') = length (ts_mem s1)"
    by (rule generator_first_run [OF run n(1) s1(1,2) refl])
  have mem: "length (ts_mem s') = length tx" using s'(4) s1(4) s(5) by simp
  have pos: "ts_pos s' < length (ts_mem s')" using s'(2,3) mem s(6) by (simp add: ts_whole_def ts_wf_def)
  have "length (ts_written s') \<le> ts_pos s'" by (simp add: ts_written_def)
  then have c: "?c \<noteq> []" "length ?c < length tx"
    using s'(1) pos mem by (simp_all add: wire_head_def v2_line_def)
  define tx1 where "tx1 = (ts_mem s')[ts_pos s' := APT_NUL]"
  have tx1: "length tx1 = length tx" by (simp add: tx1_def mem)
  have step: "message_send_step apr send a ?buf g m tx w =
      Some (if length ?buf \<le> ?r then (APT_MESSAGE_STATUS_COMPLETE, fst (send ?c w), ?g, ?m, tx1, snd (send ?c w))
            else (APT_MESSAGE_STATUS_INCOMPLETE, fst (send ?c w), ?b,
                  ?m\<lparr>body := take ?r ?buf\<rparr>, tx1, snd (send ?c w)))"
    using first s'(1) pos by (simp add: message_send_step_def tx1_def split_def Let_def)
  show ?thesis
  proof (cases "length ?buf \<le> ?r")
    case True
    then have "message_send_loop apr send a ?buf status g m tx w =
        Some (status \<or> fst (send ?c w), ?g, ?m, tx1, snd (send ?c w))"
      by (subst message_send_loop.simps) (simp add: step)
    with True c tx1 n(2,3) show ?thesis
      by (intro exI [of _ n] exI [of _ "[?c]"] exI [of _ ?g] exI [of _ tx1]) simp
  next
    case False
    let ?w = "snd (send ?c w)" and ?st = "status \<or> fst (send ?c w)"
    have "message_send_loop apr send a ?buf status g m tx w =
        message_send_loop apr send a ?buf ?st ?b (?m\<lparr>body := take ?r ?buf\<rparr>) tx1 ?w"
      using False by (subst message_send_loop.simps) (simp add: step)
    moreover obtain cs tx' where "message_send_loop apr send a ?buf ?st ?b
          (?m\<lparr>body := take ?r ?buf\<rparr>) tx1 ?w =
        Some (fst (send_all send cs (?st, ?w)), ?g, ?m, tx', snd (send_all send cs (?st, ?w)))"
        "concat cs = drop ?r ?buf" "length tx' = length tx" "\<forall>c \<in> set cs. c \<noteq> [] \<and> length c < length tx"
      using send_body [of tx1 ?r ?buf "?m\<lparr>body := take ?r ?buf\<rparr>" ?b a apr send ?st ?w]
        False tx(2) tx1 by auto
    ultimately show ?thesis using c n(2,3)
      by (intro exI [of _ n] exI [of _ "?c # cs"] exI [of _ ?g] exI [of _ tx']) simp
  qed
qed

section \<open>Receiving ends and stays in the buffer\<close>

lemma receive_step_reads:
  assumes "ts_whole s" "receiving parser"
    and "receive_step apr hash garbage handler (parser, s, pool, agent) = Some (ok, parser', s', pool', agent')"
  shows "receiving parser'" "ts_whole s'" "ts_reads s s'" "apt_text_is_eos s' \<or> ts_pos s < ts_pos s'"
proof -
  obtain status m where run: "mrcp_parser_run apr hash (garbage pool) pool parser s = Some (status, m, parser', s', pool')"
    using assms(3) by (auto simp: receive_step_def split: bind_splits prod.splits)
  from mrcp_parser_run_reads [OF assms(1,2) run]
  show "receiving parser'" "ts_whole s'" "ts_reads s s'" "apt_text_is_eos s' \<or> ts_pos s < ts_pos s'" by simp_all
qed

text \<open>The loop ends for every content of the buffer and every handler, and leaves the stream inside of its window.\<close>

lemma receive_loop_ends:
  assumes "ts_whole s" "receiving parser"
  shows "\<exists>r. receive_loop apr hash garbage handler (parser, s, pool, agent) = Some r \<and>
    (\<forall>ok parser' s' pool' agent'. r = Some (ok, parser', s', pool', agent') \<longrightarrow>
       receiving parser' \<and> ts_whole s' \<and> ts_reads s s' \<and> (ok \<longrightarrow> apt_text_is_eos s'))"
  using assms
proof (induction "ts_end s - ts_pos s" arbitrary: s parser pool agent rule: less_induct)
  case less
  let ?loop = "receive_loop apr hash garbage handler" and ?step = "receive_step apr hash garbage handler"
  show ?case
  proof (cases "?step (parser, s, pool, agent)")
    case None
    then show ?thesis by (subst receive_loop.simps) simp
  next
    case (Some r)
    obtain ok parser1 s1 pool1 agent1 where r: "r = (ok, parser1, s1, pool1, agent1)" by (metis prod_cases5)
    note step = receive_step_reads [OF less.prems Some [unfolded r]]
    show ?thesis
    proof (cases "ok \<and> \<not> apt_text_is_eos s1")
      case False
      then show ?thesis using step Some r by (subst receive_loop.simps) auto
    next
      case True
      have wf: "ts_wf s" using less.prems(1) by (simp add: ts_whole_def)
      note reads = ts_reads_wf [OF wf step(3)]
      have "ts_end s1 - ts_pos s1 < ts_end s - ts_pos s"
        using True step(4) reads(3) by (auto simp: apt_text_is_eos_def)
      from less.hyps [OF this step(2,1), of pool1 agent1]
      obtain r' where r': "?loop (parser1, s1, pool1, agent1) = Some r'"
          "\<forall>ok parser' s' pool' agent'. r' = Some (ok, parser', s', pool', agent') \<longrightarrow>
             receiving parser' \<and> ts_whole s' \<and> ts_reads s1 s' \<and> (ok \<longrightarrow> apt_text_is_eos s')"
        by blast
      have "?loop (parser, s, pool, agent) = Some r'"
        using r'(1) Some r True by (subst receive_loop.simps) simp
      then show ?thesis using r'(2) ts_reads_trans [OF wf step(3)] by blast
    qed
  qed
qed

text \<open>Scrolling keeps what is left of the text, at the start of the buffer.\<close>

lemma scroll_keeps_rest:
  assumes "ts_whole s" "ts_buf s = 0" "ts_end s < length (ts_mem s)"
  obtains b s' where "apt_text_stream_scroll s = Some (b, s')" "ts_buf s' = 0" "length (ts_mem s') = length (ts_mem s)"
    and "ts_pos s' = length (ts_rest s)" "ts_written s' = ts_rest s"
proof -
  have wf: "ts_pos s \<le> ts_end s" "ts_length s = ts_end s" using assms(1,2) by (auto simp: ts_whole_def ts_wf_def)
  have len: "length (ts_rest s) = ts_end s - ts_pos s"
    using length_ts_rest [of s] assms(1) by (simp add: ts_whole_def)
  consider "ts_pos s = ts_end s" | "ts_pos s = 0" "0 < ts_end s" | "0 < ts_pos s" "ts_pos s < ts_end s"
    using wf by linarith
  moreover have mem: "ts_mem s \<noteq> []" using assms(3) by auto
  ultimately show ?thesis
  proof cases
    case 1
    then show ?thesis
      using assms(2,3) len mem that [of True "s\<lparr>ts_pos := 0, ts_mem := (ts_mem s)[0 := APT_NUL]\<rparr>"]
      by (simp add: apt_text_stream_scroll_def Let_def ts_written_def)
  next
    case 2
    then show ?thesis
      using assms(2,3) len wf that [of False "s\<lparr>ts_pos := ts_end s\<rparr>"]
      by (simp add: apt_text_stream_scroll_def Let_def ts_written_def ts_rest_def)
  next
    case 3
    let ?n = "ts_end s - ts_pos s"
    let ?m = "mem_move (ts_mem s) 0 (ts_pos s) ?n"
    have m: "take ?n ?m = ts_rest s" "length ?m = length (ts_mem s)"
      using assms(3) wf by (simp_all add: mem_move_def ts_rest_def)
    have "\<not> ts_end s < ts_pos s" "?n \<noteq> ts_end s" "?n \<noteq> 0" "?n < length (ts_mem s)" using 3 assms(3) by simp_all
    then have "apt_text_stream_scroll s = Some (True, s\<lparr>ts_mem := ?m[?n := APT_NUL], ts_pos := ?n, ts_length := ?n\<rparr>)"
      using 3 assms(2) wf m(2) by (simp add: apt_text_stream_scroll_def Let_def)
    then show ?thesis
      by (rule that) (use m assms(2) len in \<open>simp_all add: ts_written_def\<close>)
  qed
qed

text \<open>The receive buffer between two calls: the cursor is behind the bytes that are left.\<close>

definition rx_ok :: "nat \<Rightarrow> apt_text_stream \<Rightarrow> bool" where
  "rx_ok n s \<longleftrightarrow> ts_buf s = 0 \<and> length (ts_mem s) = n + 1 \<and> ts_pos s \<le> n"

text \<open>The stream that is parsed: what was left and what was received.\<close>

definition rx_filled :: "apt_text_stream \<Rightarrow> string \<Rightarrow> apt_text_stream" where
  "rx_filled s data =
     apt_text_stream_reset (s\<lparr>ts_mem := mem_store (ts_mem s) (ts_pos s) (data @ [APT_NUL]), ts_length := ts_pos s + length data\<rparr>)"

lemma rx_filled:
  assumes "rx_ok n s" "ts_pos s + length data \<le> n"
  shows "ts_whole (rx_filled s data)" "ts_rest (rx_filled s data) = ts_written s @ data" "\<not> is_eos (rx_filled s data)"
    "ts_buf (rx_filled s data) = 0" "length (ts_mem (rx_filled s data)) = n + 1" "ts_end (rx_filled s data) \<le> n"
    "ts_put (data @ [APT_NUL]) s = Some (s\<lparr>ts_mem := mem_store (ts_mem s) (ts_pos s) (data @ [APT_NUL]),
       ts_pos := ts_pos s + (length data + 1)\<rparr>)"
  using assms by (auto simp: rx_ok_def rx_filled_def apt_text_stream_reset_def ts_whole_def ts_wf_def ts_rest_def
    ts_written_def mem_store_def ts_put_def)

text \<open>
  Receiving at most as many bytes as there are free cells: nothing is stored outside of the buffer, the loop ends, and
  afterwards the buffer holds the bytes that were not consumed. A fault can only come from a handler or from parsing.
\<close>

lemma connection_receive_ends:
  assumes rx: "rx_ok n s" "ts_pos s + length data \<le> n" and parser: "receiving parser"
  shows "\<exists>r. receive_loop apr hash garbage handler (parser, rx_filled s data, pool, agent) = Some r \<and>
    (case r of None \<Rightarrow> connection_receive apr hash garbage handler data (parser, s, pool, agent) = None
     | Some (ok, parser', t, pool', agent') \<Rightarrow>
         \<exists>s'. connection_receive apr hash garbage handler data (parser, s, pool, agent) = Some (ok, parser', s', pool', agent') \<and>
           rx_ok n s' \<and> receiving parser' \<and> (if ok then ts_written s' = ts_rest t else s' = t))"
proof -
  let ?s = "rx_filled s data"
  define loop where "loop = receive_loop apr hash garbage handler (parser, ?s, pool, agent)"
  note s = rx_filled [OF rx]
  obtain r where r: "loop = Some r" "\<And>ok parser' s' pool' agent'. r = Some (ok, parser', s', pool', agent') \<Longrightarrow>
       receiving parser' \<and> ts_whole s' \<and> ts_reads ?s s'"
    using receive_loop_ends [OF s(1) parser, of apr hash garbage handler pool agent] by (auto simp: loop_def)
  have fill: "apt_text_stream_reset (s\<lparr>ts_mem := mem_store (ts_mem s) (ts_pos s) (data @ [APT_NUL]),
       ts_pos := ts_pos s + (length data + 1), ts_pos := ts_pos s, ts_length := ts_pos s - ts_buf s + length data\<rparr>) = ?s"
    using rx(1) by (simp add: rx_filled_def apt_text_stream_reset_def rx_ok_def)
  have recv: "connection_receive apr hash garbage handler data (parser, s, pool, agent) =
      (do {
        (ok, parser, s, pool, agent) \<leftarrow> r;
        if \<not> ok then Some (False, parser, s, pool, agent)
        else do { (_, s) \<leftarrow> apt_text_stream_scroll s; Some (True, parser, s, pool, agent) }
      })"
    using r(1) fill by (simp add: connection_receive_def s(7) loop_def Let_def)
  show ?thesis
  proof (cases r)
    case None
    then show ?thesis using r(1) recv by (simp add: loop_def)
  next
    case (Some x)
    obtain ok parser' t pool' agent' where x: "x = (ok, parser', t, pool', agent')" by (metis prod_cases5)
    have t: "receiving parser'" "ts_whole t" "ts_reads ?s t" using r(2) Some x by auto
    have wf: "ts_wf ?s" using s(1) by (simp add: ts_whole_def)
    note frame = ts_reads_wf [OF wf t(3)]
    have buf: "ts_buf t = 0" "length (ts_mem t) = n + 1" "ts_end t \<le> n" using frame s(4-6) by simp_all
    have fits: "ts_end t < length (ts_mem t)" using buf by simp
    obtain b s' where s': "apt_text_stream_scroll t = Some (b, s')" "ts_buf s' = 0" "length (ts_mem s') = length (ts_mem t)"
        "ts_pos s' = length (ts_rest t)" "ts_written s' = ts_rest t"
      by (rule scroll_keeps_rest [OF t(2) buf(1) fits])
    have "rx_ok n s'" using s' buf length_ts_rest [of t] t(2) by (simp add: rx_ok_def ts_whole_def)
    moreover have "rx_ok n t" using buf t(2) by (simp add: rx_ok_def ts_whole_def ts_wf_def)
    ultimately show ?thesis using r(1) recv Some x s'(1,5) t(1) by (cases ok) (simp_all add: loop_def)
  qed
qed

end
