(* ===== verification/Apt_Message_Segments.thy ===== *)
theory Apt_Message_Segments
  imports Apt_Text_Message
begin

text \<open>
  Messages that arrive in pieces: the parser of \<open>libs/apr-toolkit/src/apt_text_message.c\<close> is run on what is left of the
  text so far and the next piece, cut anywhere, also between a carriage return and its line feed. For a message without
  folded lines the parser ends up with the message it would have got in one piece.
\<close>

section \<open>Lines that are cut\<close>

text \<open>The last end of line may still miss its line feed.\<close>

abbreviation missing :: "bool \<Rightarrow> string" where
  "missing c \<equiv> (if c then [APT_TOKEN_LF] else [])"

lemma line_read_cut:
  assumes "no_eol line"
  shows "ts_rest s = line \<Longrightarrow> apt_text_line_read s = (False, line, s\<lparr>is_eos := True\<rparr>)"
    and "ts_rest s = line @ [APT_TOKEN_CR] \<Longrightarrow> apt_text_line_read s = (True, line, s\<lparr>ts_pos := ts_pos s + (length line + 1)\<rparr>)"
proof -
  have "line_scan (line @ [APT_TOKEN_CR]) = (line, Some (length line + 1))"
    using assms by (induction line) (auto simp: cr_length_def)
  then show "ts_rest s = line @ [APT_TOKEN_CR] \<Longrightarrow>
      apt_text_line_read s = (True, line, s\<lparr>ts_pos := ts_pos s + (length line + 1)\<rparr>)"
    by (simp add: apt_text_line_read_def)
  show "ts_rest s = line \<Longrightarrow> apt_text_line_read s = (False, line, s\<lparr>is_eos := True\<rparr>)"
    using line_scan_none [OF assms] by (simp add: apt_text_line_read_def)
qed

lemma header_scan_cut: "no_eol cs \<Longrightarrow> \<not> fst (header_scan cs i nb nl vb)"
  by (induction cs arbitrary: i nb nl vb) (simp_all add: Let_def)

text \<open>What follows the carriage return only matters for how far the cursor moves.\<close>

lemma header_scan_cr:
  "no_eol cs \<Longrightarrow> \<exists>r. \<forall>ds. header_scan (cs @ APT_TOKEN_CR # ds) i nb nl vb = (True, i + length cs + cr_length ds, r)"
proof (induction cs arbitrary: i nb nl vb)
  case (Cons c cs)
  have IH: "\<exists>r. \<forall>ds. header_scan (cs @ APT_TOKEN_CR # ds) (Suc i) nb' nl' vb' = (True, i + length (c # cs) + cr_length ds, r)"
    for nb' nl' vb'
    using Cons.IH [of "Suc i" nb' nl' vb'] Cons.prems by simp
  show ?case using IH Cons.prems by (cases "nl = 0") (simp_all add: Let_def split del: if_split)
qed simp

definition field_text :: "apt_header_field \<Rightarrow> string" where
  "field_text f = hf_name f @ [CHR '':'', APT_TOKEN_SP] @ hf_value f"

lemma field_line_text: "field_line f = field_text f @ CRLF"
  by (simp add: field_line_def field_text_def)

lemma field_text_ok: "field_ok f \<Longrightarrow> no_eol (field_text f)"
  by (simp add: field_ok_def field_text_def header_name_ok_def header_value_ok_def)

lemma field_text_nonempty [simp]: "field_text f \<noteq> []"
  by (simp add: field_text_def)

lemma header_read_cr:
  assumes "field_ok f" "ts_rest s = field_text f @ [APT_TOKEN_CR]"
  shows "apt_text_header_read s = (True, hf_name f, hf_value f, s\<lparr>ts_pos := ts_pos s + (length (field_text f) + 1)\<rparr>)"
proof -
  have ok: "header_name_ok (hf_name f)" "header_value_ok (hf_value f)" using assms(1) by (simp_all add: field_ok_def)
  obtain r where r: "\<And>ds. header_scan (field_text f @ APT_TOKEN_CR # ds) 0 None 0 None =
      (True, length (field_text f) + cr_length ds, r)"
    using header_scan_cr [OF field_text_ok [OF assms(1)], of 0 None 0 None] by auto
  have "r = (Some 0, length (hf_name f), if hf_value f = [] then None else Some (length (hf_name f) + 2), length (hf_value f))"
    using r [of "[APT_TOKEN_LF]"] header_scan_line [OF ok, of "[]"] by (simp add: field_text_def)
  moreover have "hf_name f \<noteq> []" using ok(1) by (simp add: header_name_ok_def)
  ultimately show ?thesis
    using r [of "[]"] assms(2) by (auto simp: apt_text_header_read_def span_def Let_def cr_length_def field_text_def)
qed

lemma header_read_cut: "no_eol (ts_rest s) \<Longrightarrow> \<exists>nm v. apt_text_header_read s = (False, nm, v, s\<lparr>is_eos := True\<rparr>)"
  using header_scan_cut [of "ts_rest s" 0 None 0 None] by (auto simp: apt_text_header_read_def Let_def split: prod.splits)

text \<open>A field whose line is incomplete, complete but for the line feed, and complete.\<close>

lemma field_parse_cut: "no_eol (ts_rest s) \<Longrightarrow> apt_header_field_parse s = (None, s\<lparr>is_eos := True\<rparr>)"
  using header_read_cut [of s] by (auto simp: apt_header_field_parse_def Let_def)

lemma field_parse_cr:
  assumes "ts_wf s" "field_ok f" "ts_rest s = field_text f @ [APT_TOKEN_CR]"
  shows "apt_header_field_parse s =
    (Some (f\<lparr>hf_id := UNKNOWN_HEADER_FIELD_ID\<rparr>), s\<lparr>ts_pos := ts_pos s + (length (field_text f) + 1)\<rparr>)"
proof -
  let ?s = "s\<lparr>ts_pos := ts_pos s + (length (field_text f) + 1)\<rparr>"
  have "ts_rest ?s = []" using ts_advance(2) [OF assms(1), of "length (field_text f) + 1"] assms(3) by simp
  then have "fold_lines ?s = ([], ?s)" by (intro fold_lines_stop) simp
  moreover have "hf_name f \<noteq> []" using assms(2) by (simp add: field_ok_def header_name_ok_def)
  ultimately show ?thesis
    using header_read_cr [OF assms(2,3)] by (simp add: apt_header_field_parse_def)
qed

lemma field_parse_whole:
  assumes "ts_wf s" "field_ok f" "ts_rest s = field_line f @ rest" "rest = [] \<or> \<not> apt_text_is_wsp (hd rest)"
  shows "apt_header_field_parse s =
    (Some (f\<lparr>hf_id := UNKNOWN_HEADER_FIELD_ID\<rparr>), s\<lparr>ts_pos := ts_pos s + length (field_line f)\<rparr>)"
proof (cases "rest = []")
  case True
  let ?s = "s\<lparr>ts_pos := ts_pos s + length (field_line f)\<rparr>"
  have "ts_rest ?s = []" using ts_advance(2) [OF assms(1), of "length (field_line f)"] assms(3) True by simp
  then have "fold_lines ?s = ([], ?s)" by (intro fold_lines_stop) simp
  moreover have "apt_text_header_read s = (True, hf_name f, hf_value f, ?s)"
    using header_read_line [of "hf_name f" "hf_value f" s "[]"] assms(2,3) True by (simp add: field_ok_def field_line_def)
  moreover have "hf_name f \<noteq> []" using assms(2) by (simp add: field_ok_def header_name_ok_def)
  ultimately show ?thesis by (simp add: apt_header_field_parse_def)
next
  case False
  then show ?thesis using field_parse_line(1) [OF assms(1-3)] assms(4) by simp
qed

section \<open>Sections that are cut\<close>

text \<open>
  Where the parser of a section stops when the text \<open>cs\<close> of the section is cut: \<open>dn\<close> are the fields it has got, \<open>left\<close> is
  the text it has not consumed, and \<open>lf\<close> says that the last line feed is missing. In \<open>b\<close> the section is complete.
\<close>

definition section_stops ::
  "field_obj list \<Rightarrow> string \<Rightarrow> bool \<Rightarrow> field_obj list \<Rightarrow> field_obj list \<Rightarrow> string \<Rightarrow> bool \<Rightarrow> bool"
where
  "section_stops ring cs b dn todo left lf \<longleftrightarrow>
     ring = dn @ todo \<and> cs @ missing lf = ring_text dn @ (if b then CRLF else []) @ left \<and>
     (lf \<longrightarrow> left = []) \<and> (b \<longrightarrow> todo = []) \<and> (\<not> b \<longrightarrow> no_eol left)"

lemma append_cases:
  assumes "cs @ ds = xs @ ys"
  obtains zs where "xs = cs @ zs" "ds = zs @ ys" | zs where "cs = xs @ zs" "ys = zs @ ds"
  using assms by (auto simp: append_eq_append_conv2)

text \<open>A cut line: before its end, between carriage return and line feed, or behind it.\<close>

lemma line_cases:
  assumes "cs @ ds = line @ CRLF @ rs"
  obtains zs where "line = cs @ zs" | "cs = line @ [APT_TOKEN_CR]" "ds = APT_TOKEN_LF # rs"
    | cs' where "cs = line @ CRLF @ cs'" "cs' @ ds = rs"
  using assms
proof (rule append_cases)
  fix zs assume "cs = line @ zs" "CRLF @ rs = zs @ ds"
  then show thesis using that by (cases zs; cases "tl zs") auto
qed (use that in blast)

lemma section_stops_length: "section_stops ring cs b dn todo left lf \<Longrightarrow> length left \<le> length cs"
  unfolding section_stops_def by (cases lf) (auto dest: arg_cong [where f = length])

lemma section_stops_last:
  assumes "section_stops ring cs b dn todo left lf"
  shows "cs = [] \<Longrightarrow> \<not> lf" "cs \<noteq> [] \<Longrightarrow> left = [] \<and> last cs = APT_TOKEN_CR \<longleftrightarrow> lf"
proof -
  define xs where "xs = ring_text dn @ (if b then CRLF else [])"
  have xs: "xs = [] \<or> (\<exists>ys. xs = ys @ CRLF)"
    by (cases b; cases dn rule: rev_cases) (auto simp: xs_def ring_text_def field_line_text)
  have cs: "cs @ missing lf = xs @ left" "lf \<longrightarrow> left = []"
    using assms by (auto simp: section_stops_def xs_def)
  have cut: "\<exists>ys. cs = ys @ [APT_TOKEN_CR] \<and> left = []" if lf
    using cs xs that by auto
  show "cs = [] \<Longrightarrow> \<not> lf" using cut by auto
  show "left = [] \<and> last cs = APT_TOKEN_CR \<longleftrightarrow> lf" if "cs \<noteq> []"
    using cut cs xs that by (cases lf) auto
qed

lemma section_text_hd: "\<forall>f \<in> set ring. field_ok (snd f) \<Longrightarrow> \<not> apt_text_is_wsp (hd (ring_text ring @ CRLF @ rs))"
  by (cases ring) (auto simp: ring_text_def field_line_def field_ok_def header_name_ok_def apt_text_is_wsp_def hd_append)

lemma section_parse_cut:
  assumes "ts_wf s" "\<not> is_eos s" "ts_rest s @ ds = ring_text ring @ CRLF @ rs"
    and "\<forall>f \<in> set ring. field_ok (snd f)" "length (hs_arr h) \<le> UNKNOWN_HEADER_FIELD_ID"
  shows "\<exists>b dn todo left lf e.
    section_stops ring (ts_rest s) b dn todo left lf \<and>
    apt_header_section_parse pool h s =
      (b, h\<lparr>hs_ring := hs_ring h @ parsed_ring pool dn\<rparr>,
       s\<lparr>ts_pos := ts_pos s + (length (ts_rest s) - length left), is_eos := e\<rparr>,
       pool + length dn + (if b then 1 else 0)) \<and>
    (b \<longrightarrow> \<not> e) \<and> (\<not> b \<and> left \<noteq> [] \<longrightarrow> e)"
  using assms
proof (induction ring arbitrary: pool h s)
  case Nil
  have input: "ts_rest s @ ds = [] @ CRLF @ rs" using Nil.prems(3) by (simp add: ring_text_def)
  have upd: "h\<lparr>hs_ring := hs_ring h\<rparr> = h" "s\<lparr>is_eos := False\<rparr> = s" using Nil.prems(2) by simp_all
  from input show ?case
  proof (rule line_cases)
    fix zs assume "[] = ts_rest s @ zs"
    then have r: "ts_rest s = []" by simp
    then show ?thesis
      by (intro exI [of _ False] exI [of _ "[]"] exI [of _ "[]"] exI [of _ "[]"] exI [of _ False] exI [of _ True])
        (simp add: section_stops_def ring_text_def apt_header_section_parse.simps [of pool h s] field_parse_cut upd
          apt_text_is_eos_def)
  next
    assume r: "ts_rest s = [] @ [APT_TOKEN_CR]"
    then have "apt_text_header_read s = (True, [], [], s\<lparr>ts_pos := ts_pos s + 1\<rparr>)"
      by (simp add: apt_text_header_read_def span_def span_end_def Let_def cr_length_def)
    with r Nil.prems(2) show ?thesis
      by (intro exI [of _ True] exI [of _ "[]"] exI [of _ "[]"] exI [of _ "[]"] exI [of _ True] exI [of _ False])
        (simp add: section_stops_def ring_text_def apt_header_section_parse.simps [of pool h s] apt_header_field_parse_def upd)
  next
    fix cs' assume r: "ts_rest s = [] @ CRLF @ cs'"
    with header_read_empty [of s cs'] Nil.prems(2) show ?thesis
      by (intro exI [of _ True] exI [of _ "[]"] exI [of _ "[]"] exI [of _ cs'] exI [of _ False] exI [of _ False])
        (simp add: section_stops_def ring_text_def apt_header_section_parse.simps [of pool h s] apt_header_field_parse_def upd)
  qed
next
  case (Cons f ring)
  let ?g = "(snd f)\<lparr>hf_id := UNKNOWN_HEADER_FIELD_ID\<rparr>"
  let ?h = "h\<lparr>hs_ring := hs_ring h @ [(pool, ?g)]\<rparr>"
  have ok: "field_ok (snd f)" and ne: "hf_name (snd f) \<noteq> []"
    using Cons.prems(4) by (auto simp: field_ok_def header_name_ok_def)
  have add: "snd (apt_header_section_field_add (pool, ?g) h) = ?h"
    using Cons.prems(5) by (simp add: apt_header_section_field_add_def Let_def)
  have input: "ts_rest s @ ds = field_text (snd f) @ CRLF @ ring_text ring @ CRLF @ rs"
    using Cons.prems(3) by (simp add: ring_text_def field_line_text)
  from input show ?case
  proof (rule line_cases)
    fix zs assume "field_text (snd f) = ts_rest s @ zs"
    then have r: "no_eol (ts_rest s)" using field_text_ok [OF ok] by simp
    have upd: "h\<lparr>hs_ring := hs_ring h\<rparr> = h" by simp
    show ?thesis
      by (intro exI [of _ False] exI [of _ "[]"] exI [of _ "f # ring"] exI [of _ "ts_rest s"] exI [of _ False] exI [of _ True])
        (simp add: section_stops_def ring_text_def apt_header_section_parse.simps [of pool h s] field_parse_cut [OF r] r upd
          apt_text_is_eos_def)
  next
    assume r: "ts_rest s = field_text (snd f) @ [APT_TOKEN_CR]"
    have "ts_end s \<le> ts_pos s + (length (field_text (snd f)) + 1)"
      using r length_ts_rest [OF Cons.prems(1)] by simp
    then show ?thesis
      using Cons.prems(2) r
      by (intro exI [of _ False] exI [of _ "[f]"] exI [of _ ring] exI [of _ "[]"] exI [of _ True] exI [of _ False])
        (simp add: section_stops_def ring_text_def field_line_text apt_header_section_parse.simps [of pool h s]
          field_parse_cr [OF Cons.prems(1) ok r] ne add apt_text_is_eos_def Let_def)
  next
    fix cs' assume r: "ts_rest s = field_text (snd f) @ CRLF @ cs'" and more: "cs' @ ds = ring_text ring @ CRLF @ rs"
    let ?s = "s\<lparr>ts_pos := ts_pos s + length (field_line (snd f))\<rparr>"
    have line: "ts_rest s = field_line (snd f) @ cs'" using r by (simp add: field_line_text)
    have hd: "cs' = [] \<or> \<not> apt_text_is_wsp (hd cs')"
      using more section_text_hd [of ring rs] Cons.prems(4) by (cases cs') (auto dest: sym)
    have s: "ts_wf ?s" "ts_rest ?s = cs'" "\<not> is_eos ?s"
      using ts_advance [OF Cons.prems(1), of "length (field_line (snd f))"] line Cons.prems(2) by simp_all
    show ?thesis
    proof (cases "cs' = []")
      case True
      then have "ts_end s \<le> ts_pos s + length (field_line (snd f))"
        using line length_ts_rest [OF Cons.prems(1)] by simp
      then show ?thesis
        using Cons.prems(2) line True
        by (intro exI [of _ False] exI [of _ "[f]"] exI [of _ ring] exI [of _ "[]"] exI [of _ False] exI [of _ False])
          (simp add: section_stops_def ring_text_def apt_header_section_parse.simps [of pool h s]
            field_parse_whole [OF Cons.prems(1) ok line hd] ne add apt_text_is_eos_def Let_def)
    next
      case False
      have "\<not> apt_text_is_eos ?s" using False s ts_rest_nonempty [of ?s] by (simp add: apt_text_is_eos_def)
      then have step: "apt_header_section_parse pool h s = apt_header_section_parse (pool + 1) ?h ?s"
        by (simp add: apt_header_section_parse.simps [of pool h s] field_parse_whole [OF Cons.prems(1) ok line hd] ne add Let_def)
      have pre: "ts_rest ?s @ ds = ring_text ring @ CRLF @ rs" "\<forall>f \<in> set ring. field_ok (snd f)"
          "length (hs_arr ?h) \<le> UNKNOWN_HEADER_FIELD_ID"
        using s(2) more Cons.prems(4,5) by simp_all
      obtain b dn todo left lf e where IH: "section_stops ring (ts_rest ?s) b dn todo left lf"
          "apt_header_section_parse (pool + 1) ?h ?s =
            (b, ?h\<lparr>hs_ring := hs_ring ?h @ parsed_ring (pool + 1) dn\<rparr>,
             ?s\<lparr>ts_pos := ts_pos ?s + (length (ts_rest ?s) - length left), is_eos := e\<rparr>,
             pool + 1 + length dn + (if b then 1 else 0))"
          "b \<longrightarrow> \<not> e" "\<not> b \<and> left \<noteq> [] \<longrightarrow> e"
        using Cons.IH [OF s(1,3) pre, of "pool + 1"] by blast
      have "section_stops (f # ring) (ts_rest s) b (f # dn) todo left lf"
        using IH(1) line s(2) by (simp add: section_stops_def ring_text_def)
      moreover have "length left \<le> length cs'"
        using section_stops_length [OF IH(1)] s(2) by simp
      then have "apt_header_section_parse pool h s =
          (b, h\<lparr>hs_ring := hs_ring h @ parsed_ring pool (f # dn)\<rparr>,
           s\<lparr>ts_pos := ts_pos s + (length (ts_rest s) - length left), is_eos := e\<rparr>,
           pool + length (f # dn) + (if b then 1 else 0))"
        using line s(2) IH(2) by (simp add: step)
      ultimately show ?thesis using IH(3,4) by blast
    qed
  qed
qed

section \<open>Messages that are cut\<close>

text \<open>
  A message with the given start line, fields and content, for a protocol that makes \<open>m0\<close> of the start line and \<open>m1\<close> of the
  complete header. The fields are allocated from the address \<open>pool0\<close> on.
\<close>

definition head_message :: "'m apt_message_parser_vtable \<Rightarrow> 'm \<Rightarrow> nat \<Rightarrow> field_obj list \<Rightarrow> 'm" where
  "head_message vt m0 pool0 dn = ctx_header_put vt \<lparr>hs_ring = parsed_ring pool0 dn, hs_arr = []\<rparr> m0"

definition whole_message :: "'m apt_message_parser_vtable \<Rightarrow> string \<Rightarrow> 'm \<Rightarrow> 'm" where
  "whole_message vt content m1 = (if content = [] then m1 else ctx_body_put vt content m1)"

definition head_text :: "string \<Rightarrow> field_obj list \<Rightarrow> string" where
  "head_text line ring = line @ CRLF @ ring_text ring @ CRLF"

definition frames ::
  "'m apt_message_parser_vtable \<Rightarrow> string \<Rightarrow> field_obj list \<Rightarrow> string \<Rightarrow> 'm \<Rightarrow> 'm \<Rightarrow> nat \<Rightarrow> bool"
where
  "frames vt line ring content m0 m1 pool0 \<longleftrightarrow>
     no_eol line \<and> (\<forall>f \<in> set ring. field_ok (snd f)) \<and> length content + 1 < 2 ^ 64 \<and>
     (\<forall>s l s'. apt_text_line_read s = (False, l, s') \<longrightarrow> on_start vt s = (None, s')) \<and>
     ctx_header vt m0 = apt_header_section_init \<and>
     on_header_complete vt (head_message vt m0 pool0 ring) = Some (True, m1, length content) \<and>
     (\<forall>h m. ctx_header vt (ctx_header_put vt h m) = h) \<and>
     (\<forall>h g m. ctx_header_put vt h (ctx_header_put vt g m) = ctx_header_put vt h m) \<and>
     (\<forall>m. ctx_header_put vt (ctx_header vt m) m = m) \<and>
     (\<forall>b m. ctx_body vt (ctx_body_put vt b m) = b) \<and>
     (\<forall>a b m. ctx_body_put vt a (ctx_body_put vt b m) = ctx_body_put vt a m)"

text \<open>
  What the parser and the stream hold after the text \<open>cs\<close> of the message: \<open>left\<close> is not consumed yet, and the parser waits
  for a line feed when the text was cut before it. \<open>complete\<close> says that the message has been delivered.
\<close>

definition reached ::
  "'m apt_message_parser_vtable \<Rightarrow> string \<Rightarrow> field_obj list \<Rightarrow> string \<Rightarrow> 'm \<Rightarrow> 'm \<Rightarrow> nat \<Rightarrow>
   string \<Rightarrow> 'm apt_message_parser \<Rightarrow> string \<Rightarrow> nat \<Rightarrow> bool \<Rightarrow> bool"
where
  "reached vt line ring content m0 m1 pool0 cs p left pool complete \<longleftrightarrow>
     (if complete then
        stage p = APT_MESSAGE_STAGE_START_LINE \<and> left = [] \<and> cs @ missing (skip_lf p) = head_text line ring @ content
      else
        (case stage p of
           APT_MESSAGE_STAGE_START_LINE \<Rightarrow> \<not> skip_lf p \<and> left = cs \<and> (\<exists>zs. line = cs @ zs) \<and> pool = pool0
         | APT_MESSAGE_STAGE_HEADER \<Rightarrow>
             (\<exists>dn todo. ring = dn @ todo \<and> context_message p = Some (head_message vt m0 pool0 dn) \<and>
                pool = pool0 + length dn \<and> cs @ missing (skip_lf p) = line @ CRLF @ ring_text dn @ left \<and>
                no_eol left \<and> (skip_lf p \<longrightarrow> left = []))
         | APT_MESSAGE_STAGE_BODY \<Rightarrow>
             (\<exists>b. context_message p = Some (ctx_body_put vt b m1) \<and> parser_content_length p = length content \<and> left = [] \<and>
                cs @ missing (skip_lf p) = head_text line ring @ b \<and> (\<exists>zs. content = b @ zs \<and> zs \<noteq> []))))"

lemma parsed_ring_append: "parsed_ring pool (xs @ ys) = parsed_ring pool xs @ parsed_ring (pool + length xs) ys"
  by (induction xs arbitrary: pool) simp_all

lemma ring_text_append: "ring_text (xs @ ys) = ring_text xs @ ring_text ys"
  by (simp add: ring_text_def)

text \<open>The test for a cut end of line looks at the last character that was read.\<close>

lemma ts_last:
  assumes "ts_wf s" "ts_rest s \<noteq> []"
  shows "ts_mem s ! (ts_end s - 1) = last (ts_rest s)" "0 < ts_end s" "ts_end s \<le> length (ts_mem s)"
proof -
  have lt: "ts_pos s < ts_end s" using ts_rest_nonempty [OF assms(2)] .
  show e: "0 < ts_end s" "ts_end s \<le> length (ts_mem s)" using lt assms(1) by (auto simp: ts_wf_def)
  have "last (ts_rest s) = ts_rest s ! (ts_end s - ts_pos s - 1)"
    using assms by (simp add: last_conv_nth length_ts_rest)
  also have "\<dots> = ts_mem s ! (ts_end s - 1)"
    using lt e(2) by (simp add: ts_rest_def)
  finally show "ts_mem s ! (ts_end s - 1) = last (ts_rest s)" by simp
qed

lemma crlf_test_cut:
  assumes "ts_wf s" "length left \<le> length (ts_rest s)"
    and "ts_rest s = [] \<Longrightarrow> 0 < ts_pos s \<and> (ts_mem s ! (ts_pos s - 1) = APT_TOKEN_CR \<longleftrightarrow> c0)"
  shows "apt_crlf_segmentation_test p (s\<lparr>ts_pos := ts_pos s + (length (ts_rest s) - length left), is_eos := e\<rparr>) =
    Some (if left = [] \<and> (if ts_rest s = [] then c0 else last (ts_rest s) = APT_TOKEN_CR) then p\<lparr>skip_lf := True\<rparr> else p)"
proof -
  have len: "length (ts_rest s) = ts_end s - ts_pos s" "ts_pos s \<le> ts_end s" "ts_end s \<le> length (ts_mem s)"
    using length_ts_rest [OF assms(1)] assms(1) by (auto simp: ts_wf_def)
  show ?thesis
  proof (cases "left = []")
    case True
    then show ?thesis
      using len assms(3) ts_last [OF assms(1)]
      by (cases "ts_rest s = []") (auto simp: apt_crlf_segmentation_test_def)
  next
    case False
    then have "ts_pos s + (length (ts_rest s) - length left) < ts_end s" using len assms(2) by (cases left) auto
    with False show ?thesis by (simp add: apt_crlf_segmentation_test_def)
  qed
qed

text \<open>The outcome of a run: what it reaches, and that the message is delivered exactly when it becomes complete.\<close>

definition run_reaches ::
  "'m apt_message_parser_vtable \<Rightarrow> string \<Rightarrow> field_obj list \<Rightarrow> string \<Rightarrow> 'm \<Rightarrow> 'm \<Rightarrow> nat \<Rightarrow>
   string \<Rightarrow> bool \<Rightarrow> 'm parser_result option \<Rightarrow> bool"
where
  "run_reaches vt line ring content m0 m1 pool0 cs c r \<longleftrightarrow>
     (\<exists>status mo p s pool c'. r = Some (status, mo, p, s, pool) \<and> apt_text_is_eos s \<and> (c \<longrightarrow> c') \<and>
        reached vt line ring content m0 m1 pool0 cs p (ts_rest s) pool c' \<and>
        (if c' \<and> \<not> c then status = APT_MESSAGE_STATUS_COMPLETE \<and> mo = Some (whole_message vt content m1)
         else status = APT_MESSAGE_STATUS_INCOMPLETE \<and> mo = None))"

lemma run_reachesI:
  assumes "r = Some (status, mo, p, s, pool)" "apt_text_is_eos s" "c \<longrightarrow> c'"
    and "reached vt line ring content m0 m1 pool0 cs p (ts_rest s) pool c'"
    and "if c' \<and> \<not> c then status = APT_MESSAGE_STATUS_COMPLETE \<and> mo = Some (whole_message vt content m1)
         else status = APT_MESSAGE_STATUS_INCOMPLETE \<and> mo = None"
  shows "run_reaches vt line ring content m0 m1 pool0 cs c r"
  using assms unfolding run_reaches_def by blast

lemma body_stage_cut:
  assumes vt: "frames vt line ring content m0 m1 pool0" and s: "ts_whole s"
    and p: "stage p = APT_MESSAGE_STAGE_BODY" "context_message p = Some (ctx_body_put vt b m1)"
      "parser_content_length p = length content"
    and content: "content = b @ ts_rest s @ ds" "length b < length content"
    and cs: "cs @ missing (skip_lf p) = head_text line ring @ b @ ts_rest s"
  shows "run_reaches vt line ring content m0 m1 pool0 cs False (parser_body_stage vt pool p s)"
proof -
  let ?d = "ts_rest s" and ?s = "s\<lparr>ts_pos := ts_pos s + length (ts_rest s)\<rparr>"
  have room: "ts_room s = length ?d" by (simp add: length_ts_rest_room [OF s])
  have wf: "ts_wf s" using s by (simp add: ts_whole_def)
  have rest: "ts_rest ?s = []" using ts_advance(2) [OF wf, of "length ?d"] by simp
  have eos: "apt_text_is_eos ?s" using length_ts_rest [OF wf] wf by (simp add: apt_text_is_eos_def ts_wf_def)
  have put: "ctx_body vt (ctx_body_put vt x m) = x" "ctx_body_put vt y (ctx_body_put vt x m) = ctx_body_put vt y m" for x y m
    using vt by (simp_all add: frames_def)
  have len: "length content - length b = length ?d + length ds" using content(1) by simp
  have read: "apt_message_body_read (length content) b s = Some (ds = [], b @ ?d, ?s)"
    using body_read_part [OF s, of "length content" b] len room by simp
  show ?thesis
  proof (cases "ds = []")
    case True
    then have bd: "content = b @ ?d" "content \<noteq> []" using content by auto
    have run: "parser_body_stage vt pool p s =
        Some (APT_MESSAGE_STATUS_COMPLETE, Some (ctx_body_put vt content m1),
          p\<lparr>context_message := Some (ctx_body_put vt content m1), stage := APT_MESSAGE_STAGE_START_LINE\<rparr>, ?s, pool)"
      using p read put True bd(1) [symmetric] by (simp add: parser_body_stage_def Let_def)
    show ?thesis
      by (rule run_reachesI [OF run eos, of _ True]) (use cs bd rest in \<open>auto simp: reached_def whole_message_def\<close>)
  next
    case False
    have run: "parser_body_stage vt pool p s =
        Some (APT_MESSAGE_STATUS_INCOMPLETE, None, p\<lparr>context_message := Some (ctx_body_put vt (b @ ?d) m1)\<rparr>, ?s, pool)"
      using p read put False by (simp add: parser_body_stage_def Let_def)
    have "\<exists>zs. content = (b @ ?d) @ zs \<and> zs \<noteq> []" using content(1) False by auto
    then show ?thesis
      using p cs rest by (intro run_reachesI [OF run eos, of _ False]) (auto simp: reached_def)
  qed
qed

lemma ts_rest_stop:
  assumes "ts_wf s" "ts_rest s @ missing lf = xs @ left" "lf \<longrightarrow> left = []"
  shows "ts_rest (s\<lparr>ts_pos := ts_pos s + (length (ts_rest s) - length left), is_eos := e\<rparr>) = left"
proof -
  have "ts_rest (t\<lparr>is_eos := e\<rparr>) = ts_rest t" for t by (simp add: ts_rest_def)
  then have "ts_rest (s\<lparr>ts_pos := ts_pos s + (length (ts_rest s) - length left), is_eos := e\<rparr>) =
      drop (length (ts_rest s) - length left) (ts_rest s)"
    using ts_advance(2) [OF assms(1), of "length (ts_rest s) - length left"] by simp
  then show ?thesis using assms(2,3) by (cases lf) auto
qed

lemma header_stage_cut:
  assumes vt: "frames vt line ring content m0 m1 pool0" and s: "ts_whole s" "\<not> is_eos s"
    and p: "stage p = APT_MESSAGE_STAGE_HEADER" "context_message p = Some (head_message vt m0 pool0 dn)"
    and ring: "ring = dn @ todo" and input: "ts_rest s @ ds = ring_text todo @ CRLF @ content"
    and cut: "skip_lf p \<Longrightarrow> ts_rest s = []"
      "ts_rest s = [] \<Longrightarrow> 0 < ts_pos s \<and> (ts_mem s ! (ts_pos s - 1) = APT_TOKEN_CR \<longleftrightarrow> skip_lf p)"
    and cs: "cs @ missing (skip_lf p) = line @ CRLF @ ring_text dn @ ts_rest s"
  shows "run_reaches vt line ring content m0 m1 pool0 cs False (parser_header_stage vt (pool0 + length dn) p s)"
proof -
  let ?pool = "pool0 + length dn" and ?d = "ts_rest s"
  have wf: "ts_wf s" using s(1) by (simp add: ts_whole_def)
  have ctx: "ctx_header vt (ctx_header_put vt h m) = h" "ctx_header_put vt h (ctx_header_put vt g m) = ctx_header_put vt h m" for h g m
    using vt by (simp_all add: frames_def)
  have fok: "\<forall>f \<in> set todo. field_ok (snd f)" using vt ring by (simp add: frames_def)
  let ?h = "\<lparr>hs_ring = parsed_ring pool0 dn, hs_arr = []\<rparr>"
  have arr: "length (hs_arr ?h) \<le> UNKNOWN_HEADER_FIELD_ID" by simp
  obtain b dn' todo' left lf e where st: "section_stops todo ?d b dn' todo' left lf"
    and "apt_header_section_parse ?pool ?h s = (b, ?h\<lparr>hs_ring := hs_ring ?h @ parsed_ring ?pool dn'\<rparr>,
       s\<lparr>ts_pos := ts_pos s + (length ?d - length left), is_eos := e\<rparr>, ?pool + length dn' + (if b then 1 else 0))"
    and e: "b \<longrightarrow> \<not> e" "\<not> b \<and> left \<noteq> [] \<longrightarrow> e"
    using section_parse_cut [OF wf s(2) input fok arr, of ?pool] by blast
  then have sec: "apt_header_section_parse ?pool ?h s = (b, \<lparr>hs_ring = parsed_ring pool0 (dn @ dn'), hs_arr = []\<rparr>,
       s\<lparr>ts_pos := ts_pos s + (length ?d - length left), is_eos := e\<rparr>, ?pool + length dn' + (if b then 1 else 0))"
    by (simp add: parsed_ring_append)
  let ?s = "s\<lparr>ts_pos := ts_pos s + (length ?d - length left), is_eos := e\<rparr>"
  note len = section_stops_length [OF st]
  have flag: "(left = [] \<and> (if ?d = [] then skip_lf p else last ?d = APT_TOKEN_CR)) \<longleftrightarrow> skip_lf p \<or> lf"
    using section_stops_last [OF st] cut(1) len by (cases "?d = []") auto
  have test: "apt_crlf_segmentation_test q ?s = Some (q\<lparr>skip_lf := skip_lf p \<or> lf\<rparr>)" if "skip_lf q = skip_lf p" for q :: "'a apt_message_parser"
    using crlf_test_cut [OF wf len cut(2), of q e] that by (cases q) (auto simp: flag)
  have stop: "todo = dn' @ todo'" "?d @ missing lf = ring_text dn' @ (if b then CRLF else []) @ left" "lf \<longrightarrow> left = []"
      "b \<longrightarrow> todo' = []" "\<not> b \<longrightarrow> no_eol left"
    using st by (auto simp: section_stops_def)
  let ?m = "head_message vt m0 pool0 (dn @ dn')"
  let ?p = "p\<lparr>context_message := Some ?m, skip_lf := skip_lf p \<or> lf\<rparr>"
  have whole: "ts_whole ?s" using s(1) len length_ts_rest_room [OF s(1)] by (auto simp: ts_whole_def ts_wf_def ts_room_def)
  have rest: "ts_rest ?s = left"
    by (rule ts_rest_stop [OF wf _ stop(3), of "ring_text dn' @ (if b then CRLF else [])"]) (use stop(2) in simp)
  have cs': "cs @ missing (skip_lf p \<or> lf) = line @ CRLF @ ring_text (dn @ dn') @ (if b then CRLF else []) @ left"
    using cs stop(2) cut(1) section_stops_last(1) [OF st] by (cases "skip_lf p") (auto simp: ring_text_append)
  have eos: "apt_text_is_eos ?s" if "left = [] \<or> e"
    using that length_ts_rest [OF wf] wf by (auto simp: apt_text_is_eos_def ts_wf_def)
  have run: "parser_header_stage vt ?pool p s =
      (if \<not> b then Some (APT_MESSAGE_STATUS_INCOMPLETE, None, ?p, ?s, ?pool + length dn')
       else do {
         (valid, m, n) \<leftarrow> on_header_complete vt ?m;
         let p = ?p\<lparr>context_message := Some m\<rparr>;
         if \<not> valid then Some (APT_MESSAGE_STATUS_INVALID, None, p, ?s, ?pool + length dn' + 1)
         else if n \<noteq> 0 then
           (if (n + 1) mod 2 ^ 64 \<le> n then None
            else parser_body_stage vt (?pool + length dn' + 1)
              (p\<lparr>context_message := Some (ctx_body_put vt [] m), parser_content_length := n, stage := APT_MESSAGE_STAGE_BODY\<rparr>) ?s)
         else Some (APT_MESSAGE_STATUS_COMPLETE, Some m, p\<lparr>stage := APT_MESSAGE_STAGE_START_LINE\<rparr>, ?s, ?pool + length dn' + 1)
       })"
    using p(2) sec test [of "p\<lparr>context_message := Some ?m\<rparr>"]
    by (simp add: parser_header_stage_def head_message_def ctx Let_def)
  show ?thesis
  proof (cases b)
    case False
    then have run': "parser_header_stage vt ?pool p s = Some (APT_MESSAGE_STATUS_INCOMPLETE, None, ?p, ?s, ?pool + length dn')"
      using run by simp
    have "skip_lf p \<or> lf \<longrightarrow> left = []" using flag by blast
    then have "\<exists>d t. ring = d @ t \<and> context_message ?p = Some (head_message vt m0 pool0 d) \<and>
        ?pool + length dn' = pool0 + length d \<and> cs @ missing (skip_lf ?p) = line @ CRLF @ ring_text d @ left \<and>
        no_eol left \<and> (skip_lf ?p \<longrightarrow> left = [])"
      by - (rule exI [of _ "dn @ dn'"], rule exI [of _ todo'], use cs' False stop(1,5) ring in simp)
    then have "reached vt line ring content m0 m1 pool0 cs ?p (ts_rest ?s) (?pool + length dn') False"
      using p(1) rest by (simp add: reached_def)
    then show ?thesis
      using False e eos by (intro run_reachesI [OF run', of _ False]) auto
  next
    case True
    then have dn: "dn @ dn' = ring" using stop(1,4) ring by simp
    then have cm: "on_header_complete vt ?m = Some (True, m1, length content)" using vt by (simp add: frames_def)
    have small: "\<not> (length content + 1) mod 2 ^ 64 \<le> length content" using vt by (simp add: frames_def)
    have "\<exists>ds'. content = left @ ds'"
      using input stop True by (cases lf) auto
    then obtain ds' where ds': "content = left @ ds'" ..
    have head: "cs @ missing (skip_lf p \<or> lf) = head_text line ring @ left"
      using cs' True dn by (simp add: head_text_def)
    show ?thesis
    proof (cases "content = []")
      case empty: True
      let ?q = "?p\<lparr>context_message := Some m1, stage := APT_MESSAGE_STAGE_START_LINE\<rparr>"
      have run': "parser_header_stage vt ?pool p s = Some (APT_MESSAGE_STATUS_COMPLETE, Some m1, ?q, ?s, ?pool + length dn' + 1)"
        using run True cm empty by simp
      have left: "left = []" using ds' empty by simp
      then have "reached vt line ring content m0 m1 pool0 cs ?q (ts_rest ?s) (?pool + length dn' + 1) True"
        using head rest empty by (simp add: reached_def)
      then show ?thesis
        using eos left empty by (intro run_reachesI [OF run', of _ True]) (auto simp: whole_message_def)
    next
      case False
      let ?q = "?p\<lparr>context_message := Some (ctx_body_put vt [] m1), parser_content_length := length content,
        stage := APT_MESSAGE_STAGE_BODY\<rparr>"
      have run': "parser_header_stage vt ?pool p s = parser_body_stage vt (?pool + length dn' + 1) ?q ?s"
        using run True cm small False by simp
      show ?thesis
        unfolding run' by (rule body_stage_cut [OF vt whole, of ?q "[]" ds']) (use False ds' rest head in simp_all)
    qed
  qed
qed

text \<open>The line feed that was missing is skipped first.\<close>

definition lf_skipped :: "'m apt_message_parser \<Rightarrow> apt_text_stream \<Rightarrow> apt_text_stream" where
  "lf_skipped p s = (if skip_lf p then apt_text_char_skip APT_TOKEN_LF s else s)"

lemma lf_skipped:
  assumes "ts_whole s" "\<not> is_eos s" "skip_lf p" "ts_rest s = APT_TOKEN_LF # d"
  shows "ts_whole (lf_skipped p s)" "\<not> is_eos (lf_skipped p s)" "ts_rest (lf_skipped p s) = d"
    "0 < ts_pos (lf_skipped p s)" "ts_mem (lf_skipped p s) ! (ts_pos (lf_skipped p s) - 1) = APT_TOKEN_LF"
proof -
  have wf: "ts_wf s" using assms(1) by (simp add: ts_whole_def)
  have s: "lf_skipped p s = s\<lparr>ts_pos := ts_pos s + 1\<rparr>"
    using assms(3,4) by (simp add: lf_skipped_def apt_text_char_skip_def)
  have len: "ts_pos s < ts_end s" "ts_end s \<le> length (ts_mem s)"
    using ts_rest_Cons [OF assms(4)] wf by (auto simp: ts_wf_def)
  have "ts_rest s ! 0 = ts_mem s ! ts_pos s"
    using len by (simp add: ts_rest_def)
  then show "0 < ts_pos (lf_skipped p s)" "ts_mem (lf_skipped p s) ! (ts_pos (lf_skipped p s) - 1) = APT_TOKEN_LF"
    using assms(4) by (simp_all add: s)
  show "ts_whole (lf_skipped p s)"
    unfolding s using assms(1,4) length_ts_rest_room [OF assms(1)] by (intro ts_whole_advance) auto
  show "\<not> is_eos (lf_skipped p s)" using assms(2) by (simp add: s)
  show "ts_rest (lf_skipped p s) = d" using ts_advance(2) [OF wf, of 1] assms(4) by (simp add: s)
qed

lemma header_run_cut:
  assumes vt: "frames vt line ring content m0 m1 pool0" and s: "ts_whole s" "\<not> is_eos s" "ts_rest s = left @ d" "d \<noteq> []"
    and r: "reached vt line ring content m0 m1 pool0 cs p left pool False" "stage p = APT_MESSAGE_STAGE_HEADER"
    and input: "cs @ d @ ds = head_text line ring @ content"
  shows "run_reaches vt line ring content m0 m1 pool0 (cs @ d) False
    (parser_header_stage vt pool (p\<lparr>skip_lf := False\<rparr>) (lf_skipped p s))"
proof -
  obtain dn todo where h: "ring = dn @ todo" "context_message p = Some (head_message vt m0 pool0 dn)"
      "pool = pool0 + length dn" "cs @ missing (skip_lf p) = line @ CRLF @ ring_text dn @ left" "skip_lf p \<longrightarrow> left = []"
    using r by (auto simp: reached_def)
  have whole: "head_text line ring @ content = line @ CRLF @ ring_text dn @ ring_text todo @ CRLF @ content"
    by (simp add: head_text_def h(1) ring_text_append)
  show ?thesis
  proof (cases "skip_lf p")
    case True
    have "cs @ d @ ds = cs @ APT_TOKEN_LF # ring_text todo @ CRLF @ content"
      using input whole h(4,5) True by (metis append.assoc append_Cons append_Nil append_Nil2)
    then obtain d' where d: "d = APT_TOKEN_LF # d'" "d' @ ds = ring_text todo @ CRLF @ content"
      using s(4) by (cases d) auto
    have rest: "ts_rest s = APT_TOKEN_LF # d'" using s(3) d(1) h(5) True by simp
    note skip = lf_skipped [OF s(1,2) True rest]
    show ?thesis
      unfolding h(3) using skip d h True r(2)
      by (intro header_stage_cut [OF vt skip(1,2) _ _ h(1)]) auto
  next
    case False
    have input': "(left @ d) @ ds = ring_text todo @ CRLF @ content"
      using input whole h(4) False by simp
    show ?thesis
      unfolding h(3) using s h False r(2) input'
      by (intro header_stage_cut [OF vt _ _ _ _ h(1)]) (auto simp: lf_skipped_def)
  qed
qed

lemma body_run_cut:
  assumes vt: "frames vt line ring content m0 m1 pool0" and s: "ts_whole s" "\<not> is_eos s" "ts_rest s = left @ d" "d \<noteq> []"
    and r: "reached vt line ring content m0 m1 pool0 cs p left pool False" "stage p = APT_MESSAGE_STAGE_BODY"
    and input: "cs @ d @ ds = head_text line ring @ content"
  shows "run_reaches vt line ring content m0 m1 pool0 (cs @ d) False
    (parser_body_stage vt pool (p\<lparr>skip_lf := False\<rparr>) (lf_skipped p s))"
proof -
  obtain b zs where b: "context_message p = Some (ctx_body_put vt b m1)" "parser_content_length p = length content" "left = []"
      "cs @ missing (skip_lf p) = head_text line ring @ b"
    and zs: "content = b @ zs" "zs \<noteq> []"
    using r by (auto simp: reached_def)
  show ?thesis
  proof (cases "skip_lf p")
    case True
    have "cs @ d @ ds = cs @ APT_TOKEN_LF # zs"
      using input b(4) True zs by (metis append.assoc append_Cons append_Nil)
    then obtain d' where d: "d = APT_TOKEN_LF # d'" "zs = d' @ ds"
      using s(4) by (cases d) auto
    have rest: "ts_rest s = APT_TOKEN_LF # d'" using s(3) d(1) b(3) by simp
    note skip = lf_skipped [OF s(1,2) True rest]
    show ?thesis
      using skip d b zs r(2) True by (intro body_stage_cut [OF vt skip(1), of _ b ds]) auto
  next
    case False
    have "content = b @ d @ ds" using input b(4) False by simp
    then show ?thesis
      using s b r(2) False by (intro body_stage_cut [OF vt, of _ _ b ds]) (auto simp: lf_skipped_def)
  qed
qed

lemma start_run_cut:
  assumes vt: "frames vt line ring content m0 m1 pool0" and s: "ts_whole s" "\<not> is_eos s"
    and start: "\<And>s s'. apt_text_line_read s = (True, line, s') \<Longrightarrow> on_start vt s = (Some m0, s')"
    and p: "stage p = APT_MESSAGE_STAGE_START_LINE" "\<not> skip_lf p"
    and input: "ts_rest s @ ds = head_text line ring @ content"
  shows "run_reaches vt line ring content m0 m1 pool0 (ts_rest s) False (apt_message_parser_run vt pool0 p s)"
proof -
  have line: "no_eol line" and none: "\<And>s l s'. apt_text_line_read s = (False, l, s') \<Longrightarrow> on_start vt s = (None, s')"
    and head: "\<And>m. ctx_header_put vt (ctx_header vt m) m = m" "ctx_header vt m0 = apt_header_section_init"
    using vt by (auto simp: frames_def)
  have wf: "ts_wf s" using s(1) by (simp add: ts_whole_def)
  have q: "p\<lparr>skip_lf := False\<rparr> = p" using p(2) by simp
  have m0: "head_message vt m0 pool0 [] = m0" using head(1) [of m0] head(2) by (simp add: head_message_def apt_header_section_init_def)
  have input': "ts_rest s @ ds = line @ CRLF @ ring_text ring @ CRLF @ content" using input by (simp add: head_text_def)
  have go: ?thesis if lr: "apt_text_line_read s = (True, line, s1)" and s1: "ts_whole s1" "\<not> is_eos s1"
      "ts_rest s1 @ ds' = ring_text ring @ CRLF @ content"
      and test: "apt_crlf_segmentation_test (p\<lparr>context_message := Some m0\<rparr>) s1 = Some (p\<lparr>context_message := Some m0, skip_lf := c\<rparr>)"
      and cut: "c \<Longrightarrow> ts_rest s1 = []" "ts_rest s1 = [] \<Longrightarrow> 0 < ts_pos s1 \<and> (ts_mem s1 ! (ts_pos s1 - 1) = APT_TOKEN_CR \<longleftrightarrow> c)"
      and cs: "ts_rest s @ missing c = line @ CRLF @ ts_rest s1" for s1 c ds'
  proof -
    let ?p = "p\<lparr>context_message := Some m0, skip_lf := c, stage := APT_MESSAGE_STAGE_HEADER\<rparr>"
    have "apt_message_parser_run vt pool0 p s = parser_header_stage vt pool0 ?p s1"
      using p start [OF lr] test
      by (cases c; cases p) (simp_all add: apt_message_parser_run_def q Let_def)
    moreover have "run_reaches vt line ring content m0 m1 pool0 (ts_rest s) False (parser_header_stage vt (pool0 + length (take 0 ring)) ?p s1)"
      by (rule header_stage_cut [OF vt s1(1,2), where dn = "take 0 ring" and todo = ring and ds = ds']) (use m0 s1 cut cs in \<open>auto simp: ring_text_def\<close>)
    ultimately show ?thesis by simp
  qed
  from input' show ?thesis
  proof (rule line_cases)
    fix zs assume zs: "line = ts_rest s @ zs"
    then have "no_eol (ts_rest s)" using line by simp
    from line_read_cut(1) [OF this refl] none have "on_start vt s = (None, s\<lparr>is_eos := True\<rparr>)" by blast
    then have run: "apt_message_parser_run vt pool0 p s = Some (APT_MESSAGE_STATUS_INCOMPLETE, None, p, s\<lparr>is_eos := True\<rparr>, pool0)"
      using p by (simp add: apt_message_parser_run_def q Let_def apt_text_is_eos_def)
    have "ts_rest (s\<lparr>is_eos := True\<rparr>) = ts_rest s" by (simp add: ts_rest_def)
    then show ?thesis
      using p zs by (intro run_reachesI [OF run, of _ False]) (auto simp: apt_text_is_eos_def reached_def)
  next
    assume r: "ts_rest s = line @ [APT_TOKEN_CR]" "ds = APT_TOKEN_LF # ring_text ring @ CRLF @ content"
    let ?s = "s\<lparr>ts_pos := ts_pos s + (length line + 1)\<rparr>"
    have e: "ts_end s = ts_pos s + (length line + 1)" using r(1) length_ts_rest [OF wf] by simp
    have rest: "ts_rest ?s = []" using ts_advance(2) [OF wf, of "length line + 1"] r(1) by simp
    have cr: "ts_mem s ! (ts_end s - 1) = APT_TOKEN_CR" "0 < ts_end s" "ts_end s \<le> length (ts_mem s)"
      using ts_last [OF wf] r(1) by simp_all
    have whole: "ts_whole ?s" using s(1) e by (auto simp: ts_whole_def ts_wf_def)
    show ?thesis
      by (rule go [OF line_read_cut(2) [OF line r(1)] whole, of "ring_text ring @ CRLF @ content" True])
        (use s(2) rest cr e r(1) in \<open>auto simp: apt_crlf_segmentation_test_def\<close>)
  next
    fix cs' assume r: "ts_rest s = line @ CRLF @ cs'" "cs' @ ds = ring_text ring @ CRLF @ content"
    let ?s = "s\<lparr>ts_pos := ts_pos s + (length line + 2)\<rparr>"
    note rest = line_rest [OF wf r(1)]
    have whole: "ts_whole ?s" using s(1) rest(1) by (simp add: ts_whole_def)
    have lf: "0 < ts_pos ?s \<and> ts_mem ?s ! (ts_pos ?s - 1) \<noteq> APT_TOKEN_CR" if "cs' = []"
      using that ts_last [OF wf] r(1) length_ts_rest [OF wf] by (auto simp: add.commute)
    have test: "apt_crlf_segmentation_test (p\<lparr>context_message := Some m0\<rparr>) ?s = Some (p\<lparr>context_message := Some m0, skip_lf := False\<rparr>)"
      using crlf_test_eol [OF wf r(1), of "p\<lparr>context_message := Some m0\<rparr>"] p(2) by (cases p) simp
    show ?thesis
      by (rule go [OF line_read_crlf [OF r(1) line] whole _ _ test, of ds]) (use s(2) rest r lf in auto)
  qed
qed

text \<open>One more piece of the message, cut anywhere.\<close>

lemma parser_run_cut:
  assumes vt: "frames vt line ring content m0 m1 pool0"
    and start: "\<And>s s'. stage p = APT_MESSAGE_STAGE_START_LINE \<Longrightarrow> \<not> c \<Longrightarrow>
      apt_text_line_read s = (True, line, s') \<Longrightarrow> on_start vt s = (Some m0, s')"
    and r: "reached vt line ring content m0 m1 pool0 cs p left pool c"
    and s: "ts_whole s" "\<not> is_eos s" "ts_rest s = left @ d" "d \<noteq> []"
    and input: "cs @ d @ ds = head_text line ring @ content"
  shows "run_reaches vt line ring content m0 m1 pool0 (cs @ d) c (apt_message_parser_run vt pool p s)"
proof (cases c)
  case True
  have none: "\<And>s l s'. apt_text_line_read s = (False, l, s') \<Longrightarrow> on_start vt s = (None, s')"
    using vt by (auto simp: frames_def)
  have p: "stage p = APT_MESSAGE_STAGE_START_LINE" "left = []" "cs @ missing (skip_lf p) = head_text line ring @ content"
    using r True by (simp_all add: reached_def)
  have "cs @ d @ ds = cs @ missing (skip_lf p)" using input p(3) by (rule trans [OF _ sym])
  then have "d @ ds = missing (skip_lf p)" by (simp only: same_append_eq)
  then have sk: "skip_lf p" "d = [APT_TOKEN_LF]" "ds = []"
    using s(4) by (cases "skip_lf p"; cases d; simp)+
  have rest: "ts_rest s = APT_TOKEN_LF # []" using s(3) p(2) sk(2) by simp
  note skip = lf_skipped [OF s(1,2) sk(1) rest]
  let ?s = "(lf_skipped p s)\<lparr>is_eos := True\<rparr>"
  have "on_start vt (lf_skipped p s) = (None, ?s)"
    by (rule none, rule line_read_cut(1) [of "[]"]) (simp_all add: skip(3))
  then have run: "apt_message_parser_run vt pool p s = Some (APT_MESSAGE_STATUS_INCOMPLETE, None, p\<lparr>skip_lf := False\<rparr>, ?s, pool)"
    using p(1) sk(1) by (simp add: apt_message_parser_run_def lf_skipped_def Let_def apt_text_is_eos_def)
  have "ts_rest ?s = []" using skip(3) by (simp add: ts_rest_def)
  then show ?thesis
    using True p sk by (intro run_reachesI [OF run, of _ True]) (auto simp: apt_text_is_eos_def reached_def)
next
  case False
  then have r': "reached vt line ring content m0 m1 pool0 cs p left pool False" using r by simp
  have "run_reaches vt line ring content m0 m1 pool0 (cs @ d) False (apt_message_parser_run vt pool p s)"
  proof (cases "stage p")
    case APT_MESSAGE_STAGE_START_LINE
    then have p: "\<not> skip_lf p" "left = cs" "pool = pool0" using r' by (simp_all add: reached_def)
    show ?thesis
      using start_run_cut [OF vt s(1,2) start [OF APT_MESSAGE_STAGE_START_LINE False] APT_MESSAGE_STAGE_START_LINE p(1), of ds]
        s(3) input p(2,3) by simp
  next
    case APT_MESSAGE_STAGE_HEADER
    then show ?thesis
      using header_run_cut [OF vt s r' _ input] by (simp add: apt_message_parser_run_def lf_skipped_def Let_def)
  next
    case APT_MESSAGE_STAGE_BODY
    then show ?thesis
      using body_run_cut [OF vt s r' _ input] by (simp add: apt_message_parser_run_def lf_skipped_def Let_def)
  qed
  then show ?thesis using False by simp
qed

end
