(* ===== verification/Mrcp_Segments.thy ===== *)
theory Mrcp_Segments
  imports Mrcp_Connection Apt_Message_Segments
begin

text \<open>
  Messages that arrive in pieces: however the transport cuts the bytes of a message, the receiving loop of a connection
  delivers the message exactly once, and it is the message that was sent.
\<close>

section \<open>What is left of a message\<close>

text \<open>An unfinished line is shorter than the longest line of the message.\<close>

lemma prefix_no_eol:
  assumes "left @ ys = xs @ CRLF @ zs" "no_eol left"
  shows "length left \<le> length xs"
proof (rule ccontr)
  assume "\<not> ?thesis"
  then have "left ! length xs = (left @ ys) ! length xs" "left ! length xs \<in> set left" by (simp_all add: nth_append)
  then show False using assms by (simp add: nth_append no_eol_def)
qed

lemma reached_left:
  assumes r: "reached vt line ring content m0 m1 pool0 cs p left pool c"
    and input: "cs @ ds = head_text line ring @ content"
    and size: "length line < n" "\<forall>f \<in> set ring. length (field_line (snd f)) \<le> n"
  shows "length left < n"
proof (cases "c \<or> left = []")
  case True
  then show ?thesis using r size(1) by (auto simp: reached_def)
next
  case False
  then show ?thesis
  proof (cases "stage p")
    case APT_MESSAGE_STAGE_START_LINE
    then show ?thesis using r False size(1) by (auto simp: reached_def)
  next
    case APT_MESSAGE_STAGE_HEADER
    then obtain dn todo where d: "ring = dn @ todo" "cs = line @ CRLF @ ring_text dn @ left" "no_eol left"
      using r False by (auto simp: reached_def)
    then have t: "left @ ds = ring_text todo @ CRLF @ content"
      using input by (simp add: head_text_def ring_text_append)
    show ?thesis
    proof (cases todo)
      case Nil
      then show ?thesis using prefix_no_eol [of left ds "[]" content] t d(3) False by (simp add: ring_text_def)
    next
      case (Cons f todo')
      let ?xs = "hf_name (snd f) @ '': '' @ hf_value (snd f)"
      have "left @ ds = ?xs @ CRLF @ ring_text todo' @ CRLF @ content"
        using t Cons by (simp add: ring_text_Cons field_line_def)
      then have "length left \<le> length ?xs" using d(3) by (rule prefix_no_eol)
      moreover have "length (field_line (snd f)) \<le> n" using size(2) d(1) Cons by simp
      ultimately show ?thesis by (simp add: field_line_def)
    qed
  next
    case APT_MESSAGE_STAGE_BODY
    then show ?thesis using r False by (auto simp: reached_def)
  qed
qed

text \<open>When all of the text has been received, the message has been delivered and the parser is ready for the next one.\<close>

lemma reached_whole:
  assumes r: "reached vt line ring content m0 m1 pool0 (head_text line ring @ content) p left pool c"
  shows "c" "stage p = APT_MESSAGE_STAGE_START_LINE" "\<not> skip_lf p" "left = []"
proof -
  show c: c
  proof (rule ccontr)
    assume nc: "\<not> c"
    show False
    proof (cases "stage p")
      case APT_MESSAGE_STAGE_START_LINE
      then show ?thesis using r nc by (auto simp: reached_def head_text_def)
    next
      case APT_MESSAGE_STAGE_HEADER
      then obtain dn todo where d: "ring = dn @ todo"
          "(head_text line ring @ content) @ missing (skip_lf p) = line @ CRLF @ ring_text dn @ left" "no_eol left"
        using r nc by (auto simp: reached_def)
      then have "left @ [] = ring_text todo @ CRLF @ content @ missing (skip_lf p)"
        by (simp add: head_text_def ring_text_append)
      then have "APT_TOKEN_CR \<in> set left" by simp
      with d(3) show ?thesis by (simp add: no_eol_def)
    next
      case APT_MESSAGE_STAGE_BODY
      then obtain b zs where "(head_text line ring @ content) @ missing (skip_lf p) = head_text line ring @ b"
          "content = b @ zs" "zs \<noteq> []"
        using r nc by (auto simp: reached_def)
      then show ?thesis by simp
    qed
  qed
  show "stage p = APT_MESSAGE_STAGE_START_LINE" "\<not> skip_lf p" "left = []"
    using r c by (auto simp: reached_def split: if_splits)
qed

section \<open>A message on its way\<close>

lemma parser_vtable_base [simp]: "parser_vtable apr hash garbage (parser\<lparr>base := b\<rparr>) = parser_vtable apr hash garbage parser"
proof -
  have "resource_factory (parser\<lparr>base := b\<rparr>) = resource_factory parser" "parser_resource (parser\<lparr>base := b\<rparr>) = parser_resource parser"
    by simp_all
  then show ?thesis
    unfolding parser_vtable_def mrcp_parser_on_start_def [abs_def] mrcp_parser_on_header_complete_def [abs_def] by (simp only:)
qed

lemma wire_head_text: "wire_head m n = head_text (v2_line (start_line m) n) (wire_ring m)"
  by (simp add: wire_head_def head_text_def)

text \<open>The message the parser makes of the start line.\<close>

definition started :: "nat \<Rightarrow> 'r mrcp_message \<Rightarrow> nat \<Rightarrow> 'r mrcp_message" where
  "started garbage m n = (mrcp_message_create garbage)
     \<lparr>start_line := received (mrcp_start_line_init garbage) ((start_line m)\<lparr>sl_length := n\<rparr>)\<rparr>"

lemma on_start_line:
  assumes "apt_text_line_read s = (True, v2_line (start_line m) n, s')" "start_line_ok (start_line m)"
    and "version (start_line m) = MRCP_VERSION_2" "n < 10 ^ 6"
  shows "on_start (parser_vtable apr hash garbage parser) s = (Some (started garbage m n), s')"
proof -
  have "mrcp_start_line_parse sl0 (v2_line (start_line m) n) = (True, received sl0 ((start_line m)\<lparr>sl_length := n\<rparr>))" for sl0
    using parse_v2_line [OF assms(2,3), of n] assms(4) by (simp add: v2_line_def)
  then show ?thesis
    using assms(1,3) by (simp add: parser_vtable_def mrcp_parser_on_start_def started_def mrcp_message_create_def
      received_simps Let_def)
qed

context message_contract
begin

lemma frames_sent:
  assumes m: "message_sent apr vt wire_ok res m" and alloc: "allocate vt \<noteq> None"
    and find: "mrcp_resource_find hash (resource_factory parser) (resource_name (channel_id m)) = Some res"
    and n: "n = length (wire_head m n) + length (body m)" "n < 10 ^ 6"
  obtains m1 where "\<And>g. frames (parser_vtable apr hash g parser) (v2_line (start_line m) n) (wire_ring m) (body m)
      (started garbage m n) m1 pool"
    and "message_received apr vt res garbage n m (whole_message (parser_vtable apr hash garbage parser) (body m) m1)"
proof -
  obtain m1 where m1: "mrcp_parser_on_header_complete apr hash parser
      ((mrcp_message_create garbage)
        \<lparr>start_line := received (mrcp_start_line_init garbage) ((start_line m)\<lparr>sl_length := n\<rparr>),
         header := mrcp_message_header_init\<lparr>header_section := \<lparr>hs_ring = parsed_ring pool (wire_ring m), hs_arr = []\<rparr>\<rparr>\<rparr>) =
        Some (True, m1, length (body m))"
      "body m1 = []" "message_received apr vt res garbage n m (m1\<lparr>body := body m\<rparr>)"
    using header_completed [OF m alloc find, of "(mrcp_message_create garbage)
        \<lparr>start_line := received (mrcp_start_line_init garbage) ((start_line m)\<lparr>sl_length := n\<rparr>),
         header := mrcp_message_header_init\<lparr>header_section := \<lparr>hs_ring = parsed_ring pool (wire_ring m), hs_arr = []\<rparr>\<rparr>\<rparr>" garbage n pool]
    by (auto simp: mrcp_message_create_def)
  have ok: "start_line_ok (start_line m)" "\<forall>f \<in> set (wire_ring m). field_ok (snd f)"
    using m channel_field_ok by (auto simp: message_sent_def header_sent_def wire_ring_def)
  have line: "no_eol (v2_line (start_line m) n)"
    using no_eol_v2_tail [OF ok(1)] by (simp add: v2_line_def)
  have len: "length (body m) + 1 < 2 ^ 64" using n by simp
  have body: "m1\<lparr>body := []\<rparr> = m1" using m1(2) by (cases m1) simp
  show ?thesis
  proof (rule that)
    show "frames (parser_vtable apr hash g parser) (v2_line (start_line m) n) (wire_ring m) (body m)
      (started garbage m n) m1 pool" for g
      using line ok(2) len m1(1)
      by (simp add: frames_def parser_vtable_def head_message_def started_def mrcp_message_create_def
        mrcp_message_header_init_def mrcp_parser_on_start_def)
    show "message_received apr vt res garbage n m (whole_message (parser_vtable apr hash garbage parser) (body m) m1)"
      using m1(3) body by (auto simp: whole_message_def parser_vtable_def)
  qed
qed

end

text \<open>Where a parser is with a message does not depend on what fresh memory holds.\<close>

lemma reached_garbage:
  "reached (parser_vtable apr hash g parser) = reached (parser_vtable apr hash g' parser)"
  "whole_message (parser_vtable apr hash g parser) = whole_message (parser_vtable apr hash g' parser)"
proof -
  have "ctx_header_put (parser_vtable apr hash g parser) = ctx_header_put (parser_vtable apr hash g' parser)"
    "ctx_body_put (parser_vtable apr hash g parser) = ctx_body_put (parser_vtable apr hash g' parser)"
    by (simp_all add: parser_vtable_def)
  then show "reached (parser_vtable apr hash g parser) = reached (parser_vtable apr hash g' parser)"
    "whole_message (parser_vtable apr hash g parser) = whole_message (parser_vtable apr hash g' parser)"
    unfolding reached_def [abs_def] whole_message_def [abs_def] head_message_def [abs_def] by (simp_all only:)
qed

lemma rx_pos: "rx_ok n s \<Longrightarrow> length (ts_written s) = ts_pos s"
  by (simp add: rx_ok_def ts_written_def)

text \<open>One more piece is received.\<close>

lemma receive_piece:
  assumes vt: "\<And>g. frames (parser_vtable apr hash g parser) line ring content m0 m1 pool0"
    and start: "\<And>s s'. apt_text_line_read s = (True, line, s') \<Longrightarrow>
      on_start (parser_vtable apr hash (garbage pool0) parser) s = (Some m0, s')"
    and r: "reached (parser_vtable apr hash 0 parser) line ring content m0 m1 pool0 cs b (ts_written s) pool c"
    and rx: "rx_ok n s" "ts_pos s + length d \<le> n" "receiving (parser\<lparr>base := b\<rparr>)" "d \<noteq> []"
    and input: "cs @ d @ ds = head_text line ring @ content"
    and handler: "\<And>a. handler APT_MESSAGE_STATUS_INCOMPLETE None a = Some (True, a)"
      "handler APT_MESSAGE_STATUS_COMPLETE (Some (whole_message (parser_vtable apr hash 0 parser) content m1)) agent = Some (True, agent')"
  shows "\<exists>b' s' pool' c'. connection_receive apr hash garbage handler d (parser\<lparr>base := b\<rparr>, s, pool, if c then agent' else agent) =
      Some (True, parser\<lparr>base := b'\<rparr>, s', pool', if c' then agent' else agent) \<and>
    reached (parser_vtable apr hash 0 parser) line ring content m0 m1 pool0 (cs @ d) b' (ts_written s') pool' c' \<and>
    rx_ok n s' \<and> receiving (parser\<lparr>base := b'\<rparr>)"
proof -
  let ?s = "rx_filled s d" and ?vt = "parser_vtable apr hash (garbage pool) parser" and ?a = "\<lambda>c. if c then agent' else agent"
  note s = rx_filled [OF rx(1,2)]
  have r': "reached ?vt line ring content m0 m1 pool0 cs b (ts_written s) pool c" using r reached_garbage(1) by metis
  have start': "on_start ?vt s = (Some m0, s')"
    if "stage b = APT_MESSAGE_STAGE_START_LINE" "\<not> c" "apt_text_line_read s = (True, line, s')" for s s'
    using start that r by (auto simp: reached_def)
  have "run_reaches ?vt line ring content m0 m1 pool0 (cs @ d) c (apt_message_parser_run ?vt pool b ?s)"
    by (rule parser_run_cut [OF vt start' r' s(1,3,2) rx(4) input])
  then obtain status mo b' t pool' c' where run: "apt_message_parser_run ?vt pool b ?s = Some (status, mo, b', t, pool')"
      "apt_text_is_eos t" "c \<longrightarrow> c'" "reached ?vt line ring content m0 m1 pool0 (cs @ d) b' (ts_rest t) pool' c'"
      "if c' \<and> \<not> c then status = APT_MESSAGE_STATUS_COMPLETE \<and> mo = Some (whole_message ?vt content m1)
         else status = APT_MESSAGE_STATUS_INCOMPLETE \<and> mo = None"
    unfolding run_reaches_def by blast
  have "handler status mo (?a c) = Some (True, ?a c')"
    using run(3,5) handler reached_garbage(2) [of apr hash "garbage pool" parser 0] by (auto split: if_splits)
  then have "receive_step apr hash garbage handler (parser\<lparr>base := b\<rparr>, ?s, pool, ?a c) =
      Some (True, parser\<lparr>base := b'\<rparr>, t, pool', ?a c')"
    using run(1) by (simp add: receive_step_def mrcp_parser_run_def)
  then have loop: "receive_loop apr hash garbage handler (parser\<lparr>base := b\<rparr>, ?s, pool, ?a c) =
      Some (Some (True, parser\<lparr>base := b'\<rparr>, t, pool', ?a c'))"
    using run(2) by (subst receive_loop.simps) simp
  have "\<exists>s'. connection_receive apr hash garbage handler d (parser\<lparr>base := b\<rparr>, s, pool, ?a c) =
        Some (True, parser\<lparr>base := b'\<rparr>, s', pool', ?a c') \<and>
      rx_ok n s' \<and> receiving (parser\<lparr>base := b'\<rparr>) \<and> ts_written s' = ts_rest t"
    using connection_receive_ends [OF rx(1,2,3), of apr hash garbage handler pool "?a c"] unfolding loop by simp
  moreover have "reached (parser_vtable apr hash 0 parser) line ring content m0 m1 pool0 (cs @ d) b' (ts_rest t) pool' c'"
    using run(4) reached_garbage(1) by metis
  ultimately show ?thesis by metis
qed

text \<open>All signals until the last piece: the message is delivered and the parser is ready for the next one.\<close>

lemma signals_deliver:
  assumes vt: "\<And>g. frames (parser_vtable apr hash g parser) line ring content m0 m1 pool0"
    and start: "\<And>s s'. apt_text_line_read s = (True, line, s') \<Longrightarrow>
      on_start (parser_vtable apr hash (garbage pool0) parser) s = (Some m0, s')"
    and handler: "\<And>a. handler APT_MESSAGE_STATUS_INCOMPLETE None a = Some (True, a)"
      "handler APT_MESSAGE_STATUS_COMPLETE (Some (whole_message (parser_vtable apr hash 0 parser) content m1)) agent = Some (True, agent')"
    and size: "length line < n" "\<forall>f \<in> set ring. length (field_line (snd f)) \<le> n"
    and recv: "apr_socket_recv_ok recv queue"
    and r: "reached (parser_vtable apr hash 0 parser) line ring content m0 m1 pool0 cs b (ts_written s) pool c"
    and rx: "rx_ok n s" "receiving (parser\<lparr>base := b\<rparr>)"
    and input: "cs @ queue w = head_text line ring @ content"
  shows "\<exists>k b' s' pool' w'. k \<le> length (queue w) \<and>
    poller_signals k apr hash garbage handler recv n (parser\<lparr>base := b\<rparr>, s, pool, if c then agent' else agent) w =
      Some (DATA_PROCESSED True, (parser\<lparr>base := b'\<rparr>, s', pool', agent'), w') \<and>
    queue w' = [] \<and> stage b' = APT_MESSAGE_STAGE_START_LINE \<and> \<not> skip_lf b' \<and> rx_ok n s' \<and> ts_pos s' = 0"
  using r rx input
proof (induction "length (queue w)" arbitrary: w cs b s pool c rule: less_induct)
  case less
  let ?a = "\<lambda>c. if c then agent' else agent"
  show ?case
  proof (cases "queue w = []")
    case True
    then have cs: "cs = head_text line ring @ content" using less.prems(4) by simp
    note whole = reached_whole [OF less.prems(1) [unfolded cs]]
    have "ts_pos s = 0" using rx_pos [OF less.prems(2)] whole(4) by simp
    then show ?thesis using whole True less.prems(2)
      by (intro exI [of _ 0] exI [of _ b] exI [of _ s] exI [of _ pool] exI [of _ w]) simp
  next
    case False
    have pos: "length (ts_written s) = ts_pos s" by (rule rx_pos [OF less.prems(2)])
    have free: "0 < n - ts_pos s" using reached_left [OF less.prems(1,4) size] pos by simp
    obtain d w1 where d: "recv (n - ts_pos s) w = (d, w1)" by (cases "recv (n - ts_pos s) w")
    then have q: "length d \<le> n - ts_pos s" "queue w = d @ queue w1" "d \<noteq> []"
      using recv free False unfolding apr_socket_recv_ok_def by blast+
    have fits: "ts_pos s + length d \<le> n" using q(1) free by simp
    have input': "cs @ d @ queue w1 = head_text line ring @ content" using less.prems(4) q(2) by simp
    obtain b1 s1 pool1 c1 where step: "connection_receive apr hash garbage handler d (parser\<lparr>base := b\<rparr>, s, pool, ?a c) =
          Some (True, parser\<lparr>base := b1\<rparr>, s1, pool1, ?a c1)"
        "reached (parser_vtable apr hash 0 parser) line ring content m0 m1 pool0 (cs @ d) b1 (ts_written s1) pool1 c1"
        "rx_ok n s1" "receiving (parser\<lparr>base := b1\<rparr>)"
      using receive_piece [where garbage = garbage and handler = handler, OF vt start less.prems(1,2) fits less.prems(3) q(3) input' handler] by blast
    have shorter: "length (queue w1) < length (queue w)" and whole: "(cs @ d) @ queue w1 = head_text line ring @ content"
      using q input' by simp_all
    obtain k b' s' pool' w' where IH: "k \<le> length (queue w1)"
        "poller_signals k apr hash garbage handler recv n (parser\<lparr>base := b1\<rparr>, s1, pool1, ?a c1) w1 =
          Some (DATA_PROCESSED True, (parser\<lparr>base := b'\<rparr>, s', pool', agent'), w')"
        "queue w' = []" "stage b' = APT_MESSAGE_STAGE_START_LINE" "\<not> skip_lf b'" "rx_ok n s'" "ts_pos s' = 0"
      using less.hyps [OF shorter step(2-4) whole] by blast
    have "ts_buf s = 0" using less.prems(2) by (simp add: rx_ok_def)
    then have "poller_signals (Suc k) apr hash garbage handler recv n (parser\<lparr>base := b\<rparr>, s, pool, ?a c) w =
        Some (DATA_PROCESSED True, (parser\<lparr>base := b'\<rparr>, s', pool', agent'), w')"
      using d step(1) q(3) IH(2) by (simp add: poller_signal_process_def)
    moreover have "Suc k \<le> length (queue w)" using IH(1) shorter by simp
    ultimately show ?thesis using IH(3-7) by blast
  qed
qed

text \<open>The lines of the head are shorter than the head.\<close>

lemma head_lines:
  assumes "n < 10 ^ 6" "head_size m \<le> k"
  shows "length (v2_line (start_line m) n) < k" "\<forall>f \<in> set (wire_ring m). length (field_line (snd f)) \<le> k"
proof -
  have "length (dec n) \<le> 6" using assms(1) by (simp add: length_dec_le)
  then show "length (v2_line (start_line m) n) < k"
    using assms(2) by (simp add: head_size_def v2_text_def v2_line_def)
  have "length (field_line (snd f)) \<le> length (ring_text (wire_ring m))" if "f \<in> set (wire_ring m)" for f
    using split_list [OF that] by (auto simp: ring_text_def)
  then show "\<forall>f \<in> set (wire_ring m). length (field_line (snd f)) \<le> k"
    using assms(2) by (fastforce simp: head_size_def)
qed

text \<open>What \<open>apr_socket_send\<close> promises when the connection works: all bytes are queued for the peer.\<close>

definition apr_socket_send_ok :: "(string \<Rightarrow> 'w \<Rightarrow> bool \<times> 'w) \<Rightarrow> ('w \<Rightarrow> string) \<Rightarrow> bool" where
  "apr_socket_send_ok send queue \<longleftrightarrow> (\<forall>c w. fst (send c w) \<and> queue (snd (send c w)) = queue w @ c)"

lemma send_all_queue:
  assumes "apr_socket_send_ok send queue"
  shows "queue (snd (send_all send cs (status, w))) = queue w @ concat cs"
    "fst (send_all send cs (status, w)) \<longleftrightarrow> status \<or> cs \<noteq> []"
  using assms by (induction cs arbitrary: status w) (auto simp: apr_socket_send_ok_def)

context message_contract
begin

text \<open>From one end of a connection to the other: the message is sent in pieces, received in other pieces, and delivered once.\<close>

lemma message_delivered:
  assumes apr: "apr_fmt_ok apr" and m: "mrcp_message_validate m = Some (True, m1)" "message_sent apr vt wire_ok res m1"
    and alloc: "allocate vt \<noteq> None"
    and tx: "head_size m1 + 1 < length tx" "head_size m1 + length (body m1) + 1 < 10 ^ 6"
      "gen_message g \<noteq> Some a \<or> gen_stage g = APT_MESSAGE_STAGE_START_LINE"
    and socket: "apr_socket_send_ok send queue" "apr_socket_recv_ok recv queue" "queue w = []"
    and find: "mrcp_resource_find hash (resource_factory parser) (resource_name (channel_id m1)) = Some res"
    and parser: "stage (base parser) = APT_MESSAGE_STAGE_START_LINE" "\<not> skip_lf (base parser)"
    and rx: "rx_ok k s" "ts_pos s = 0" "head_size m1 \<le> k"
    and handler: "\<And>b. handler APT_MESSAGE_STATUS_INCOMPLETE None b = Some (True, b)"
      "\<And>m' b. handler APT_MESSAGE_STATUS_COMPLETE (Some m') b = Some (True, deliver m' b)"
  shows "\<exists>n g' m2 tx' w1 i parser' s' pool' w2 m'.
    message_send_loop apr send a (body m1) False g m tx w = Some (True, g', m2, tx', w1) \<and>
    poller_signals i apr hash garbage handler recv k (parser, s, pool, agent) w1 =
      Some (DATA_PROCESSED True, (parser', s', pool', deliver m' agent), w2) \<and>
    message_received apr vt res (garbage pool) n m1 m' \<and> n = length (queue w1) \<and> queue w2 = [] \<and> ts_pos s' = 0"
proof -
  have v: "version (start_line m1) = MRCP_VERSION_2" "start_line_ok (start_line m1)" using m(2) by (simp_all add: message_sent_def)
  obtain n cs g' tx' where send: "message_send_loop apr send a (body m1) False g m tx w =
      Some (fst (send_all send cs (False, w)), g', m1\<lparr>start_line := (start_line m1)\<lparr>sl_length := n\<rparr>\<rparr>, tx',
        snd (send_all send cs (False, w)))"
      "concat cs = wire_head m1 n @ body m1" "n = length (concat cs)" "n < 10 ^ 6"
    using message_send_pieces [OF apr m(1) v(1) tx, of send False w] by (elim exE conjE) (rule that)
  define w1 where "w1 = snd (send_all send cs (False, w))"
  have q: "queue w1 = wire_head m1 n @ body m1"
    using send_all_queue(1) [OF socket(1)] send(2) socket(3) by (simp add: w1_def)
  have "cs \<noteq> []" using send(2) by (auto simp: wire_head_def v2_line_def)
  then have ok: "fst (send_all send cs (False, w))" using send_all_queue(2) [OF socket(1)] by simp
  have n: "n = length (wire_head m1 n) + length (body m1)" using send(3) unfolding send(2) length_append .
  obtain r where frames: "\<And>g. frames (parser_vtable apr hash g parser) (v2_line (start_line m1) n) (wire_ring m1) (body m1)
        (started (garbage pool) m1 n) r pool"
      and rec: "message_received apr vt res (garbage pool) n m1
        (whole_message (parser_vtable apr hash (garbage pool) parser) (body m1) r)"
    by (rule frames_sent [OF m(2) alloc find n send(4), where garbage = "garbage pool" and pool = pool]) (rule that)
  let ?m' = "whole_message (parser_vtable apr hash 0 parser) (body m1) r"
  have start: "on_start (parser_vtable apr hash (garbage pool) parser) s = (Some (started (garbage pool) m1 n), s')"
    if "apt_text_line_read s = (True, v2_line (start_line m1) n, s')" for s s'
    by (rule on_start_line [OF that v(2,1) send(4)])
  have reached: "reached (parser_vtable apr hash 0 parser) (v2_line (start_line m1) n) (wire_ring m1) (body m1)
      (started (garbage pool) m1 n) r pool [] (base parser) (ts_written s) pool False"
    using parser rx(2) by (simp add: reached_def ts_written_def)
  have recv: "receiving (parser\<lparr>base := base parser\<rparr>)" using parser(1) by (simp add: receiving_def)
  have input: "[] @ queue w1 = head_text (v2_line (start_line m1) n) (wire_ring m1) @ body m1"
    using q by (simp add: wire_head_text)
  note lines = head_lines [OF send(4) rx(3)]
  obtain i b' s' pool' w2 where "poller_signals i apr hash garbage handler recv k (parser\<lparr>base := base parser\<rparr>, s, pool, agent) w1 =
      Some (DATA_PROCESSED True, (parser\<lparr>base := b'\<rparr>, s', pool', deliver ?m' agent), w2)" "queue w2 = []" "ts_pos s' = 0"
    using signals_deliver [where garbage = garbage and handler = handler and agent = agent, OF frames start handler lines socket(2) reached rx(1) recv input]
    by auto
  moreover have "n = length (queue w1)" using n unfolding q length_append .
  moreover have "message_received apr vt res (garbage pool) n m1 ?m'" using rec reached_garbage(2) by metis
  moreover have "parser\<lparr>base := base parser\<rparr> = parser" by simp
  ultimately show ?thesis using send(1) ok unfolding w1_def [symmetric] by metis
qed

end

end
