(* ===== verification/Mrcp_Resource_Loader.thy ===== *)
theory Mrcp_Resource_Loader
  imports Mrcp_Resource_Factory Mrcp_Synth_Resource Mrcp_Recog_Resource Mrcp_Recorder_Resource Mrcp_Verifier_Resource
begin

text \<open>
  The loader of the resources, \<open>libs/mrcp/control/src/mrcp_resource_loader.c\<close>: it creates the resources by name or by
  identifier and registers them in a factory. The data of a header is reached through a pointer without a type in the
  source. Here it is tagged with its resource, so that one factory can hold the four resources.
\<close>

section \<open>Headers of all resources\<close>

datatype 'f resource_header =
    Synth_Header "'f mrcp_synth_header"
  | Recog_Header "'f mrcp_recog_header"
  | Recorder_Header "'f mrcp_recorder_header"
  | Verifier_Header "'f mrcp_verifier_header"

text \<open>The data of a header as the functions of its table see it. Data of another resource does not reach them.\<close>

definition synth_data :: "'f float_ops \<Rightarrow> 'f resource_header \<Rightarrow> 'f mrcp_synth_header" where
  "synth_data fo d = (case d of Synth_Header h \<Rightarrow> h | _ \<Rightarrow> mrcp_synth_header_init fo)"

definition recog_data :: "'f float_ops \<Rightarrow> 'f resource_header \<Rightarrow> 'f mrcp_recog_header" where
  "recog_data fo d = (case d of Recog_Header h \<Rightarrow> h | _ \<Rightarrow> mrcp_recog_header_init fo)"

definition recorder_data :: "'f float_ops \<Rightarrow> 'f resource_header \<Rightarrow> 'f mrcp_recorder_header" where
  "recorder_data fo d = (case d of Recorder_Header h \<Rightarrow> h | _ \<Rightarrow> mrcp_recorder_header_init fo)"

definition verifier_data :: "'f float_ops \<Rightarrow> 'f resource_header \<Rightarrow> 'f mrcp_verifier_header" where
  "verifier_data fo d = (case d of Verifier_Header h \<Rightarrow> h | _ \<Rightarrow> mrcp_verifier_header_init fo)"

definition tagged_vtable :: "('a \<Rightarrow> 'r) \<Rightarrow> ('r \<Rightarrow> 'a) \<Rightarrow> 'a mrcp_header_vtable \<Rightarrow> 'r mrcp_header_vtable" where
  "tagged_vtable tag data vt =
     \<lparr>allocate = map_option tag (allocate vt),
      parse_field = (\<lambda>d k val. map_prod id tag (parse_field vt (data d) k val)),
      generate_field = (\<lambda>d. generate_field vt (data d)),
      duplicate_field = (\<lambda>d s k val. map_prod id (map_option tag) (duplicate_field vt (map_option data d) (map_option data s) k val)),
      field_table = field_table vt, field_count = field_count vt\<rparr>"

definition tagged_resource :: "('a \<Rightarrow> 'r) \<Rightarrow> ('r \<Rightarrow> 'a) \<Rightarrow> 'a mrcp_resource \<Rightarrow> 'r mrcp_resource" where
  "tagged_resource tag data res =
     \<lparr>res_id = res_id res, res_name = res_name res, method_count = method_count res, event_count = event_count res,
      get_method_str_table = get_method_str_table res, get_event_str_table = get_event_str_table res,
      get_resource_header_vtable = (\<lambda>v. map_option (tagged_vtable tag data) (get_resource_header_vtable res v))\<rparr>"

section \<open>The loader\<close>

definition mrcp_resource_string_table :: "apt_str_table_item list" where
  "mrcp_resource_string_table =
     [\<lparr>item_value = ''speechsynth'', item_key = 6\<rparr>, \<lparr>item_value = ''speechrecog'', item_key = 6\<rparr>,
      \<lparr>item_value = ''recorder'', item_key = 0\<rparr>, \<lparr>item_value = ''speakverify'', item_key = 3\<rparr>]"

definition MRCP_RESOURCE_TYPE_COUNT :: nat where "MRCP_RESOURCE_TYPE_COUNT = 4"

definition mrcp_resource_create_by_id :: "apr_fmt \<Rightarrow> 'f float_ops \<Rightarrow> nat \<Rightarrow> 'f resource_header mrcp_resource option" where
  "mrcp_resource_create_by_id apr fo i =
     map_option (\<lambda>res. res\<lparr>res_id := i\<rparr>)
       (if i = 0 then Some (tagged_resource Synth_Header (synth_data fo) (mrcp_synth_resource_create apr fo))
        else if i = 1 then Some (tagged_resource Recog_Header (recog_data fo) (mrcp_recog_resource_create apr fo))
        else if i = 2 then Some (tagged_resource Recorder_Header (recorder_data fo) (mrcp_recorder_resource_create apr fo))
        else if i = 3 then Some (tagged_resource Verifier_Header (verifier_data fo) (mrcp_verifier_resource_create apr fo))
        else None)"

text \<open>The loader is the factory it fills.\<close>

type_synonym ('h, 'f) mrcp_resource_loader = "('h, 'f resource_header) mrcp_resource_factory"

definition mrcp_resource_load ::
  "apr_fmt \<Rightarrow> 'f float_ops \<Rightarrow> ('h, 'f resource_header mrcp_resource) apr_hash_ops \<Rightarrow> ('h, 'f) mrcp_resource_loader \<Rightarrow> apt_str \<Rightarrow>
   bool \<times> ('h, 'f) mrcp_resource_loader"
where
  "mrcp_resource_load apr fo hash loader name =
     (case mrcp_resource_create_by_id apr fo
             (apt_string_table_id_find mrcp_resource_string_table MRCP_RESOURCE_TYPE_COUNT name) of
        None \<Rightarrow> (False, loader)
      | Some res \<Rightarrow> mrcp_resource_register hash loader (Some (res\<lparr>res_name := name\<rparr>)))"

definition mrcp_resource_load_by_id ::
  "apr_fmt \<Rightarrow> 'f float_ops \<Rightarrow> ('h, 'f resource_header mrcp_resource) apr_hash_ops \<Rightarrow> ('h, 'f) mrcp_resource_loader \<Rightarrow> nat \<Rightarrow>
   bool \<times> ('h, 'f) mrcp_resource_loader"
where
  "mrcp_resource_load_by_id apr fo hash loader i =
     (case (mrcp_resource_create_by_id apr fo i, apt_string_table_str_get mrcp_resource_string_table MRCP_RESOURCE_TYPE_COUNT i) of
        (Some res, Some name) \<Rightarrow> mrcp_resource_register hash loader (Some (res\<lparr>res_name := name\<rparr>))
      | _ \<Rightarrow> (False, loader))"

definition mrcp_resources_load ::
  "apr_fmt \<Rightarrow> 'f float_ops \<Rightarrow> ('h, 'f resource_header mrcp_resource) apr_hash_ops \<Rightarrow> ('h, 'f) mrcp_resource_loader \<Rightarrow>
   bool \<times> ('h, 'f) mrcp_resource_loader"
where
  "mrcp_resources_load apr fo hash loader =
     (True, fold (\<lambda>i loader. snd (mrcp_resource_load_by_id apr fo hash loader i)) [0..<MRCP_RESOURCE_TYPE_COUNT] loader)"

definition mrcp_resource_loader_create ::
  "apr_fmt \<Rightarrow> 'f float_ops \<Rightarrow> ('h, 'f resource_header mrcp_resource) apr_hash_ops \<Rightarrow> bool \<Rightarrow> ('h, 'f) mrcp_resource_loader option"
where
  "mrcp_resource_loader_create apr fo hash load_all_resources =
     (case mrcp_resource_factory_create hash MRCP_RESOURCE_TYPE_COUNT of
        None \<Rightarrow> None
      | Some factory \<Rightarrow> Some (if load_all_resources then snd (mrcp_resources_load apr fo hash factory) else factory))"

section \<open>The contract of a tagged header\<close>

locale tagged_header = message_contract vt wire_ok
  for vt :: "'a mrcp_header_vtable" and wire_ok +
  fixes tag :: "'a \<Rightarrow> 'r" and data :: "'r \<Rightarrow> 'a"
  assumes data_tag: "data (tag a) = a"

sublocale tagged_header \<subseteq> tagged: message_contract "tagged_vtable tag data vt" "\<lambda>d. wire_ok (data d)"
proof (unfold_locales, goal_cases)
  case 1
  show ?case using names by (simp add: tagged_vtable_def)
next
  case (2 k s val d)
  then show ?case using wire [of k "data s" val "data d"] by (fastforce simp: tagged_vtable_def)
next
  case 3
  show ?case using generic_apart by (simp add: tagged_vtable_def)
qed

interpretation synth_tagged: tagged_header "mrcp_synth_header_vtable_get apr fo v" "synth_wire_ok apr" Synth_Header "synth_data fo"
  for apr fo v
  by unfold_locales (simp add: synth_data_def)

interpretation recog_tagged: tagged_header "mrcp_recog_header_vtable_get apr fo v" "recog_wire_ok apr" Recog_Header "recog_data fo"
  for apr fo v
  by unfold_locales (simp add: recog_data_def)

interpretation recorder_tagged: tagged_header "mrcp_recorder_header_vtable_get apr fo v" "recorder_wire_ok apr" Recorder_Header
    "recorder_data fo"
  for apr fo v
  by unfold_locales (simp add: recorder_data_def)

interpretation verifier_tagged: tagged_header "mrcp_verifier_header_vtable_get apr fo v" "verifier_wire_ok apr" Verifier_Header
    "verifier_data fo"
  for apr fo v
  by unfold_locales (simp add: verifier_data_def)

section \<open>What is loaded\<close>

definition resource_names :: "apt_str list" where
  "resource_names = [''speechsynth'', ''speechrecog'', ''recorder'', ''speakverify'']"

definition loaded_resource :: "apr_fmt \<Rightarrow> 'f float_ops \<Rightarrow> nat \<Rightarrow> 'f resource_header mrcp_resource" where
  "loaded_resource apr fo i = (the (mrcp_resource_create_by_id apr fo i))\<lparr>res_name := resource_names ! i\<rparr>"

lemma less_4_cases: "i < (4 :: nat) \<longleftrightarrow> i = 0 \<or> i = 1 \<or> i = 2 \<or> i = 3"
  by auto

lemmas resource_create_defs = mrcp_resource_create_by_id_def tagged_resource_def mrcp_synth_resource_create_def
  mrcp_recog_resource_create_def mrcp_recorder_resource_create_def mrcp_verifier_resource_create_def

lemma create_by_id: "mrcp_resource_create_by_id apr fo i \<noteq> None \<longleftrightarrow> i < 4"
  by (simp add: mrcp_resource_create_by_id_def less_4_cases)

lemma created_resource:
  assumes "mrcp_resource_create_by_id apr fo i = Some res"
  shows "res_id res = i" "method_count res \<noteq> 0" "event_count res \<noteq> 0"
  using assms by (auto simp: resource_create_defs SYNTHESIZER_METHOD_COUNT_def SYNTHESIZER_EVENT_COUNT_def
    RECOGNIZER_METHOD_COUNT_def RECOGNIZER_EVENT_COUNT_def RECORDER_METHOD_COUNT_def RECORDER_EVENT_COUNT_def
    VERIFIER_METHOD_COUNT_def VERIFIER_EVENT_COUNT_def split: if_splits)

lemma loaded_name: "i < 4 \<Longrightarrow> apt_string_table_str_get mrcp_resource_string_table MRCP_RESOURCE_TYPE_COUNT i = Some (resource_names ! i)"
  by (auto simp: less_4_cases apt_string_table_str_get_def mrcp_resource_string_table_def MRCP_RESOURCE_TYPE_COUNT_def
    resource_names_def)

lemma load_by_id:
  assumes "apr_hash_ok hash" "i < length (resource_array loader)" "length (resource_array loader) = 4" "mrcp_resource_get loader i = None"
    and loader': "loader' = snd (mrcp_resource_load_by_id apr fo hash loader i)"
  shows "length (resource_array loader') = 4"
    and "mrcp_resource_get loader' = (mrcp_resource_get loader)(i \<mapsto> loaded_resource apr fo i)"
    and "mrcp_resource_find hash loader' = (mrcp_resource_find hash loader)(resource_names ! i \<mapsto> loaded_resource apr fo i)"
proof -
  obtain res where res: "mrcp_resource_create_by_id apr fo i = Some res"
    using create_by_id [of apr fo i] assms(2,3) by auto
  note r = created_resource [OF res]
  have i: "i < 4" using assms(2,3) by simp
  have name: "resource_names ! i \<noteq> []" using i by (auto simp: less_4_cases resource_names_def)
  have eq: "loaded_resource apr fo i = res\<lparr>res_name := resource_names ! i\<rparr>" using res by (simp add: loaded_resource_def)
  have l: "mrcp_resource_load_by_id apr fo hash loader i = mrcp_resource_register hash loader (Some (loaded_resource apr fo i))"
    using res loaded_name [OF i] by (simp add: mrcp_resource_load_by_id_def eq)
  have "fst (mrcp_resource_register hash loader (Some (loaded_resource apr fo i)))"
    using assms(2-4) r name by (simp add: mrcp_resource_register_def mrcp_resource_validate_def mrcp_resource_get_def eq)
  then have reg: "mrcp_resource_register hash loader (Some (loaded_resource apr fo i)) = (True, loader')"
    by (simp add: loader' l prod_eq_iff)
  show "length (resource_array loader') = 4"
    using reg assms(3) by (auto simp: mrcp_resource_register_def split: if_splits)
  show "mrcp_resource_get loader' = (mrcp_resource_get loader)(i \<mapsto> loaded_resource apr fo i)"
    "mrcp_resource_find hash loader' = (mrcp_resource_find hash loader)(resource_names ! i \<mapsto> loaded_resource apr fo i)"
    using register_found [OF assms(1) reg] r by (simp_all add: eq)
qed

lemma loader_created:
  assumes "apr_hash_ok hash" "mrcp_resource_loader_create apr fo hash True = Some loader"
  shows "length (resource_array loader) = 4"
    and "mrcp_resource_get loader = (\<lambda>i. if i < 4 then Some (loaded_resource apr fo i) else None)"
    and "mrcp_resource_find hash loader = map_of (zip resource_names (map (loaded_resource apr fo) [0..<4]))"
proof -
  let ?load = "\<lambda>i loader. snd (mrcp_resource_load_by_id apr fo hash loader i)"
  define l0 where "l0 = \<lparr>resource_array = replicate 4 None :: 'b resource_header mrcp_resource option list,
    resource_hash = apr_hash_make hash\<rparr>"
  define l1 l2 l3 where "l1 = ?load 0 l0" "l2 = ?load 1 l1" "l3 = ?load 2 l2"
  have loader: "loader = ?load 3 l3"
    using assms(2) by (simp add: mrcp_resource_loader_create_def mrcp_resource_factory_create_def MRCP_RESOURCE_TYPE_COUNT_def
      mrcp_resources_load_def l0_def l1_l2_l3_def upt_rec numeral_2_eq_2 numeral_3_eq_3)
  have 0: "length (resource_array l0) = 4" "mrcp_resource_get l0 = Map.empty" "mrcp_resource_find hash l0 = Map.empty"
    using apr_hash_okD(1) [OF assms(1)] by (auto simp: l0_def mrcp_resource_get_def mrcp_resource_find_def fun_eq_iff)
  note 1 = load_by_id [OF assms(1) _ _ _ l1_l2_l3_def(1), unfolded 0, simplified]
  note 2 = load_by_id [OF assms(1) _ _ _ l1_l2_l3_def(2), unfolded 1, simplified]
  note 3 = load_by_id [OF assms(1) _ _ _ l1_l2_l3_def(3), unfolded 2, simplified]
  note 4 = load_by_id [OF assms(1) _ _ _ loader, unfolded 3, simplified]
  show "length (resource_array loader) = 4" by (rule 4)
  show "mrcp_resource_get loader = (\<lambda>i. if i < 4 then Some (loaded_resource apr fo i) else None)"
    by (auto simp: 4 fun_eq_iff less_4_cases)
  show "mrcp_resource_find hash loader = map_of (zip resource_names (map (loaded_resource apr fo) [0..<4]))"
    by (auto simp: 4 fun_eq_iff resource_names_def upt_rec numeral_2_eq_2 numeral_3_eq_3)
qed

lemma loader_exists: "\<exists>loader. mrcp_resource_loader_create apr fo hash b = Some loader"
  by (simp add: mrcp_resource_loader_create_def mrcp_resource_factory_create_def MRCP_RESOURCE_TYPE_COUNT_def)

text \<open>Loading keeps the agreement of the two views of the factory.\<close>

lemma factory_wf_load:
  assumes "apr_hash_ok hash" "factory_wf hash loader"
  shows "factory_wf hash (snd (mrcp_resource_load apr fo hash loader name))"
    and "factory_wf hash (snd (mrcp_resource_load_by_id apr fo hash loader i))"
proof -
  have reg: "factory_wf hash (snd (mrcp_resource_register hash loader r))" for r
    using factory_wf_register [OF assms] by (cases "mrcp_resource_register hash loader r") auto
  show "factory_wf hash (snd (mrcp_resource_load apr fo hash loader name))"
    using reg assms(2) by (simp add: mrcp_resource_load_def split: option.split)
  show "factory_wf hash (snd (mrcp_resource_load_by_id apr fo hash loader i))"
    using reg assms(2) by (simp add: mrcp_resource_load_by_id_def split: option.split)
qed

lemma factory_wf_loader:
  assumes "apr_hash_ok hash" "mrcp_resource_loader_create apr fo hash b = Some loader"
  shows "factory_wf hash loader"
proof -
  have "factory_wf hash (fold (\<lambda>i loader. snd (mrcp_resource_load_by_id apr fo hash loader i)) ks l)" if "factory_wf hash l" for l ks
    using that by (induction ks arbitrary: l) (simp_all add: factory_wf_load(2) [OF assms(1)])
  then show ?thesis
    using assms by (auto simp: mrcp_resource_loader_create_def mrcp_resources_load_def factory_wf_create split: option.splits)
qed

text \<open>When everything has been loaded, every slot is taken and nothing is ever replaced.\<close>

lemma load_again:
  assumes "mrcp_resource_get loader = (\<lambda>i. if i < 4 then Some (loaded_resource apr fo i) else None)" "length (resource_array loader) = 4"
  shows "mrcp_resource_load apr fo hash loader name = (False, loader)"
proof (cases "mrcp_resource_create_by_id apr fo (apt_string_table_id_find mrcp_resource_string_table MRCP_RESOURCE_TYPE_COUNT name)")
  case None
  then show ?thesis by (simp add: mrcp_resource_load_def)
next
  case (Some res)
  have "res_id res < 4" using created_resource(1) [OF Some] create_by_id Some by force
  then have "resource_array loader ! res_id res \<noteq> None"
    using assms(2) fun_cong [OF assms(1), of "res_id res"] by (simp add: mrcp_resource_get_def)
  then show ?thesis using Some assms(2) by (auto simp: mrcp_resource_load_def mrcp_resource_register_def)
qed

text \<open>
  C6: The loader with all resources succeeds; the resources are found under their four names and in their slots and the two
  views of the factory agree; loading a resource again by any name is refused and changes nothing. The only assumption is that
  the hash table of the runtime returns what was stored last.
\<close>

theorem resource_loader_wf:
  assumes "apr_hash_ok hash"
  shows "\<exists>loader. mrcp_resource_loader_create apr fo hash True = Some loader \<and> factory_wf hash loader \<and>
    (\<forall>i < MRCP_RESOURCE_TYPE_COUNT. \<exists>name res.
       apt_string_table_str_get mrcp_resource_string_table MRCP_RESOURCE_TYPE_COUNT i = Some name \<and>
       mrcp_resource_find hash loader name = Some res \<and> mrcp_resource_get loader i = Some res \<and> res_id res = i) \<and>
    (\<forall>name. mrcp_resource_load apr fo hash loader name = (False, loader))"
proof -
  obtain loader where l: "mrcp_resource_loader_create apr fo hash True = Some loader" using loader_exists by blast
  note c = loader_created [OF assms l]
  have "\<exists>name res. apt_string_table_str_get mrcp_resource_string_table MRCP_RESOURCE_TYPE_COUNT i = Some name \<and>
       mrcp_resource_find hash loader name = Some res \<and> mrcp_resource_get loader i = Some res \<and> res_id res = i" if "i < 4" for i
  proof (intro exI conjI)
    show "apt_string_table_str_get mrcp_resource_string_table MRCP_RESOURCE_TYPE_COUNT i = Some (resource_names ! i)"
      by (rule loaded_name [OF that])
    show "mrcp_resource_find hash loader (resource_names ! i) = Some (loaded_resource apr fo i)"
      using that by (auto simp: c(3) less_4_cases resource_names_def upt_rec numeral_2_eq_2 numeral_3_eq_3)
    show "mrcp_resource_get loader i = Some (loaded_resource apr fo i)" using that by (simp add: c(2))
    show "res_id (loaded_resource apr fo i) = i"
      using create_by_id [of apr fo i] created_resource(1) [of apr fo i] that by (auto simp: loaded_resource_def)
  qed
  then show ?thesis
    using l factory_wf_loader [OF assms l] load_again [OF c(2,1)] by (auto simp: MRCP_RESOURCE_TYPE_COUNT_def)
qed

theorem resource_loader_wf_witness:
  "\<exists>loader. mrcp_resource_loader_create apr_std float_unit apr_hash_std True = Some loader \<and> factory_wf apr_hash_std loader \<and>
    mrcp_resource_load apr_std float_unit apr_hash_std loader ''SPEECHRECOG'' = (False, loader)"
  using resource_loader_wf [OF apr_hash_std_ok, of apr_std float_unit] by blast

end
