(* ===== verification/Mrcp_Delivery.thy ===== *)
theory Mrcp_Delivery
  imports Mrcp_Segments Mrcp_Resource_Loader
begin

text \<open>
  The way of a message from one end of a connection to the other, for the resources the loader has registered: generator,
  transmit buffer, socket, receive buffer, parser and factory together.
\<close>

section \<open>The loaded resources\<close>

text \<open>The fields of a header that survive, for the resource with an identifier.\<close>

definition resource_wire_ok :: "apr_fmt \<Rightarrow> 'f float_ops \<Rightarrow> nat \<Rightarrow> 'f resource_header \<Rightarrow> nat \<Rightarrow> bool" where
  "resource_wire_ok apr fo i d k =
     (if i = 0 then synth_wire_ok apr (synth_data fo d) k
      else if i = 1 then recog_wire_ok apr (recog_data fo d) k
      else if i = 2 then recorder_wire_ok apr (recorder_data fo d) k
      else verifier_wire_ok apr (verifier_data fo d) k)"

lemma resource_wire_ok_eq:
  "resource_wire_ok apr fo 0 = (\<lambda>d. synth_wire_ok apr (synth_data fo d))"
  "resource_wire_ok apr fo (Suc 0) = (\<lambda>d. recog_wire_ok apr (recog_data fo d))"
  "resource_wire_ok apr fo 2 = (\<lambda>d. recorder_wire_ok apr (recorder_data fo d))"
  "resource_wire_ok apr fo 3 = (\<lambda>d. verifier_wire_ok apr (verifier_data fo d))"
  by (simp_all add: resource_wire_ok_def fun_eq_iff)

lemma loaded_contract:
  assumes "i < 4" "get_resource_header_vtable (loaded_resource apr fo i) v = Some vt"
  shows "message_contract vt (resource_wire_ok apr fo i)" "allocate vt \<noteq> None" "res_id (loaded_resource apr fo i) = i"
proof -
  consider "i = 0" "vt = tagged_vtable Synth_Header (synth_data fo) (mrcp_synth_header_vtable_get apr fo v)"
    | "i = 1" "vt = tagged_vtable Recog_Header (recog_data fo) (mrcp_recog_header_vtable_get apr fo v)"
    | "i = 2" "vt = tagged_vtable Recorder_Header (recorder_data fo) (mrcp_recorder_header_vtable_get apr fo v)"
    | "i = 3" "vt = tagged_vtable Verifier_Header (verifier_data fo) (mrcp_verifier_header_vtable_get apr fo v)"
    using assms by (auto simp: less_4_cases loaded_resource_def resource_create_defs)
  note vts = this
  from vts show "message_contract vt (resource_wire_ok apr fo i)"
    by cases (simp_all add: resource_wire_ok_eq synth_tagged.tagged.message_contract_axioms
      recog_tagged.tagged.message_contract_axioms recorder_tagged.tagged.message_contract_axioms
      verifier_tagged.tagged.message_contract_axioms)
  from vts show "allocate vt \<noteq> None"
    by cases (simp_all add: tagged_vtable_def mrcp_synth_header_vtable_get_def mrcp_recog_header_vtable_get_def
      mrcp_recorder_header_vtable_get_def mrcp_verifier_header_vtable_get_def)
  show "res_id (loaded_resource apr fo i) = i"
    using assms(1) by (auto simp: less_4_cases loaded_resource_def resource_create_defs)
qed

lemma found_resource:
  assumes "apr_hash_ok hash" "mrcp_resource_loader_create apr fo hash True = Some loader" "mrcp_resource_find hash loader name = Some res"
  obtains i where "i < 4" "res = loaded_resource apr fo i"
  using map_of_SomeD [of "zip resource_names (map (loaded_resource apr fo) [0..<4])" name res] assms(3)
  by (auto simp: loader_created(3) [OF assms(1,2)] in_set_zip resource_names_def)

section \<open>Delivery\<close>


text \<open>A recognizer request with a body, and a socket that hands out seven bytes at a time.\<close>

definition delivery_vtable :: "unit resource_header mrcp_header_vtable" where
  "delivery_vtable = tagged_vtable Recog_Header (recog_data float_unit) (mrcp_recog_header_vtable_get apr_std float_unit MRCP_VERSION_2)"

definition delivery_example :: "unit resource_header mrcp_message" where
  "delivery_example =
     \<lparr>start_line = (mrcp_start_line_init 4)\<lparr>message_type := MRCP_MESSAGE_TYPE_REQUEST, version := MRCP_VERSION_2,
        method_name := ''RECOGNIZE'', request_id := 7\<rparr>,
      channel_id = \<lparr>session_id = ''1a'', resource_name = ''speechrecog''\<rparr>,
      header =
        \<lparr>generic_header_accessor =
           \<lparr>acc_data = Some (mrcp_generic_header_init\<lparr>content_length := 5\<rparr>),
            acc_vtable = Some (mrcp_generic_header_vtable_get apr_std)\<rparr>,
         resource_header_accessor =
           \<lparr>acc_data = Some (Recog_Header ((mrcp_recog_header_init float_unit)\<lparr>mrcp_recog_header.save_waveform := True\<rparr>)),
            acc_vtable = Some delivery_vtable\<rparr>,
         header_section =
           \<lparr>hs_ring = [(0, \<lparr>hf_name = ''Save-Waveform'', hf_value = ''true'', hf_id = 33\<rparr>),
              (1, \<lparr>hf_name = ''Content-Length'', hf_value = ''5'', hf_id = 8\<rparr>)],
            hs_arr = (replicate 60 None)[33 := Some 0, 8 := Some 1]\<rparr>\<rparr>,
      body = ''hello'', resource = None\<rparr>"

definition socket_send_std :: "string \<Rightarrow> string \<Rightarrow> bool \<times> string" where
  "socket_send_std c w = (True, w @ c)"

definition socket_recv_std :: "nat \<Rightarrow> string \<Rightarrow> string \<times> string" where
  "socket_recv_std k w = (take (min k 7) w, drop (min k 7) w)"

definition log_handler ::
  "apt_message_status_e \<Rightarrow> 'm option \<Rightarrow> 'm list \<Rightarrow> (bool \<times> 'm list) option"
where
  "log_handler status m log = Some (True, case m of None \<Rightarrow> log | Some m \<Rightarrow> log @ [m])"

lemma delivery_example_sent:
  "message_sent apr_std delivery_vtable (resource_wire_ok apr_std float_unit 1) (loaded_resource apr_std float_unit 1) delivery_example"
proof -
  let ?h = "header delivery_example" and ?ok = "resource_wire_ok apr_std float_unit 1"
  have dec: "dec 5 = ''5''" by code_simp
  have "mrcp_header_field_value_generate (resource_header_accessor ?h) 17 False =
      Some (Some \<lparr>hf_name = ''Save-Waveform'', hf_value = ''true'', hf_id = UNKNOWN_HEADER_FIELD_ID\<rparr>)"
    by (simp add: mrcp_header_field_value_generate_def delivery_example_def delivery_vtable_def tagged_vtable_def recog_data_def
      mrcp_recog_header_vtable_get_def mrcp_v2_recog_header_generate_def mrcp_recog_header_generate_def
      v2_recog_header_string_table_def RECOGNIZER_HEADER_COUNT_def apt_string_table_str_get_def apt_header_field_alloc_def
      apt_boolean_value_generate_def TOKEN_TRUE_def)
  then have "resource_sent (field_count delivery_vtable) ?ok ?h \<lparr>hf_name = ''Save-Waveform'', hf_value = ''true'', hf_id = 33\<rparr>"
    unfolding resource_sent_def
    by (intro exI [of _ 17]) (simp add: apr_std_ok resource_wire_ok_def recog_wire_ok_def delivery_vtable_def tagged_vtable_def
      mrcp_recog_header_vtable_get_def RECOGNIZER_HEADER_COUNT_def GENERIC_HEADER_COUNT_def, simp add: delivery_example_def)
  moreover have "mrcp_header_field_value_generate (generic_header_accessor ?h) 8 False =
      Some (Some \<lparr>hf_name = ''Content-Length'', hf_value = ''5'', hf_id = UNKNOWN_HEADER_FIELD_ID\<rparr>)"
    by (simp add: mrcp_header_field_value_generate_def delivery_example_def mrcp_generic_header_vtable_get_def
      mrcp_generic_header_generate_def generic_header_string_table_def GENERIC_HEADER_COUNT_def apt_string_table_str_get_def
      apt_header_field_alloc_def apt_size_value_generate_def apr_std_def dec)
  then have "generic_sent apr_std ?h \<lparr>hf_name = ''Content-Length'', hf_value = ''5'', hf_id = 8\<rparr>"
    unfolding generic_sent_def
    by (simp add: apr_std_ok generic_wire_ok_def GENERIC_HEADER_COUNT_def) (simp add: delivery_example_def)
  moreover have "header_ready apr_std delivery_vtable ?h" by (simp add: header_ready_def delivery_example_def)
  moreover have "list_all (\<lambda>f. field_ok (snd f)) (hs_ring (header_section ?h))" by code_simp
  ultimately have hs: "header_sent apr_std delivery_vtable ?ok ?h"
    by (auto simp: header_sent_def delivery_example_def)
  have "channel_ok (channel_id delivery_example)" "start_line_ok (start_line delivery_example)" by code_simp+
  moreover have "announced_length delivery_example = length (body delivery_example)"
    by (simp add: announced_length_def delivery_example_def mrcp_generic_header_get_def GENERIC_HEADER_CONTENT_LENGTH_def)
  moreover have "get_resource_header_vtable (loaded_resource apr_std float_unit 1) MRCP_VERSION_2 = Some delivery_vtable"
    by (simp add: loaded_resource_def resource_create_defs delivery_vtable_def)
  moreover have "known_method (loaded_resource apr_std float_unit 1) 0 (start_line delivery_example) \<noteq> None"
    by code_simp
  moreover have "version (start_line delivery_example) = MRCP_VERSION_2" by (simp add: delivery_example_def)
  ultimately show ?thesis using hs by (simp add: message_sent_def)
qed


end
