(* ===== verification/Apt_Message_Safety.thy ===== *)
theory Apt_Message_Safety
  imports Apt_Text_Message
begin

text \<open>
  When the parser of \<open>apt_text_message.c\<close> can fault: whatever the stream holds, it faults exactly on a header that announces a
  body of \<open>2 ^ 64 - 1\<close> bytes, for which the size of the buffer of the body wraps to zero.
\<close>

text \<open>The length of the body that the header announces, if a run of the parser gets to the end of a valid header.\<close>

definition header_announces ::
  "'m apt_message_parser_vtable \<Rightarrow> nat \<Rightarrow> 'm \<Rightarrow> apt_text_stream \<Rightarrow> nat option"
where
  "header_announces vt pool m s =
     (case apt_header_section_parse pool (ctx_header vt m) s of
        (False, _) \<Rightarrow> None
      | (True, sec, _) \<Rightarrow>
          (case on_header_complete vt (ctx_header_put vt sec m) of Some (True, _, n) \<Rightarrow> Some n | _ \<Rightarrow> None))"

definition run_announces ::
  "'m apt_message_parser_vtable \<Rightarrow> nat \<Rightarrow> 'm apt_message_parser \<Rightarrow> apt_text_stream \<Rightarrow> nat option"
where
  "run_announces vt pool p s =
     (let s = (if skip_lf p then apt_text_char_skip APT_TOKEN_LF s else s)
      in case stage p of
           APT_MESSAGE_STAGE_START_LINE \<Rightarrow>
             (case on_start vt s of (None, _) \<Rightarrow> None | (Some m, s) \<Rightarrow> header_announces vt pool m s)
         | APT_MESSAGE_STAGE_HEADER \<Rightarrow> Option.bind (context_message p) (\<lambda>m. header_announces vt pool m s)
         | APT_MESSAGE_STAGE_BODY \<Rightarrow> None)"

definition overflows :: "nat option \<Rightarrow> bool" where
  "overflows n \<longleftrightarrow> (case n of None \<Rightarrow> False | Some k \<Rightarrow> 2 ^ 64 - 1 \<le> k)"

lemma overflows_simps [simp]: "\<not> overflows None" "overflows (Some n) \<longleftrightarrow> 2 ^ 64 - 1 \<le> n"
  by (simp_all add: overflows_def)

text \<open>The size of the buffer of the body.\<close>

lemma body_size_wraps: "(n + 1) mod 2 ^ 64 \<le> n \<longleftrightarrow> 2 ^ 64 - 1 \<le> (n :: nat)"
proof (cases "n < 2 ^ 64 - 1")
  case True
  then show ?thesis by simp
next
  case False
  moreover have "(n + 1) mod 2 ^ 64 < 2 ^ 64" by simp
  ultimately show ?thesis by linarith
qed

text \<open>A parser in the middle of a header has a message.\<close>

definition parser_kept :: "('m \<Rightarrow> bool) \<Rightarrow> 'm apt_message_parser \<Rightarrow> bool" where
  "parser_kept ok p \<longleftrightarrow> (stage p = APT_MESSAGE_STAGE_HEADER \<longrightarrow> (\<exists>m. context_message p = Some m \<and> ok m))"

lemma crlf_test_total:
  assumes "ts_wf s" "0 < ts_end s"
  obtains b where "apt_crlf_segmentation_test p s = Some (p\<lparr>skip_lf := b\<rparr>)"
proof -
  have "\<exists>b. apt_crlf_segmentation_test p s = Some (p\<lparr>skip_lf := b\<rparr>)"
  proof (cases "ts_pos s = ts_end s \<and> ts_mem s ! (ts_pos s - 1) = APT_TOKEN_CR")
    case True
    then show ?thesis
      using assms by (intro exI [of _ True]) (auto simp: apt_crlf_segmentation_test_def ts_wf_def)
  next
    case False
    have "p\<lparr>skip_lf := skip_lf p\<rparr> = p" by simp
    then show ?thesis
      using assms False by (intro exI [of _ "skip_lf p"]) (auto simp: apt_crlf_segmentation_test_def ts_wf_def)
  qed
  then show ?thesis using that by blast
qed

text \<open>What the handlers of a protocol promise: they make messages that are fit to be completed.\<close>

locale message_safe = message_reader vt
  for vt :: "'m apt_message_parser_vtable" +
  fixes ok :: "'m \<Rightarrow> bool"
  assumes start_ok: "on_start vt s = (Some m, s') \<Longrightarrow> ok m"
    and header_ok: "ok m \<Longrightarrow> ok (ctx_header_put vt sec m)"
    and complete_ok: "ok m \<Longrightarrow> \<exists>valid m' n. on_header_complete vt m = Some (valid, m', n) \<and> ok m'"
begin

lemma body_stage_safe:
  assumes "ts_whole s" "parser_ok vt p" "stage p = APT_MESSAGE_STAGE_BODY"
  shows "\<exists>status m p' s'. parser_body_stage vt pool p s = Some (status, m, p', s', pool) \<and> parser_kept ok p'"
proof -
  obtain m where m: "context_message p = Some m" "length (ctx_body vt m) < parser_content_length p"
    using assms(2,3) by (auto simp: parser_ok_def)
  show ?thesis
    using m assms(3) body_read_part [OF assms(1), of "parser_content_length p" "ctx_body vt m"]
    by (cases "parser_content_length p - length (ctx_body vt m) \<le> ts_room s")
      (simp_all add: parser_body_stage_def parser_kept_def Let_def)
qed

lemma header_stage_safe:
  assumes "ts_whole s" "0 < ts_end s" "stage p = APT_MESSAGE_STAGE_HEADER" "context_message p = Some m" "ok m"
  shows "parser_header_stage vt pool p s = None \<longleftrightarrow> overflows (header_announces vt pool m s)"
    and "parser_header_stage vt pool p s = Some (status, mo, p', s', k) \<Longrightarrow> parser_kept ok p'"
proof -
  obtain b sec s1 n where sec: "apt_header_section_parse pool (ctx_header vt m) s = (b, sec, s1, n)" by (metis prod_cases4)
  have wf: "ts_wf s" using assms(1) by (simp add: ts_whole_def)
  have reads: "ts_reads s s1" using section_parse_reads [OF wf sec] by blast
  have whole: "ts_whole s1" by (rule ts_whole_reads [OF assms(1) reads])
  then have "ts_wf s1" "0 < ts_end s1" using assms(2) ts_reads_wf [OF wf reads] by (simp_all add: ts_whole_def)
  then obtain c where c: "apt_crlf_segmentation_test (p\<lparr>context_message := Some (ctx_header_put vt sec m)\<rparr>) s1 =
      Some (p\<lparr>context_message := Some (ctx_header_put vt sec m), skip_lf := c\<rparr>)"
    by (rule crlf_test_total)
  obtain valid m1 l where complete: "on_header_complete vt (ctx_header_put vt sec m) = Some (valid, m1, l)" "ok m1"
    using complete_ok [OF header_ok [OF assms(5)]] by blast
  let ?q = "p\<lparr>skip_lf := c, context_message := Some (ctx_body_put vt [] m1), parser_content_length := l, stage := APT_MESSAGE_STAGE_BODY\<rparr>"
  have run: "parser_header_stage vt pool p s =
      (if \<not> b then Some (APT_MESSAGE_STATUS_INCOMPLETE, None, p\<lparr>context_message := Some (ctx_header_put vt sec m), skip_lf := c\<rparr>, s1, n)
       else if \<not> valid then Some (APT_MESSAGE_STATUS_INVALID, None, p\<lparr>context_message := Some m1, skip_lf := c\<rparr>, s1, n)
       else if l \<noteq> 0 then (if (l + 1) mod 2 ^ 64 \<le> l then None else parser_body_stage vt n ?q s1)
       else Some (APT_MESSAGE_STATUS_COMPLETE, Some m1,
         p\<lparr>context_message := Some m1, skip_lf := c, stage := APT_MESSAGE_STAGE_START_LINE\<rparr>, s1, n))"
    using assms(4) sec c complete(1) by (simp add: parser_header_stage_def Let_def)
  have ann: "header_announces vt pool m s = (if b \<and> valid then Some l else None)"
    using sec complete(1) by (cases b; cases valid) (simp_all add: header_announces_def)
  have body: "\<exists>status mo p' s'. parser_body_stage vt n ?q s1 = Some (status, mo, p', s', n) \<and> parser_kept ok p'" if "l \<noteq> 0"
    using body_stage_safe [OF whole, of ?q] that by (auto simp: parser_ok_def body_put)
  show "parser_header_stage vt pool p s = None \<longleftrightarrow> overflows (header_announces vt pool m s)"
    using body unfolding run ann body_size_wraps by auto
  show "parser_kept ok p'" if "parser_header_stage vt pool p s = Some (status, mo, p', s', k)"
    using that body assms(3) header_ok [OF assms(5)] complete(2) by (auto simp: run parser_kept_def split: if_splits)
qed

lemma parser_run_safe:
  assumes "ts_whole s" "0 < ts_end s" "parser_ok vt p" "parser_kept ok p"
  shows "apt_message_parser_run vt pool p s = None \<longleftrightarrow> overflows (run_announces vt pool p s)"
    and "apt_message_parser_run vt pool p s = Some (status, mo, p', s', k) \<Longrightarrow> parser_kept ok p'"
proof -
  define s1 where "s1 = (if skip_lf p then apt_text_char_skip APT_TOKEN_LF s else s)"
  define q where "q = p\<lparr>skip_lf := False\<rparr>"
  have wf: "ts_wf s" using assms(1) by (simp add: ts_whole_def)
  have r1: "ts_reads s s1" by (simp add: s1_def char_skip_reads)
  have s1: "ts_whole s1" "0 < ts_end s1" "ts_wf s1"
    using ts_whole_reads [OF assms(1) r1] ts_reads_wf [OF wf r1] assms(2) by (simp_all add: ts_whole_def)
  have q: "parser_ok vt q" "parser_kept ok q" "stage q = stage p" "context_message q = context_message p"
    using assms(3,4) by (simp_all add: q_def parser_ok_def parser_kept_def)
  note run = apt_message_parser_run_def [of vt pool p s, unfolded Let_def, folded s1_def q_def]
  note ann = run_announces_def [of vt pool p s, unfolded Let_def, folded s1_def]
  have "(apt_message_parser_run vt pool p s = None \<longleftrightarrow> overflows (run_announces vt pool p s)) \<and>
    (\<forall>status mo p' s' k. apt_message_parser_run vt pool p s = Some (status, mo, p', s', k) \<longrightarrow> parser_kept ok p')"
  proof (cases "stage p")
    case APT_MESSAGE_STAGE_START_LINE
    obtain mo s2 where start: "on_start vt s1 = (mo, s2)" by fastforce
    show ?thesis
    proof (cases mo)
      case None
      then show ?thesis
        using APT_MESSAGE_STAGE_START_LINE start q(3) by (simp add: run ann parser_kept_def)
    next
      case (Some m)
      have r2: "ts_reads s1 s2" using start_reads [OF s1(3) start] by blast
      have s2: "ts_whole s2" "0 < ts_end s2" "ts_wf s2"
        using ts_whole_reads [OF s1(1) r2] ts_reads_wf [OF s1(3) r2] s1(2) by (simp_all add: ts_whole_def)
      obtain c where c: "apt_crlf_segmentation_test (q\<lparr>context_message := Some m\<rparr>) s2 = Some (q\<lparr>context_message := Some m, skip_lf := c\<rparr>)"
        by (rule crlf_test_total [OF s2(3,2)])
      have m: "ok m" using start_ok start Some by blast
      let ?q = "q\<lparr>context_message := Some m, skip_lf := c, stage := APT_MESSAGE_STAGE_HEADER\<rparr>"
      have "apt_message_parser_run vt pool p s = parser_header_stage vt pool ?q s2"
        using APT_MESSAGE_STAGE_START_LINE start Some c q(3) by (simp add: run)
      moreover have "run_announces vt pool p s = header_announces vt pool m s2"
        using APT_MESSAGE_STAGE_START_LINE start Some by (simp add: ann)
      ultimately show ?thesis using header_stage_safe [OF s2(1,2), of ?q m pool] m by auto
    qed
  next
    case APT_MESSAGE_STAGE_HEADER
    then obtain m where m: "context_message q = Some m" "ok m" using q(2-4) by (auto simp: parser_kept_def)
    have st: "stage q = APT_MESSAGE_STAGE_HEADER" using q(3) APT_MESSAGE_STAGE_HEADER by simp
    have "apt_message_parser_run vt pool p s = parser_header_stage vt pool q s1" using st by (simp add: run)
    moreover have "run_announces vt pool p s = header_announces vt pool m s1"
      using APT_MESSAGE_STAGE_HEADER m(1) q(4) by (simp add: ann)
    ultimately show ?thesis using header_stage_safe [OF s1(1,2) st m, of pool] by auto
  next
    case APT_MESSAGE_STAGE_BODY
    then have st: "stage q = APT_MESSAGE_STAGE_BODY" using q(3) by simp
    from body_stage_safe [OF s1(1) q(1) st, of pool]
    show ?thesis using st APT_MESSAGE_STAGE_BODY by (auto simp: run ann)
  qed
  then show "apt_message_parser_run vt pool p s = None \<longleftrightarrow> overflows (run_announces vt pool p s)"
    and "apt_message_parser_run vt pool p s = Some (status, mo, p', s', k) \<Longrightarrow> parser_kept ok p'"
    by blast+
qed

end

end
