(* ===== verification/Mrcp_Receive_Safety.thy ===== *)
theory Mrcp_Receive_Safety
  imports Mrcp_Delivery Apt_Message_Safety
begin

text \<open>
  What a peer can do to a receiver: for every sequence of bytes, cut in every way, the receive loop of a connection ends, stores
  nothing outside of the receive buffer and faults exactly when a header announces a body of \<open>2 ^ 64 - 1\<close> bytes.
\<close>

section \<open>Completing a header never faults\<close>

text \<open>A table of functions is only set together with the data.\<close>

definition accessor_ok :: "'d mrcp_header_accessor \<Rightarrow> bool" where
  "accessor_ok acc \<longleftrightarrow> acc_vtable acc = None \<or> acc_data acc \<noteq> None"

definition message_ok :: "'r mrcp_message \<Rightarrow> bool" where
  "message_ok m \<longleftrightarrow> accessor_ok (generic_header_accessor (header m)) \<and> accessor_ok (resource_header_accessor (header m))"

lemma value_parse_ok:
  assumes "accessor_ok acc"
  obtains b acc' g where "mrcp_header_field_value_parse acc f = Some (b, acc', g)" "accessor_ok acc'"
proof -
  have "\<exists>b acc' g. mrcp_header_field_value_parse acc f = Some (b, acc', g) \<and> accessor_ok acc'"
    using assms by (auto simp: mrcp_header_field_value_parse_def accessor_ok_def Let_def split: option.split prod.split)
  then show ?thesis using that by blast
qed

lemma field_value_parse_ok:
  assumes "accessor_ok (generic_header_accessor h)" "accessor_ok (resource_header_accessor h)"
  obtains b h' g where "field_value_parse h f = Some (b, h', g)" "accessor_ok (generic_header_accessor h')"
    "accessor_ok (resource_header_accessor h')" "header_section h' = header_section h"
proof -
  obtain b r g where 1: "mrcp_header_field_value_parse (resource_header_accessor h) f = Some (b, r, g)" "accessor_ok r"
    by (rule value_parse_ok [OF assms(2)])
  obtain b' a g' where 2: "mrcp_header_field_value_parse (generic_header_accessor h) g = Some (b', a, g')" "accessor_ok a"
    by (rule value_parse_ok [OF assms(1)])
  have "\<exists>b h' g. field_value_parse h f = Some (b, h', g) \<and> accessor_ok (generic_header_accessor h') \<and>
      accessor_ok (resource_header_accessor h') \<and> header_section h' = header_section h"
    using 1 2 assms(1) by (cases b) (auto simp: field_value_parse_def)
  then show ?thesis using that by blast
qed

lemma ring_store_fst [simp]: "fst ` set (hs_ring (ring_store f h)) = fst ` set (hs_ring h)"
proof -
  have "(\<lambda>g. fst (if fst g = fst f then f else g)) = fst" by auto
  then have "map fst (hs_ring (ring_store f h)) = map fst (hs_ring h)" by (simp add: ring_store_def comp_def)
  then show ?thesis by (metis set_map)
qed

lemma field_set_ring [simp]: "hs_ring (snd (apt_header_section_field_set f h)) = hs_ring h"
  by (simp add: apt_header_section_field_set_def Let_def)

lemma fields_parse_ok:
  assumes "set addrs \<subseteq> fst ` set (hs_ring (header_section h))"
    and "accessor_ok (generic_header_accessor h)" "accessor_ok (resource_header_accessor h)"
  shows "\<exists>h'. fields_parse_loop addrs h = Some h' \<and> accessor_ok (generic_header_accessor h') \<and> accessor_ok (resource_header_accessor h')"
  using assms
proof (induction addrs arbitrary: h)
  case (Cons a addrs)
  have "a \<in> fst ` set (hs_ring (header_section h))" using Cons.prems(1) by simp
  then obtain f where f: "map_of (hs_ring (header_section h)) a = Some f" by (metis map_of_eq_None_iff not_None_eq)
  obtain b h1 g where h1: "field_value_parse h f = Some (b, h1, g)" "accessor_ok (generic_header_accessor h1)"
      "accessor_ok (resource_header_accessor h1)" "header_section h1 = header_section h"
    by (rule field_value_parse_ok [OF Cons.prems(2,3)])
  let ?sec = "ring_store (a, g) (header_section h)"
  let ?h2 = "h1\<lparr>header_section := if b then snd (apt_header_section_field_set (a, g) ?sec) else ?sec\<rparr>"
  have "set addrs \<subseteq> fst ` set (hs_ring (header_section ?h2))" using Cons.prems(1) by simp
  moreover have "accessor_ok (generic_header_accessor ?h2)" "accessor_ok (resource_header_accessor ?h2)" using h1 by simp_all
  ultimately have "\<exists>h'. fields_parse_loop addrs ?h2 = Some h' \<and> accessor_ok (generic_header_accessor h') \<and>
      accessor_ok (resource_header_accessor h')"
    by (rule Cons.IH)
  then show ?case using f h1(1,4) by (cases b) (simp_all add: Let_def)
qed simp

lemma header_fields_complete_ok:
  assumes "message_ok m"
  shows "\<exists>valid m' n. header_fields_complete m = Some (valid, m', n) \<and> message_ok m'"
proof -
  have "set (map fst (hs_ring (header_section (header m)))) \<subseteq> fst ` set (hs_ring (header_section (header m)))" by simp
  then obtain h' where "mrcp_header_fields_parse (header m) = Some (True, h')" "accessor_ok (generic_header_accessor h')"
      "accessor_ok (resource_header_accessor h')"
    using fields_parse_ok [of _ "header m"] assms by (fastforce simp: message_ok_def mrcp_header_fields_parse_def)
  then show ?thesis by (auto simp: header_fields_complete_def message_ok_def Let_def)
qed

text \<open>The resources a parser can come across have data for their headers.\<close>

definition resources_allocate :: "('h, 'r mrcp_resource) apr_hash_ops \<Rightarrow> ('h, 'r) mrcp_parser \<Rightarrow> bool" where
  "resources_allocate hash parser \<longleftrightarrow>
     (\<forall>res. parser_resource parser = Some res \<or> (\<exists>name. mrcp_resource_find hash (resource_factory parser) name = Some res) \<longrightarrow>
        (\<forall>v vt. get_resource_header_vtable res v = Some vt \<longrightarrow> allocate vt \<noteq> None))"

lemma resource_set_ok:
  assumes "message_ok m" "\<forall>v vt. get_resource_header_vtable res v = Some vt \<longrightarrow> allocate vt \<noteq> None"
    and "mrcp_message_resource_set apr m (Some res) = (b, m')"
  shows "message_ok m'"
proof -
  let ?h = "snd (mrcp_message_header_data_alloc (Some (mrcp_generic_header_vtable_get apr))
    (get_resource_header_vtable res (version (start_line m))) (header m))"
  have "header m' = ?h"
    using assms(3) by (auto simp: mrcp_message_resource_set_def Let_def split: mrcp_message_type_e.splits)
  moreover have "accessor_ok (generic_header_accessor ?h)" "accessor_ok (resource_header_accessor ?h)"
    using assms(1) spec [OF assms(2), of "version (start_line m)"]
    by (cases "get_resource_header_vtable res (version (start_line m))";
      auto simp: mrcp_message_header_data_alloc_def mrcp_header_allocate_def accessor_ok_def message_ok_def
        mrcp_generic_header_vtable_get_def)+
  ultimately show ?thesis by (simp add: message_ok_def)
qed

lemma message_create_ok [simp]: "message_ok (mrcp_message_create garbage)"
  by (simp add: message_ok_def mrcp_message_create_def mrcp_message_header_init_def mrcp_header_accessor_init_def accessor_ok_def)

lemma mrcp_safe:
  assumes "resources_allocate hash parser"
  shows "message_safe (parser_vtable apr hash garbage parser) message_ok"
proof (unfold_locales, goal_cases)
  case (1 s m s')
  let ?m = "\<lambda>sl. (mrcp_message_create garbage)\<lparr>start_line := sl\<rparr>"
  have ok: "message_ok (?m sl)" "message_ok ((?m sl)\<lparr>channel_id := c\<rparr>)" for sl c
    using message_create_ok [of garbage] by (simp_all add: message_ok_def)
  have "message_ok m'" if "parser_resource parser = Some res" "mrcp_message_resource_set apr ((?m sl)\<lparr>channel_id := c\<rparr>) (Some res) = (b, m')"
    for sl c res b m'
    by (rule resource_set_ok [OF ok(2) _ that(2)]) (use assms that(1) in \<open>auto simp: resources_allocate_def\<close>)
  then show ?case
    using 1 ok(1) by (auto simp: parser_vtable_def mrcp_parser_on_start_def Let_def
      split: bool.splits prod.splits option.splits if_splits)
next
  case (2 m sec)
  then show ?case by (simp add: parser_vtable_def message_ok_def)
next
  case (3 m)
  show ?case
  proof (cases "version (start_line m) = MRCP_VERSION_2")
    case True
    obtain b cid h where c: "mrcp_channel_id_parse (channel_id m) (header m) = (b, cid, h)" by (metis prod_cases3)
    have h: "message_ok (m\<lparr>channel_id := cid, header := h\<rparr>)"
      using c 3 by (auto simp: mrcp_channel_id_parse_def message_ok_def split: option.splits)
    show ?thesis
    proof (cases "b \<and> mrcp_resource_find hash (resource_factory parser) (resource_name cid) \<noteq> None")
      case False
      then show ?thesis
        using True c h by (cases b) (auto simp: parser_vtable_def mrcp_parser_on_header_complete_def Let_def)
    next
      case find: True
      then obtain res where res: "mrcp_resource_find hash (resource_factory parser) (resource_name cid) = Some res" by blast
      obtain b' m' where set: "mrcp_message_resource_set apr (m\<lparr>channel_id := cid, header := h\<rparr>) (Some res) = (b', m')" by fastforce
      have "message_ok m'"
        by (rule resource_set_ok [OF h _ set]) (use assms res in \<open>auto simp: resources_allocate_def\<close>)
      then show ?thesis
        using True c find res set header_fields_complete_ok [of m']
        by (cases b') (auto simp: parser_vtable_def mrcp_parser_on_header_complete_def Let_def)
    qed
  next
    case False
    then show ?thesis
      using header_fields_complete_ok [OF 3] by (simp add: parser_vtable_def mrcp_parser_on_header_complete_def)
  qed
qed

section \<open>The receive loop\<close>

text \<open>The turns of the receive loop from one state to another.\<close>

inductive receive_steps ::
  "apr_fmt \<Rightarrow> ('h, 'r mrcp_resource) apr_hash_ops \<Rightarrow> (nat \<Rightarrow> nat) \<Rightarrow>
   (apt_message_status_e \<Rightarrow> 'r mrcp_message option \<Rightarrow> 'a \<Rightarrow> (bool \<times> 'a) option) \<Rightarrow>
   ('h, 'r, 'a) receive_state \<Rightarrow> ('h, 'r, 'a) receive_state \<Rightarrow> bool"
  for apr hash garbage handler
where
  receive_steps_refl: "receive_steps apr hash garbage handler st st"
| receive_steps_turn:
    "\<lbrakk>receive_step apr hash garbage handler st = Some (True, st1); \<not> apt_text_is_eos (fst (snd st1));
      receive_steps apr hash garbage handler st1 st2\<rbrakk> \<Longrightarrow> receive_steps apr hash garbage handler st st2"

text \<open>The next turn gets to the end of a header that announces too much.\<close>

definition receive_overflows ::
  "apr_fmt \<Rightarrow> ('h, 'r mrcp_resource) apr_hash_ops \<Rightarrow> (nat \<Rightarrow> nat) \<Rightarrow> ('h, 'r, 'a) receive_state \<Rightarrow> bool"
where
  "receive_overflows apr hash garbage st =
     (case st of (parser, s, pool, _) \<Rightarrow>
        overflows (run_announces (parser_vtable apr hash (garbage pool) parser) pool (base parser) s))"

definition parser_inv :: "('h, 'r) mrcp_resource_factory \<Rightarrow> ('h, 'r) mrcp_parser \<Rightarrow> bool" where
  "parser_inv factory parser \<longleftrightarrow>
     resource_factory parser = factory \<and> parser_resource parser = None \<and> receiving parser \<and> parser_kept message_ok (base parser)"

lemma parser_inv_create [simp]: "parser_inv factory (mrcp_parser_create factory)"
  by (simp add: parser_inv_def parser_kept_def mrcp_parser_create_def apt_message_parser_create_def receiving_def)

lemma mrcp_parser_run_safe:
  assumes "ts_whole s" "0 < ts_end s" "parser_inv factory parser" "resources_allocate hash (mrcp_parser_create factory)"
  shows "mrcp_parser_run apr hash g pool parser s = None \<longleftrightarrow> overflows (run_announces (parser_vtable apr hash g parser) pool (base parser) s)"
    and "mrcp_parser_run apr hash g pool parser s = Some (status, m, parser', s', k) \<Longrightarrow> parser_inv factory parser'"
proof -
  let ?vt = "parser_vtable apr hash g parser"
  have "resources_allocate hash parser"
    using assms(3,4) by (simp add: resources_allocate_def parser_inv_def mrcp_parser_create_def)
  note safe = message_safe.parser_run_safe [OF mrcp_safe [OF this] assms(1,2)]
  have p: "parser_ok ?vt (base parser)" "parser_kept message_ok (base parser)"
    using assms(3) by (simp_all add: parser_inv_def parser_ok_def receiving_def parser_vtable_def)
  show "mrcp_parser_run apr hash g pool parser s = None \<longleftrightarrow> overflows (run_announces ?vt pool (base parser) s)"
    using safe(1) [OF p, of pool] by (auto simp: mrcp_parser_run_def split: bind_split)
  assume run: "mrcp_parser_run apr hash g pool parser s = Some (status, m, parser', s', k)"
  then obtain b where b: "apt_message_parser_run ?vt pool (base parser) s = Some (status, m, b, s', k)" "parser' = parser\<lparr>base := b\<rparr>"
    by (auto simp: mrcp_parser_run_def split: bind_splits)
  have "receiving parser'"
    using mrcp_parser_run_reads(1) [OF assms(1) _ run] assms(3) by (simp add: parser_inv_def)
  then show "parser_inv factory parser'"
    using safe(2) [OF p b(1)] assms(3) b(2) by (simp add: parser_inv_def)
qed

lemma receive_loop_safe:
  assumes "ts_whole s" "0 < ts_end s" "parser_inv factory parser" "resources_allocate hash (mrcp_parser_create factory)"
    and handler: "\<And>status m b. handler status m b \<noteq> None"
  shows "(receive_loop apr hash garbage handler (parser, s, pool, agent) = Some None \<longleftrightarrow>
      (\<exists>st. receive_steps apr hash garbage handler (parser, s, pool, agent) st \<and> receive_overflows apr hash garbage st)) \<and>
    (\<forall>ok parser' s' pool' agent'. receive_loop apr hash garbage handler (parser, s, pool, agent) =
      Some (Some (ok, parser', s', pool', agent')) \<longrightarrow> parser_inv factory parser')"
  using assms(1-3)
proof (induction "ts_end s - ts_pos s" arbitrary: s parser pool agent rule: less_induct)
  case less
  let ?loop = "receive_loop apr hash garbage handler" and ?step = "receive_step apr hash garbage handler"
  let ?steps = "receive_steps apr hash garbage handler" and ?st = "(parser, s, pool, agent)"
  note run = mrcp_parser_run_safe [OF less.prems assms(4), of apr "garbage pool" pool]
  have none: "?step ?st = None \<longleftrightarrow> receive_overflows apr hash garbage ?st"
  proof (cases "mrcp_parser_run apr hash (garbage pool) pool parser s")
    case None
    then show ?thesis using run(1) by (simp add: receive_step_def receive_overflows_def)
  next
    case (Some r)
    then show ?thesis
      using run(1) handler [of "fst r" "fst (snd r)" agent]
      by (cases r) (auto simp: receive_step_def receive_overflows_def)
  qed
  show ?case
  proof (cases "?step ?st")
    case None
    then have "?loop ?st = Some None" by (subst receive_loop.simps) simp
    with None none show ?thesis using receive_steps_refl by fastforce
  next
    case (Some r)
    obtain ok parser1 s1 pool1 agent1 where r: "r = (ok, parser1, s1, pool1, agent1)" by (metis prod_cases5)
    have rcv: "receiving parser" using less.prems(3) by (simp add: parser_inv_def)
    note step = receive_step_reads [OF less.prems(1) rcv Some [unfolded r]]
    have inv: "parser_inv factory parser1"
      using Some r run(2) by (auto simp: receive_step_def split: bind_splits)
    have wf: "ts_wf s" using less.prems(1) by (simp add: ts_whole_def)
    note reads = ts_reads_wf [OF wf step(3)]
    have turn: "?steps ?st st \<longleftrightarrow> st = ?st \<or> ok \<and> \<not> apt_text_is_eos s1 \<and> ?steps (parser1, s1, pool1, agent1) st" for st
      using Some r by (subst receive_steps.simps) auto
    show ?thesis
    proof (cases "ok \<and> \<not> apt_text_is_eos s1")
      case False
      then have "?loop ?st = Some (Some (ok, parser1, s1, pool1, agent1))"
        using Some r by (subst receive_loop.simps) auto
      then show ?thesis using turn none Some False inv by auto
    next
      case True
      have loop: "?loop ?st = ?loop (parser1, s1, pool1, agent1)"
        using True Some r by (subst receive_loop.simps) simp
      have "ts_end s1 - ts_pos s1 < ts_end s - ts_pos s"
        using True step(4) reads(3) by (auto simp: apt_text_is_eos_def)
      from less.hyps [OF this step(2) _ inv, of pool1 agent1] less.prems(2) reads
      show ?thesis unfolding loop turn using none Some True by auto
    qed
  qed
qed

section \<open>A connection\<close>

text \<open>
  The states of the receiving side of a connection with a receive buffer of \<open>n\<close> bytes: it starts with an empty buffer and a
  new parser, and goes on with every piece of data that fits into the free part of the buffer.
\<close>

inductive connection_reach ::
  "apr_fmt \<Rightarrow> ('h, 'r mrcp_resource) apr_hash_ops \<Rightarrow> (nat \<Rightarrow> nat) \<Rightarrow>
   (apt_message_status_e \<Rightarrow> 'r mrcp_message option \<Rightarrow> 'a \<Rightarrow> (bool \<times> 'a) option) \<Rightarrow>
   ('h, 'r) mrcp_resource_factory \<Rightarrow> nat \<Rightarrow> ('h, 'r, 'a) receive_state \<Rightarrow> bool"
  for apr hash garbage handler factory n
where
  connection_new:
    "connection_reach apr hash garbage handler factory n
       (mrcp_parser_create factory, apt_text_stream_init mem n, pool, agent)" if "length mem = n + 1"
| connection_data:
    "connection_reach apr hash garbage handler factory n st'"
    if "connection_reach apr hash garbage handler factory n st" "st = (parser, s, pool, agent)" "data \<noteq> []"
      "ts_pos s + length data \<le> n" "connection_receive apr hash garbage handler data st = Some (ok, st')"

lemma rx_filled_end: "rx_ok n s \<Longrightarrow> data \<noteq> [] \<Longrightarrow> 0 < ts_end (rx_filled s data)"
  by (simp add: rx_filled_def apt_text_stream_reset_def)

text \<open>One receive, from a good state.\<close>

lemma connection_receive_safe:
  assumes "rx_ok n s" "parser_inv factory parser" "resources_allocate hash (mrcp_parser_create factory)"
    and data: "data \<noteq> []" "ts_pos s + length data \<le> n" and handler: "\<And>status m b. handler status m b \<noteq> None"
  shows "connection_receive apr hash garbage handler data (parser, s, pool, agent) = None \<longleftrightarrow>
      (\<exists>st. receive_steps apr hash garbage handler (parser, rx_filled s data, pool, agent) st \<and> receive_overflows apr hash garbage st)"
    and "connection_receive apr hash garbage handler data (parser, s, pool, agent) = Some (ok, parser', s', pool', agent') \<Longrightarrow>
      rx_ok n s' \<and> parser_inv factory parser'"
proof -
  let ?loop = "receive_loop apr hash garbage handler (parser, rx_filled s data, pool, agent)"
  have rcv: "receiving parser" using assms(2) by (simp add: parser_inv_def)
  obtain r where r: "?loop = Some r" "case r of None \<Rightarrow> connection_receive apr hash garbage handler data (parser, s, pool, agent) = None
     | Some (ok, parser', t, pool', agent') \<Rightarrow>
         \<exists>s'. connection_receive apr hash garbage handler data (parser, s, pool, agent) = Some (ok, parser', s', pool', agent') \<and>
           rx_ok n s' \<and> receiving parser' \<and> (if ok then ts_written s' = ts_rest t else s' = t)"
    using connection_receive_ends [OF assms(1) data(2) rcv, of apr hash garbage handler pool agent] by blast
  note safe = receive_loop_safe [where handler = handler, OF rx_filled(1) [OF assms(1) data(2)] rx_filled_end [OF assms(1) data(1)] assms(2,3) handler,
      of apr garbage pool agent]
  show "connection_receive apr hash garbage handler data (parser, s, pool, agent) = None \<longleftrightarrow>
      (\<exists>st. receive_steps apr hash garbage handler (parser, rx_filled s data, pool, agent) st \<and> receive_overflows apr hash garbage st)"
    using r safe by (cases r) auto
  show "rx_ok n s' \<and> parser_inv factory parser'"
    if "connection_receive apr hash garbage handler data (parser, s, pool, agent) = Some (ok, parser', s', pool', agent')"
    using that r safe by (cases r) auto
qed

lemma connection_reach_inv:
  assumes "connection_reach apr hash garbage handler factory n st" "resources_allocate hash (mrcp_parser_create factory)"
    and "\<And>status m b. handler status m b \<noteq> None"
  shows "case st of (parser, s, pool, agent) \<Rightarrow> rx_ok n s \<and> parser_inv factory parser"
  using assms(1)
proof induction
  case (connection_new mem pool agent)
  then show ?case by (simp add: rx_ok_def apt_text_stream_init_def apt_text_stream_reset_def)
next
  case (connection_data st parser s pool agent data ok st')
  then show ?case
    using connection_receive_safe(2) [where handler = handler, OF _ _ assms(2) connection_data(3,4) assms(3)] by (cases st') auto
qed

text \<open>The loaded resources have data for their headers.\<close>

lemma loader_allocates:
  assumes "apr_hash_ok hash" "mrcp_resource_loader_create apr fo hash True = Some loader"
  shows "resources_allocate hash (mrcp_parser_create loader)"
proof -
  have "allocate vt \<noteq> None" if "mrcp_resource_find hash loader name = Some res" "get_resource_header_vtable res v = Some vt"
    for name res v vt
    using found_resource [OF assms that(1)] loaded_contract(2) that(2) by metis
  then show ?thesis by (fastforce simp: resources_allocate_def mrcp_parser_create_def)
qed

interpretation loaded_reader: message_safe
  "parser_vtable apr apr_hash_std garbage (mrcp_parser_create (the (mrcp_resource_loader_create apr fo apr_hash_std True)))" message_ok
  for apr garbage fo
  by (rule mrcp_safe, rule loader_allocates [OF apr_hash_std_ok, of apr fo]) (use loader_exists [of apr fo apr_hash_std True] in auto)

section \<open>A negative length\<close>

text \<open>A header whose only field beside the channel is a Content-Length of minus one.\<close>

definition negative_length :: apt_header_field where
  "negative_length = \<lparr>hf_name = ''Content-Length'', hf_value = ''-1'', hf_id = UNKNOWN_HEADER_FIELD_ID\<rparr>"

lemma negative_length_facts:
  "apt_size_value_parse ''-1'' = 2 ^ 64 - 1" "field_ok negative_length"
  "apt_string_table_id_find generic_header_string_table GENERIC_HEADER_COUNT ''Content-Length'' = GENERIC_HEADER_CONTENT_LENGTH"
proof -
  have "dec 1 = ''1''" by code_simp
  then show "apt_size_value_parse ''-1'' = 2 ^ 64 - 1"
    using atol_neg_dec [of 1 "[]"] by (simp add: apt_size_value_parse_def)
  show "field_ok negative_length"
    by (simp add: field_ok_def negative_length_def header_name_ok_def header_value_ok_def apt_text_is_wsp_def)
  show "apt_string_table_id_find generic_header_string_table GENERIC_HEADER_COUNT ''Content-Length'' = GENERIC_HEADER_CONTENT_LENGTH"
    by code_simp
qed

context message_contract
begin

lemma negative_length_parsed:
  fixes apr
  defines "h0 \<equiv> mrcp_message_header_create (Some (mrcp_generic_header_vtable_get apr)) (Some vt)"
  shows "\<exists>h. mrcp_header_fields_parse (h0\<lparr>header_section := (header_section h0)\<lparr>hs_ring := [(a, negative_length)]\<rparr>\<rparr>) = Some (True, h) \<and>
    apt_header_section_field_check (header_section h) GENERIC_HEADER_CONTENT_LENGTH \<and>
    (\<exists>d. acc_data (generic_header_accessor h) = Some d \<and> content_length d = 2 ^ 64 - 1)"
proof -
  let ?h = "h0\<lparr>header_section := (header_section h0)\<lparr>hs_ring := [(a, negative_length)]\<rparr>\<rparr>"
  let ?f = "negative_length\<lparr>hf_id := GENERIC_HEADER_CONTENT_LENGTH\<rparr>"
  have h0: "acc_vtable (resource_header_accessor h0) = Some vt"
      "generic_header_accessor h0 = \<lparr>acc_data = Some mrcp_generic_header_init, acc_vtable = Some (mrcp_generic_header_vtable_get apr)\<rparr>"
      "hs_arr (header_section h0) = replicate (GENERIC_HEADER_COUNT + field_count vt) None"
    by (auto simp: h0_def mrcp_message_header_create_def mrcp_message_header_data_alloc_def mrcp_header_allocate_def
      mrcp_generic_header_vtable_get_def apt_header_section_array_alloc_def GENERIC_HEADER_COUNT_def split: option.split)
  have "apt_string_table_str_get generic_header_string_table GENERIC_HEADER_COUNT GENERIC_HEADER_CONTENT_LENGTH = Some ''Content-Length''"
    by (simp add: apt_string_table_str_get_def generic_header_string_table_def GENERIC_HEADER_COUNT_def GENERIC_HEADER_CONTENT_LENGTH_def)
  from table_withoutD [OF generic_apart _ _ this] names
  have "field_count vt \<le> apt_string_table_id_find (field_table vt) (field_count vt) ''Content-Length''"
    by (simp add: table_names_distinct_def generic_header_string_table_def GENERIC_HEADER_COUNT_def)
  then have res: "mrcp_header_field_value_parse (resource_header_accessor ?h) negative_length =
      Some (False, resource_header_accessor ?h, negative_length)"
    using h0(1) by (simp add: mrcp_header_field_value_parse_def negative_length_def Let_def)
  have less: "GENERIC_HEADER_CONTENT_LENGTH < GENERIC_HEADER_COUNT" by (simp add: GENERIC_HEADER_COUNT_def GENERIC_HEADER_CONTENT_LENGTH_def)
  let ?acc = "\<lparr>acc_data = Some (mrcp_generic_header_init\<lparr>content_length := 2 ^ 64 - 1\<rparr>), acc_vtable = Some (mrcp_generic_header_vtable_get apr)\<rparr>"
  have length_parse: "mrcp_generic_header_parse d GENERIC_HEADER_CONTENT_LENGTH val = (True, d\<lparr>content_length := apt_size_value_parse val\<rparr>)" for d val
    by (simp add: mrcp_generic_header_parse_def GENERIC_HEADER_CONTENT_LENGTH_def)
  have gen: "mrcp_header_field_value_parse (generic_header_accessor ?h) negative_length = Some (True, ?acc, ?f)"
    using less negative_length_facts(1,3) length_parse by (simp add: h0(2) mrcp_header_field_value_parse_def
      mrcp_generic_header_vtable_get_def negative_length_def Let_def)
  have val: "field_value_parse ?h negative_length = Some (True, ?h\<lparr>generic_header_accessor := ?acc\<rparr>, ?f)"
    using res gen by (simp add: field_value_parse_def)
  show ?thesis
    using less h0(3) by (simp add: mrcp_header_fields_parse_def val apt_header_section_field_check_def
      apt_header_section_field_set_def ring_store_def Let_def)
qed

lemma negative_length_fault:
  assumes m: "start_line_ok (start_line m)" "version (start_line m) = MRCP_VERSION_2" "channel_ok (channel_id m)"
      "known_method res 0 (start_line m) \<noteq> None" "get_resource_header_vtable res MRCP_VERSION_2 = Some vt"
      "hs_ring (header_section (header m)) = [(0, negative_length)]"
    and find: "mrcp_resource_find hash (resource_factory parser) (resource_name (channel_id m)) = Some res"
    and s: "ts_whole s" "\<not> is_eos s" "ts_rest s = wire_head m n @ rest" "n < 10 ^ 6"
    and p: "stage (base parser) = APT_MESSAGE_STAGE_START_LINE" "\<not> skip_lf (base parser)"
  shows "mrcp_parser_run apr hash garbage pool parser s = None"
proof -
  let ?g = "mrcp_generic_header_vtable_get apr"
  let ?sl = "received (mrcp_start_line_init garbage) ((start_line m)\<lparr>sl_length := n\<rparr>)"
  let ?h0 = "mrcp_message_header_create (Some ?g) (Some vt)"
  let ?h1 = "mrcp_message_header_init\<lparr>header_section := \<lparr>hs_ring = [(Suc pool, negative_length)], hs_arr = []\<rparr>\<rparr>"
  let ?h2 = "?h0\<lparr>header_section := (header_section ?h0)\<lparr>hs_ring := [(Suc pool, negative_length)]\<rparr>\<rparr>"
  have ok: "\<forall>f \<in> set (wire_ring m). field_ok (snd f)"
    using m(3,6) channel_field_ok negative_length_facts(2) by (auto simp: wire_ring_def)
  note read = wire_head_read [OF s(1-3) m(1,2) s(4) ok]
  define m0 :: "'r mrcp_message" where "m0 = (mrcp_message_create garbage)\<lparr>start_line := ?sl,
    header := mrcp_message_header_init\<lparr>header_section := \<lparr>hs_ring = parsed_ring pool (wire_ring m), hs_arr = []\<rparr>\<rparr>\<rparr>"
  have v: "version ?sl = MRCP_VERSION_2" "message_type ?sl \<noteq> MRCP_MESSAGE_TYPE_UNKNOWN" "method_id ?sl = garbage"
    using m(1,2) by (auto simp: received_simps start_line_ok_def mrcp_start_line_init_def)
  obtain k where k: "known_method res garbage (start_line m) = Some k" using m(4) known_method_any by blast
  let ?m1 = "m0\<lparr>channel_id := channel_id m, header := ?h1\<rparr>"
  have "negative_length\<lparr>hf_id := UNKNOWN_HEADER_FIELD_ID\<rparr> = negative_length" by (simp add: negative_length_def)
  then have "mrcp_channel_id_parse (channel_id m0) (header m0) = (True, channel_id m, ?h1)"
    using channel_id_parsed [of m "header m0" pool] m(3,6) by (simp add: m0_def)
  moreover have "mrcp_message_resource_set apr ?m1 (Some res) =
      (True, ?m1\<lparr>start_line := ?sl\<lparr>method_id := k\<rparr>, resource := Some res, header := ?h2\<rparr>)"
    using resource_set_known [of res ?m1 k vt apr] v k m(5) header_alloc_ring [of ?g vt]
    by (simp add: m0_def known_method_received)
  ultimately have c: "mrcp_parser_on_header_complete apr hash parser m0 =
      header_fields_complete (?m1\<lparr>start_line := ?sl\<lparr>method_id := k\<rparr>, resource := Some res, header := ?h2\<rparr>)"
    using v(1) find by (simp add: mrcp_parser_on_header_complete_def m0_def)
  obtain h d where h: "mrcp_header_fields_parse ?h2 = Some (True, h)" "acc_data (generic_header_accessor h) = Some d"
      "apt_header_section_field_check (header_section h) GENERIC_HEADER_CONTENT_LENGTH" "content_length d = 2 ^ 64 - 1"
    using negative_length_parsed [where apr = apr and a = "Suc pool"] by blast
  obtain m2 where m2: "mrcp_parser_on_header_complete apr hash parser m0 = Some (True, m2, 2 ^ 64 - 1)"
    using h by (auto simp: c header_fields_complete_def mrcp_generic_header_property_check_def mrcp_generic_header_get_def Let_def)
  have test: "apt_crlf_segmentation_test q (s\<lparr>ts_pos := ts_pos s + (length (v2_line (start_line m) n) + 2)\<rparr>) = Some q"
      "apt_crlf_segmentation_test q (s\<lparr>ts_pos := ts_pos s + length (wire_head m n)\<rparr>) = Some q" for q :: "'r mrcp_message apt_message_parser"
    by (rule read(2,4))+
  show ?thesis
    using p read(1) [of apr garbage parser] test read(3) [of pool] m2
    by (simp add: mrcp_parser_run_def apt_message_parser_run_def parser_header_stage_def parser_vtable_def Let_def m0_def
      mrcp_message_create_def mrcp_message_header_init_def)
qed

end

section \<open>Safety of the receiver\<close>



text \<open>
  C14: In every reachable state of a connection the receive buffer has its size and one more cell, the bytes that are left fit into
  it, and whatever the socket puts into the free part, with the terminating zero behind it, is stored inside of the buffer.
\<close>

theorem receive_buffer_bounds:
  assumes "apr_hash_ok hash" "mrcp_resource_loader_create apr fo hash True = Some loader"
    and "connection_reach apr hash garbage handler loader n (parser, s, pool, agent)" "\<And>status m b. handler status m b \<noteq> None"
  shows "ts_buf s = 0 \<and> length (ts_mem s) = n + 1 \<and> ts_pos s \<le> n \<and>
    (\<forall>data. length data \<le> n - (ts_pos s - ts_buf s) \<longrightarrow> ts_put (data @ [APT_NUL]) s \<noteq> None)"
proof -
  have s: "rx_ok n s"
    using connection_reach_inv [where handler = handler, OF assms(3) loader_allocates [OF assms(1,2)] assms(4)] by auto
  have "ts_put (data @ [APT_NUL]) s \<noteq> None" if "length data \<le> n - (ts_pos s - ts_buf s)" for data
  proof -
    have "ts_pos s + length data \<le> n" using that s by (auto simp: rx_ok_def)
    from rx_filled(7) [OF s this] show ?thesis by simp
  qed
  then show ?thesis using s by (simp add: rx_ok_def)
qed

theorem receive_buffer_bounds_witness:
  "\<exists>loader. mrcp_resource_loader_create apr_std float_unit apr_hash_std True = Some loader \<and>
    ts_put (''MRCP/2.0'' @ [APT_NUL]) (apt_text_stream_init (replicate 9 APT_NUL) 8) \<noteq> None"
proof -
  obtain loader where l: "mrcp_resource_loader_create apr_std float_unit apr_hash_std True = Some loader" using loader_exists by blast
  have reach: "connection_reach apr_std apr_hash_std (\<lambda>_. 0) log_handler loader 8
      (mrcp_parser_create loader, apt_text_stream_init (replicate 9 APT_NUL) 8, 0, [])"
    by (rule connection_new) simp
  have total: "\<And>status m b. log_handler status m b \<noteq> None" by (simp add: log_handler_def)
  have "length ''MRCP/2.0'' \<le> 8 - (ts_pos (apt_text_stream_init (replicate 9 APT_NUL) 8) - ts_buf (apt_text_stream_init (replicate 9 APT_NUL) 8))"
    by (simp add: apt_text_stream_init_def apt_text_stream_reset_def)
  with receive_buffer_bounds [OF apr_hash_std_ok l reach total] l show ?thesis by blast
qed

text \<open>
  C8: The loop over the messages in the receive buffer ends, for every content of the buffer and every handler, one that faults
  included: in every turn the parser consumes at least one byte or reaches the end of the stream. Afterwards the stream is
  inside of its window, and unless the handler has asked to stop it has been read to its end.
\<close>

theorem receive_loop_terminates:
  assumes "ts_whole s" "receiving parser"
  shows "\<exists>r. receive_loop apr hash garbage handler (parser, s, pool, agent) = Some r \<and>
    (\<forall>ok parser' s' pool' agent'. r = Some (ok, parser', s', pool', agent') \<longrightarrow>
       ts_whole s' \<and> ts_pos s \<le> ts_pos s' \<and> ts_end s' = ts_end s \<and> ts_mem s' = ts_mem s \<and> (ok \<longrightarrow> apt_text_is_eos s'))"
proof -
  have "ts_wf s" using assms(1) by (simp add: ts_whole_def)
  note frame = ts_reads_wf [OF this]
  show ?thesis
    using receive_loop_ends [OF assms, of apr hash garbage handler pool agent] frame by (metis (no_types, lifting))
qed

theorem receive_loop_terminates_witness:
  "\<exists>loader r. mrcp_resource_loader_create apr_std float_unit apr_hash_std True = Some loader \<and>
    receive_loop apr_std apr_hash_std (\<lambda>_. 0) log_handler
      (mrcp_parser_create loader, apt_text_stream_init ''garbage'' 7, 0, []) = Some r"
proof -
  obtain loader where l: "mrcp_resource_loader_create apr_std float_unit apr_hash_std True = Some loader" using loader_exists by blast
  have "ts_whole (apt_text_stream_init ''garbage'' 7)"
    by (simp add: ts_whole_def ts_wf_def apt_text_stream_init_def apt_text_stream_reset_def)
  from receive_loop_terminates [OF this receiving_create [of loader], of apr_std apr_hash_std "\<lambda>_. 0" log_handler 0 "[]"] l
  show ?thesis by blast
qed

text \<open>
  C26: A request or event of any loaded resource whose header says Content-Length: -1 makes the parser fault as soon as the header is
  complete, whatever follows: the length becomes \<open>2 ^ 64 - 1\<close>, the buffer for the body has no byte and the terminating zero
  is written outside of it.
\<close>

theorem negative_content_length_fault:
  assumes "apr_hash_ok hash" "mrcp_resource_loader_create apr fo hash True = Some (resource_factory parser)"
    and "mrcp_resource_find hash (resource_factory parser) (resource_name (channel_id m)) = Some res"
    and "stage (base parser) = APT_MESSAGE_STAGE_START_LINE" "\<not> skip_lf (base parser)"
    and "start_line_ok (start_line m)" "version (start_line m) = MRCP_VERSION_2" "channel_ok (channel_id m)"
      "known_method res 0 (start_line m) \<noteq> None"
    and "hs_ring (header_section (header m)) = [(0, \<lparr>hf_name = ''Content-Length'', hf_value = ''-1'', hf_id = UNKNOWN_HEADER_FIELD_ID\<rparr>)]"
    and "ts_whole s" "\<not> is_eos s" "ts_rest s = wire_head m n @ rest" "n < 10 ^ 6"
  shows "mrcp_parser_run apr hash garbage pool parser s = None"
proof -
  obtain i where i: "i < 4" "res = loaded_resource apr fo i" by (rule found_resource [OF assms(1-3)])
  obtain vt where vt: "get_resource_header_vtable (loaded_resource apr fo i) MRCP_VERSION_2 = Some vt"
    using i(1) by (auto simp: less_4_cases loaded_resource_def resource_create_defs)
  show ?thesis
    by (rule message_contract.negative_length_fault [OF loaded_contract(1) [OF i(1) vt] assms(6-9) _ _ assms(3,11-14,4,5)])
      (use vt i(2) assms(10) in \<open>simp_all add: negative_length_def\<close>)
qed

definition negative_example :: "unit resource_header mrcp_message" where
  "negative_example = delivery_example\<lparr>header := (header delivery_example)\<lparr>header_section :=
    \<lparr>hs_ring = [(0, \<lparr>hf_name = ''Content-Length'', hf_value = ''-1'', hf_id = UNKNOWN_HEADER_FIELD_ID\<rparr>)], hs_arr = []\<rparr>\<rparr>\<rparr>"

theorem negative_content_length_fault_witness:
  "\<exists>loader. mrcp_resource_loader_create apr_std float_unit apr_hash_std True = Some loader \<and>
    mrcp_parser_run apr_std apr_hash_std 0 0 (mrcp_parser_create loader)
      (apt_text_stream_init (wire_head negative_example 90) (length (wire_head negative_example 90))) = None"
proof -
  obtain loader where l: "mrcp_resource_loader_create apr_std float_unit apr_hash_std True = Some loader" using loader_exists by blast
  let ?parser = "mrcp_parser_create loader" and ?s = "apt_text_stream_init (wire_head negative_example 90) (length (wire_head negative_example 90))"
  have sent: "version (start_line negative_example) = MRCP_VERSION_2" "start_line_ok (start_line negative_example)" "channel_ok (channel_id negative_example)"
      "known_method (loaded_resource apr_std float_unit 1) 0 (start_line negative_example) \<noteq> None"
    using delivery_example_sent by (simp_all add: negative_example_def message_sent_def)
  have find: "mrcp_resource_find apr_hash_std loader (resource_name (channel_id negative_example)) = Some (loaded_resource apr_std float_unit 1)"
    by (simp add: loader_created(3) [OF apr_hash_std_ok l] resource_names_def upt_rec negative_example_def delivery_example_def)
  have s: "ts_whole ?s" "ts_rest ?s = wire_head negative_example 90 @ []" "\<not> is_eos ?s"
    by (simp_all add: ts_whole_def ts_wf_def ts_rest_def apt_text_stream_init_def apt_text_stream_reset_def)
  have "mrcp_parser_run apr_std apr_hash_std 0 0 ?parser ?s = None"
    by (rule negative_content_length_fault [OF apr_hash_std_ok _ _ _ _ sent(2,1,3,4) _ s(1,3,2), where fo = float_unit])
      (use l find in \<open>simp_all add: mrcp_parser_create_def apt_message_parser_create_def negative_example_def\<close>)
  then show ?thesis using l by blast
qed

end
