(* ===== verification/Mrcp_Invalid_Message.thy ===== *)
theory Mrcp_Invalid_Message
  imports Mrcp_Delivery
begin

text \<open>
  What happens after an invalid message. When the handler of a complete header refuses a message, the parser of
  \<open>apt_text_message.c\<close> leaves its stage at the header: the start line of the next message is skipped as a line
  without a colon, and its fields and body are taken for those of the refused message.
\<close>

section \<open>A line that is not a header field\<close>

lemma header_scan_plain:
  "no_eol line \<Longrightarrow> CHR '':'' \<notin> set line \<Longrightarrow>
    header_scan (line @ CRLF @ rest) i (Some k) 0 None = (True, i + length line + 2, Some k, 0, None, 0)"
  by (induction line arbitrary: i) (auto simp: span_end_def Let_def)

lemma plain_line_skipped:
  assumes "ts_rest s = c # line @ CRLF @ rest" "no_eol (c # line)" "CHR '':'' \<notin> set (c # line)" "\<not> apt_text_is_wsp c"
  shows "apt_header_field_parse s = (None, s\<lparr>ts_pos := ts_pos s + (length (c # line) + 2)\<rparr>)"
proof -
  have "header_scan (ts_rest s) 0 None 0 None = (True, length (c # line) + 2, Some 0, 0, None, 0)"
    using assms header_scan_plain [of line rest 1 0] by (auto simp: Let_def)
  then show ?thesis by (simp add: apt_header_field_parse_def apt_text_header_read_def)
qed

lemma section_parse_skips:
  assumes "ts_wf s" "\<not> is_eos s" "ts_rest s = line @ CRLF @ rest" "rest \<noteq> []"
    and "line = c # cs" "no_eol line" "CHR '':'' \<notin> set line" "\<not> apt_text_is_wsp c"
  shows "apt_header_section_parse pool h s = apt_header_section_parse pool h (s\<lparr>ts_pos := ts_pos s + (length line + 2)\<rparr>)"
proof -
  let ?s = "s\<lparr>ts_pos := ts_pos s + (length line + 2)\<rparr>"
  have parse: "apt_header_field_parse s = (None, ?s)"
    using plain_line_skipped [of s c cs rest] assms(3,5-8) by simp
  have "ts_rest ?s = rest" using line_rest [OF assms(1,3)] by simp
  then have "\<not> apt_text_is_eos ?s" using assms(2,4) ts_rest_nonempty [of ?s] by (simp add: apt_text_is_eos_def)
  then show ?thesis by (subst apt_header_section_parse.simps) (simp add: parse)
qed

section \<open>The message after an invalid one\<close>

text \<open>What is left of a message without further fields whose resource is not known.\<close>

definition refused :: "nat \<Rightarrow> 'm mrcp_message \<Rightarrow> nat \<Rightarrow> 'r mrcp_message" where
  "refused garbage m n = (mrcp_message_create garbage)
     \<lparr>start_line := received (mrcp_start_line_init garbage) ((start_line m)\<lparr>sl_length := n\<rparr>), channel_id := channel_id m,
      header := mrcp_message_header_init\<lparr>header_section := apt_header_section_init\<rparr>\<rparr>"

lemma unknown_resource_run:
  assumes "start_line_ok (start_line m)" "version (start_line m) = MRCP_VERSION_2" "channel_ok (channel_id m)"
      "hs_ring (header_section (header m)) = []"
    and find: "mrcp_resource_find hash (resource_factory parser) (resource_name (channel_id m)) = None"
    and s: "ts_whole s" "\<not> is_eos s" "ts_rest s = wire_head m n @ rest" "n < 10 ^ 6"
    and p: "stage (base parser) = APT_MESSAGE_STAGE_START_LINE" "\<not> skip_lf (base parser)"
  shows "mrcp_parser_run apr hash garbage pool parser s =
    Some (APT_MESSAGE_STATUS_INVALID, None,
      parser\<lparr>base := (base parser)\<lparr>context_message := Some (refused garbage m n), stage := APT_MESSAGE_STAGE_HEADER\<rparr>\<rparr>,
      s\<lparr>ts_pos := ts_pos s + length (wire_head m n)\<rparr>, pool + 2)"
proof -
  let ?sl = "received (mrcp_start_line_init garbage) ((start_line m)\<lparr>sl_length := n\<rparr>)"
  have ok: "\<forall>f \<in> set (wire_ring m). field_ok (snd f)"
    using assms(3,4) channel_field_ok by (simp add: wire_ring_def)
  note read = wire_head_read [OF s(1-3) assms(1,2) s(4) ok]
  define m0 :: "'b mrcp_message" where "m0 = (mrcp_message_create garbage)\<lparr>start_line := ?sl,
    header := mrcp_message_header_init\<lparr>header_section := \<lparr>hs_ring = parsed_ring pool (wire_ring m), hs_arr = []\<rparr>\<rparr>\<rparr>"
  have v: "version ?sl = MRCP_VERSION_2" using assms(2) by (simp add: received_simps)
  have "mrcp_channel_id_parse (channel_id m0) (header m0) =
      (True, channel_id m, mrcp_message_header_init\<lparr>header_section := apt_header_section_init\<rparr>)"
    using channel_id_parsed [of m "header m0" pool] assms(3,4) by (simp add: m0_def apt_header_section_init_def)
  then have c: "mrcp_parser_on_header_complete apr hash parser m0 = Some (False, refused garbage m n, 0)"
    using v find by (simp add: mrcp_parser_on_header_complete_def m0_def refused_def mrcp_message_create_def Let_def)
  have ring: "length (wire_ring m) = 1" using assms(4) by (simp add: wire_ring_def)
  have same: "(base parser)\<lparr>skip_lf := False\<rparr> = base parser" using p(2) by simp
  have test: "apt_crlf_segmentation_test q (s\<lparr>ts_pos := ts_pos s + (length (v2_line (start_line m) n) + 2)\<rparr>) = Some q"
      "apt_crlf_segmentation_test q (s\<lparr>ts_pos := ts_pos s + length (wire_head m n)\<rparr>) = Some q" for q :: "'b mrcp_message apt_message_parser"
    by (rule read(2,4))+
  show ?thesis
    using p read(1) [of apr garbage parser] test read(3) [of pool] c ring
    by (simp add: mrcp_parser_run_def apt_message_parser_run_def parser_header_stage_def parser_vtable_def Let_def m0_def same
      mrcp_message_create_def mrcp_message_header_init_def)
qed

lemma v2_line_hd: "\<exists>cs. v2_line sl n = CHR ''M'' # cs"
  by (simp add: v2_line_def version_text_def)

context message_contract
begin

lemma next_message_run:
  assumes m2: "message_sent apr vt wire_ok res (m2\<lparr>start_line := start_line m1\<rparr>)" and alloc: "allocate vt \<noteq> None"
    and line: "start_line_ok (start_line m2)" "version (start_line m2) = MRCP_VERSION_2" "CHR '':'' \<notin> set (v2_line (start_line m2) n2)"
    and find: "mrcp_resource_find hash (resource_factory parser) (resource_name (channel_id m2)) = Some res"
    and s: "ts_whole s" "\<not> is_eos s" "ts_rest s = wire_head m2 n2 @ body m2 @ rest" "n2 < 10 ^ 6" "length (body m2) + 1 < 2 ^ 64"
    and p: "stage (base parser) = APT_MESSAGE_STAGE_HEADER" "\<not> skip_lf (base parser)"
      "context_message (base parser) = Some (refused garbage m1 n1)"
  shows "\<exists>m' parser' pool'. mrcp_parser_run apr hash g2 pool parser s =
      Some (APT_MESSAGE_STATUS_COMPLETE, Some m', parser', s\<lparr>ts_pos := ts_pos s + length (wire_head m2 n2) + length (body m2)\<rparr>, pool') \<and>
    message_received apr vt res garbage n1 (m2\<lparr>start_line := start_line m1\<rparr>) m'"
proof -
  let ?m = "m2\<lparr>start_line := start_line m1\<rparr>" and ?line = "v2_line (start_line m2) n2"
  let ?s1 = "s\<lparr>ts_pos := ts_pos s + (length ?line + 2)\<rparr>" and ?s2 = "s\<lparr>ts_pos := ts_pos s + length (wire_head m2 n2)\<rparr>"
  have ring: "wire_ring ?m = wire_ring m2" by (simp add: wire_ring_def)
  have ok: "\<forall>f \<in> set (wire_ring m2). field_ok (snd f)"
    using m2 channel_field_ok by (auto simp: message_sent_def header_sent_def wire_ring_def)
  note read = wire_head_read [OF s(1,2,3) line(1,2) s(4) ok]
  have wf: "ts_wf s" using s(1) by (simp add: ts_whole_def)
  have rest: "ts_rest s = ?line @ CRLF @ ring_text (wire_ring m2) @ CRLF @ body m2 @ rest" using s(3) by (simp add: wire_head_def)
  obtain cs where hd: "?line = CHR ''M'' # cs" using v2_line_hd by blast
  have skip: "apt_header_section_parse pool h s = apt_header_section_parse pool h ?s1" for pool h
    by (rule section_parse_skips [OF wf s(2) rest _ hd _ line(3)])
      (use no_eol_v2_tail [OF line(1)] in \<open>simp_all add: v2_line_def apt_text_is_wsp_def\<close>)
  have sec: "apt_header_section_parse pool apt_header_section_init s =
      (True, \<lparr>hs_ring = parsed_ring pool (wire_ring m2), hs_arr = []\<rparr>, ?s2, pool + length (wire_ring m2) + 1)"
    unfolding skip by (rule read(3))
  let ?ref = "(refused garbage m1 n1)\<lparr>header := mrcp_message_header_init\<lparr>header_section :=
    \<lparr>hs_ring = parsed_ring pool (wire_ring m2), hs_arr = []\<rparr>\<rparr>\<rparr> :: 'r mrcp_message"
  have find': "mrcp_resource_find hash (resource_factory parser) (resource_name (channel_id ?m)) = Some res" using find by simp
  have m0: "start_line ?ref = received (mrcp_start_line_init garbage) ((start_line ?m)\<lparr>sl_length := n1\<rparr>)"
      "header ?ref = mrcp_message_header_init\<lparr>header_section := \<lparr>hs_ring = parsed_ring pool (wire_ring ?m), hs_arr = []\<rparr>\<rparr>"
      "body ?ref = []"
    by (simp_all add: refused_def ring mrcp_message_create_def)
  obtain m' where m': "mrcp_parser_on_header_complete apr hash parser ?ref = Some (True, m', length (body m2))"
      "body m' = []" "message_received apr vt res garbage n1 ?m (m'\<lparr>body := body m2\<rparr>)"
    using header_completed [OF m2 alloc find' m0] by auto
  have body: "apt_message_body_read (length (body m2)) [] ?s2 =
      Some (True, body m2, ?s2\<lparr>ts_pos := ts_pos ?s2 + length (body m2)\<rparr>)"
    using body_read_part [OF read(5), of "length (body m2)" "[]"] read(6) length_ts_rest_room [OF read(5)] by simp
  have m'': "m'\<lparr>body := body m2\<rparr> = m'" if "body m2 = []" using that m'(2) by (cases m') simp
  have same: "(base parser)\<lparr>skip_lf := False\<rparr> = base parser" using p(2) by simp
  have test: "apt_crlf_segmentation_test q ?s2 = Some q" for q :: "'r mrcp_message apt_message_parser" by (rule read(4))
  have small: "\<not> (length (body m2) + 1) mod 2 ^ 64 \<le> length (body m2)" using s(5) by simp
  have h: "header_section (header (refused garbage m1 n1 :: 'r mrcp_message)) = apt_header_section_init" by (simp add: refused_def)
  have ctx: "(refused garbage m1 n1 :: 'r mrcp_message)\<lparr>header := (header (refused garbage m1 n1))\<lparr>header_section := sec\<rparr>\<rparr> =
      (refused garbage m1 n1)\<lparr>header := mrcp_message_header_init\<lparr>header_section := sec\<rparr>\<rparr>" for sec
    by (simp add: refused_def mrcp_message_header_init_def)
  have "\<exists>parser' pool'. mrcp_parser_run apr hash g2 pool parser s =
      Some (APT_MESSAGE_STATUS_COMPLETE, Some (m'\<lparr>body := body m2\<rparr>), parser',
        s\<lparr>ts_pos := ts_pos s + length (wire_head m2 n2) + length (body m2)\<rparr>, pool')"
    using p sec m'(1) m'' body test small
    by (cases "body m2 = []") (simp_all add: mrcp_parser_run_def apt_message_parser_run_def parser_header_stage_def
      parser_body_stage_def parser_vtable_def Let_def same h ctx)
  then show ?thesis using m'(3) by blast
qed

end

text \<open>
  C27: A message for a resource that is not known is refused, and the message behind it is then delivered as complete with the
  start line of the refused one, that is with its method and request identifier, and with its own channel, fields and body.
\<close>

theorem refused_message_poisons_next:
  assumes "apr_hash_ok hash" "mrcp_resource_loader_create apr fo hash True = Some (resource_factory parser)"
    and "stage (base parser) = APT_MESSAGE_STAGE_START_LINE" "\<not> skip_lf (base parser)"
    and "start_line_ok (start_line m1)" "version (start_line m1) = MRCP_VERSION_2" "channel_ok (channel_id m1)"
      "hs_ring (header_section (header m1)) = []" "n1 < 10 ^ 6"
      "mrcp_resource_find hash (resource_factory parser) (resource_name (channel_id m1)) = None"
    and "mrcp_resource_find hash (resource_factory parser) (resource_name (channel_id m2)) = Some res"
      "message_sent apr vt (resource_wire_ok apr fo (res_id res)) res (m2\<lparr>start_line := start_line m1\<rparr>)"
      "start_line_ok (start_line m2)" "version (start_line m2) = MRCP_VERSION_2" "n2 < 10 ^ 6"
      "CHR '':'' \<notin> set (v2_line (start_line m2) n2)" "length (body m2) + 1 < 2 ^ 64"
    and "ts_whole s" "\<not> is_eos s" "ts_rest s = wire_head m1 n1 @ wire_head m2 n2 @ body m2 @ rest"
  shows "\<exists>parser1 s1 pool1 m' parser2 pool2.
    mrcp_parser_run apr hash garbage pool parser s = Some (APT_MESSAGE_STATUS_INVALID, None, parser1, s1, pool1) \<and>
    mrcp_parser_run apr hash garbage' pool1 parser1 s1 =
      Some (APT_MESSAGE_STATUS_COMPLETE, Some m', parser2, s\<lparr>ts_pos := ts_pos s + (length (ts_rest s) - length rest)\<rparr>, pool2) \<and>
    message_received apr vt res garbage n1 (m2\<lparr>start_line := start_line m1\<rparr>) m'"
proof -
  obtain i where i: "i < 4" "res = loaded_resource apr fo i" by (rule found_resource [OF assms(1,2,11)])
  have "get_resource_header_vtable (loaded_resource apr fo i) MRCP_VERSION_2 = Some vt"
    using assms(12) i(2) by (simp add: message_sent_def)
  note c = loaded_contract [OF i(1) this]
  have sent: "message_sent apr vt (resource_wire_ok apr fo i) res (m2\<lparr>start_line := start_line m1\<rparr>)" using assms(12) i(2) c(3) by simp
  let ?p = "parser\<lparr>base := (base parser)\<lparr>context_message := Some (refused garbage m1 n1), stage := APT_MESSAGE_STAGE_HEADER\<rparr>\<rparr>"
  let ?s = "s\<lparr>ts_pos := ts_pos s + length (wire_head m1 n1)\<rparr>"
  note first = unknown_resource_run [OF assms(5-8,10,18-20,9,3,4)]
  have wf: "ts_wf s" and le: "length (wire_head m1 n1) \<le> length (ts_rest s)" using assms(18,20) by (simp_all add: ts_whole_def)
  have s: "ts_whole ?s" "\<not> is_eos ?s" "ts_rest ?s = wire_head m2 n2 @ body m2 @ rest"
    using assms(18-20) ts_advance [OF wf le] ts_whole_advance [OF assms(18)] le length_ts_rest_room [OF assms(18)] by simp_all
  have p: "mrcp_resource_find hash (resource_factory ?p) (resource_name (channel_id m2)) = Some res"
      "stage (base ?p) = APT_MESSAGE_STAGE_HEADER" "\<not> skip_lf (base ?p)" "context_message (base ?p) = Some (refused garbage m1 n1)"
    using assms(4,11) by simp_all
  have pos: "?s\<lparr>ts_pos := ts_pos ?s + length (wire_head m2 n2) + length (body m2)\<rparr> =
      s\<lparr>ts_pos := ts_pos s + (length (ts_rest s) - length rest)\<rparr>"
    using assms(20) by simp
  show ?thesis
    using message_contract.next_message_run [OF c(1) sent c(2) assms(13,14,16) p(1) s assms(15,17) p(2-4), of garbage' "pool + 2"]
      first [of apr garbage pool] unfolding pos by blast
qed

text \<open>A RECOGNIZE request for an unknown resource, followed by a STOP request, which arrives as RECOGNIZE.\<close>

definition refused_example :: "unit resource_header mrcp_message" where
  "refused_example = delivery_example\<lparr>channel_id := \<lparr>session_id = ''1a'', resource_name = ''speech''\<rparr>,
     header := (header delivery_example)\<lparr>header_section := apt_header_section_init\<rparr>, body := []\<rparr>"

definition stop_example :: "unit resource_header mrcp_message" where
  "stop_example = delivery_example\<lparr>start_line := (start_line delivery_example)\<lparr>method_name := ''STOP'', request_id := 8\<rparr>\<rparr>"

theorem refused_message_poisons_next_witness:
  "\<exists>loader parser1 s1 pool1 m' parser2 s2 pool2.
    mrcp_resource_loader_create apr_std float_unit apr_hash_std True = Some loader \<and>
    mrcp_parser_run apr_std apr_hash_std 0 0 (mrcp_parser_create loader)
      (ts_of (wire_head refused_example 50 @ wire_head stop_example 97 @ body stop_example)) =
      Some (APT_MESSAGE_STATUS_INVALID, None, parser1, s1, pool1) \<and>
    mrcp_parser_run apr_std apr_hash_std 0 pool1 parser1 s1 = Some (APT_MESSAGE_STATUS_COMPLETE, Some m', parser2, s2, pool2) \<and>
    method_name (start_line m') = ''RECOGNIZE'' \<and> body m' = body stop_example"
proof -
  obtain loader where l: "mrcp_resource_loader_create apr_std float_unit apr_hash_std True = Some loader" using loader_exists by blast
  let ?parser = "mrcp_parser_create loader" and ?res = "loaded_resource apr_std float_unit 1"
  let ?s = "ts_of (wire_head refused_example 50 @ wire_head stop_example 97 @ body stop_example)"
  have p: "mrcp_resource_loader_create apr_std float_unit apr_hash_std True = Some (resource_factory ?parser)"
      "stage (base ?parser) = APT_MESSAGE_STAGE_START_LINE" "\<not> skip_lf (base ?parser)"
    using l by (simp_all add: mrcp_parser_create_def apt_message_parser_create_def)
  have find: "mrcp_resource_find apr_hash_std (resource_factory ?parser) (resource_name (channel_id refused_example)) = None"
      "mrcp_resource_find apr_hash_std (resource_factory ?parser) (resource_name (channel_id stop_example)) = Some ?res"
    using l by (simp_all add: mrcp_parser_create_def loader_created(3) [OF apr_hash_std_ok l] resource_names_def upt_rec refused_example_def
      stop_example_def delivery_example_def)
  have "get_resource_header_vtable ?res MRCP_VERSION_2 = Some delivery_vtable"
    using delivery_example_sent by (simp add: message_sent_def)
  then have id: "res_id ?res = 1" using loaded_contract(3) [of 1] by simp
  have eq: "stop_example\<lparr>start_line := start_line refused_example\<rparr> = delivery_example"
    by (simp add: stop_example_def refused_example_def)
  have sent: "message_sent apr_std delivery_vtable (resource_wire_ok apr_std float_unit (res_id ?res)) ?res
      (stop_example\<lparr>start_line := start_line refused_example\<rparr>)"
    using delivery_example_sent id eq by simp
  have lines: "start_line_ok (start_line refused_example)" "version (start_line refused_example) = MRCP_VERSION_2"
      "channel_ok (channel_id refused_example)" "start_line_ok (start_line stop_example)"
      "version (start_line stop_example) = MRCP_VERSION_2" "CHR '':'' \<notin> set (v2_line (start_line stop_example) 97)"
    by code_simp+
  have ring: "hs_ring (header_section (header refused_example)) = []"
    by (simp add: refused_example_def apt_header_section_init_def)
  have s: "ts_whole ?s" "\<not> is_eos ?s"
      "ts_rest ?s = wire_head refused_example 50 @ wire_head stop_example 97 @ body stop_example @ []"
    by (simp_all add: ts_of_def ts_whole_def ts_wf_def ts_rest_def apt_text_stream_init_def apt_text_stream_reset_def)
  have n: "50 < (10 :: nat) ^ 6" "97 < (10 :: nat) ^ 6" "length (body stop_example) + 1 < 2 ^ 64"
    by (simp_all add: stop_example_def delivery_example_def)
  obtain parser1 s1 pool1 m' parser2 pool2 where r:
      "mrcp_parser_run apr_std apr_hash_std 0 0 ?parser ?s = Some (APT_MESSAGE_STATUS_INVALID, None, parser1, s1, pool1)"
      "mrcp_parser_run apr_std apr_hash_std 0 pool1 parser1 s1 =
        Some (APT_MESSAGE_STATUS_COMPLETE, Some m', parser2, ?s\<lparr>ts_pos := ts_pos ?s + (length (ts_rest ?s) - length ([] :: string))\<rparr>, pool2)"
      "message_received apr_std delivery_vtable ?res 0 50 (stop_example\<lparr>start_line := start_line refused_example\<rparr>) m'"
    using refused_message_poisons_next [OF apr_hash_std_ok p lines(1-3) ring n(1) find sent lines(4,5) n(2) lines(6) n(3) s, of 0 0 0] by blast
  have "method_name (start_line m') = ''RECOGNIZE''" "body m' = body stop_example"
    using r(3) unfolding eq by (auto simp: message_received_def delivery_example_def stop_example_def received_def
      mrcp_start_line_init_def)
  with l r(1,2) show ?thesis by blast
qed

end
