(* ===== verification/Apt_Timer_Queue.thy ===== *)
theory Apt_Timer_Queue
  imports Apt_Prelude
begin

text \<open>
  The timers of a task, \<open>libs/apr-toolkit/src/apt_timer_queue.c\<close>: a ring of timers ordered by the time they are scheduled
  at, on a 32-bit clock that is set back to zero from time to time. Timers are objects with addresses; the ring is the list
  of the addresses of the timers that are set. The procedure of a timer may call the operations of the queue again: it is
  a parameter \<open>call\<close> that gets the queue and the world \<open>'w\<close> of the program and returns both.
\<close>

section \<open>Timers and their queue\<close>

record ('p, 'o) apt_timer =
  scheduled_time :: u32
  timer_proc :: "'p option"
  timer_obj :: 'o

record ('p, 'o) apt_timer_queue =
  timer_ring :: "nat list"
  elapsed_time :: u32
  reset :: bool
  timers :: "nat \<Rightarrow> ('p, 'o) apt_timer option"

definition apt_timer_queue_create :: "('p, 'o) apt_timer_queue" where
  "apt_timer_queue_create = \<lparr>timer_ring = [], elapsed_time = 0, reset = False, timers = (\<lambda>_. None)\<rparr>"

definition apt_timer_queue_is_empty :: "('p, 'o) apt_timer_queue \<Rightarrow> bool" where
  "apt_timer_queue_is_empty q \<longleftrightarrow> timer_ring q = []"

text \<open>The address of the new timer is the one the pool gives.\<close>

definition apt_timer_create ::
  "('p, 'o) apt_timer_queue \<Rightarrow> nat \<Rightarrow> 'p option \<Rightarrow> 'o \<Rightarrow> ('p, 'o) apt_timer_queue"
where
  "apt_timer_create q a f ob =
     q\<lparr>timers := (timers q)(a := Some \<lparr>scheduled_time = 0, timer_proc = f, timer_obj = ob\<rparr>)\<rparr>"

text \<open>An assignment to \<open>timer->scheduled_time\<close>.\<close>

definition timer_schedule :: "nat \<Rightarrow> u32 \<Rightarrow> ('p, 'o) apt_timer_queue \<Rightarrow> ('p, 'o) apt_timer_queue option" where
  "timer_schedule a v q = do {
     t \<leftarrow> timers q a;
     Some (q\<lparr>timers := (timers q)(a := Some (t\<lparr>scheduled_time := v\<rparr>))\<rparr>)
   }"

text \<open>The search for the place of a timer goes from the last timer of the ring to the first, the argument is the reversed ring.\<close>

fun insert_from_last :: "(nat \<Rightarrow> ('p, 'o) apt_timer option) \<Rightarrow> nat \<Rightarrow> u32 \<Rightarrow> nat list \<Rightarrow> nat list option" where
  "insert_from_last ts a v [] = Some [a]"
| "insert_from_last ts a v (it # its) = do {
     t \<leftarrow> ts it;
     if scheduled_time t \<le> v then Some (a # it # its)
     else do {
       r \<leftarrow> insert_from_last ts a v its;
       Some (it # r)
     }
   }"

text \<open>To insert a timer that is already in the ring breaks the links of the ring; this is a fault of the model.\<close>

definition apt_timer_insert ::
  "('p, 'o) apt_timer_queue \<Rightarrow> nat \<Rightarrow> (bool \<times> ('p, 'o) apt_timer_queue) option"
where
  "apt_timer_insert q a =
     (if a \<in> set (timer_ring q) then None
      else do {
        t \<leftarrow> timers q a;
        r \<leftarrow> insert_from_last (timers q) a (scheduled_time t) (rev (timer_ring q));
        Some (True, q\<lparr>timer_ring := rev r\<rparr>)
      })"

text \<open>So is removing a timer that is not in the ring.\<close>

definition apt_timer_remove ::
  "('p, 'o) apt_timer_queue \<Rightarrow> nat \<Rightarrow> (bool \<times> ('p, 'o) apt_timer_queue) option"
where
  "apt_timer_remove q a =
     (if a \<notin> set (timer_ring q) then None
      else do {
        q \<leftarrow> timer_schedule a 0 (q\<lparr>timer_ring := remove1 a (timer_ring q)\<rparr>);
        Some (True, if timer_ring q = [] then q\<lparr>elapsed_time := 0, reset := True\<rparr> else q)
      })"

definition apt_timer_set ::
  "('p, 'o) apt_timer_queue \<Rightarrow> nat \<Rightarrow> u32 \<Rightarrow> (bool \<times> ('p, 'o) apt_timer_queue) option"
where
  "apt_timer_set q a timeout = do {
     t \<leftarrow> timers q a;
     if timeout \<le> 0 \<or> timer_proc t = None then Some (False, q)
     else do {
       q \<leftarrow> (if scheduled_time t \<noteq> 0 then do { (_, q) \<leftarrow> apt_timer_remove q a; Some q } else Some q);
       q \<leftarrow> timer_schedule a (elapsed_time q + timeout) q;
       if timer_ring q = [] then Some (True, q\<lparr>timer_ring := timer_ring q @ [a]\<rparr>)
       else apt_timer_insert q a
     }
   }"

definition apt_timer_kill ::
  "('p, 'o) apt_timer_queue \<Rightarrow> nat \<Rightarrow> (bool \<times> ('p, 'o) apt_timer_queue) option"
where
  "apt_timer_kill q a = do {
     t \<leftarrow> timers q a;
     if scheduled_time t = 0 then Some (False, q) else apt_timer_remove q a
   }"

fun reschedule_from_last ::
  "u32 \<Rightarrow> nat list \<Rightarrow> (nat \<Rightarrow> ('p, 'o) apt_timer option) \<Rightarrow> (nat \<Rightarrow> ('p, 'o) apt_timer option) option"
where
  "reschedule_from_last e [] ts = Some ts"
| "reschedule_from_last e (it # its) ts = do {
     t \<leftarrow> ts it;
     reschedule_from_last e its (ts(it := Some (t\<lparr>scheduled_time := scheduled_time t - e\<rparr>)))
   }"

definition apt_timers_reschedule :: "('p, 'o) apt_timer_queue \<Rightarrow> ('p, 'o) apt_timer_queue option" where
  "apt_timers_reschedule q = do {
     ts \<leftarrow> reschedule_from_last (elapsed_time q) (rev (timer_ring q)) (timers q);
     Some (q\<lparr>timers := ts, elapsed_time := 0\<rparr>)
   }"

text \<open>The timeout of the first timer, if there is one.\<close>

definition apt_timer_queue_timeout_get :: "('p, 'o) apt_timer_queue \<Rightarrow> (u32 option \<times> ('p, 'o) apt_timer_queue) option" where
  "apt_timer_queue_timeout_get q =
     (let q = (if reset q then q\<lparr>reset := False\<rparr> else q)
      in case timer_ring q of [] \<Rightarrow> Some (None, q)
         | a # _ \<Rightarrow> do {
             t \<leftarrow> timers q a;
             Some (Some (scheduled_time t - elapsed_time q), q)
           })"

text \<open>One turn of the loop over the elapsed timers; the first result says whether there is another one.\<close>

definition advance_step ::
  "('p \<Rightarrow> nat \<Rightarrow> 'o \<Rightarrow> ('p, 'o) apt_timer_queue \<times> 'w \<Rightarrow> (('p, 'o) apt_timer_queue \<times> 'w) option) \<Rightarrow>
   ('p, 'o) apt_timer_queue \<times> 'w \<Rightarrow> (bool \<times> ('p, 'o) apt_timer_queue \<times> 'w) option"
where
  "advance_step call st =
     (case st of (q, w) \<Rightarrow>
        (case timer_ring q of [] \<Rightarrow> None
         | a # ring \<Rightarrow> do {
            t \<leftarrow> timers q a;
            if scheduled_time t > elapsed_time q then Some (False, q, w)
            else do {
              q \<leftarrow> timer_schedule a 0 (q\<lparr>timer_ring := ring\<rparr>);
              f \<leftarrow> timer_proc t;
              (q, w) \<leftarrow> call f a (timer_obj t) (q, w);
              Some (timer_ring q \<noteq> [], q, w)
            }
          }))"

text \<open>The loop: \<^const>\<open>None\<close> if it does not end, \<^term>\<open>Some None\<close> if it faults.\<close>

partial_function (option) advance_loop ::
  "('p \<Rightarrow> nat \<Rightarrow> 'o \<Rightarrow> ('p, 'o) apt_timer_queue \<times> 'w \<Rightarrow> (('p, 'o) apt_timer_queue \<times> 'w) option) \<Rightarrow>
   ('p, 'o) apt_timer_queue \<times> 'w \<Rightarrow> (('p, 'o) apt_timer_queue \<times> 'w) option option"
where
  "advance_loop call st =
     (case advance_step call st of None \<Rightarrow> Some None
      | Some (again, st') \<Rightarrow> if again then advance_loop call st' else Some (Some st'))"

definition apt_timer_queue_advance ::
  "('p \<Rightarrow> nat \<Rightarrow> 'o \<Rightarrow> ('p, 'o) apt_timer_queue \<times> 'w \<Rightarrow> (('p, 'o) apt_timer_queue \<times> 'w) option) \<Rightarrow> u32 \<Rightarrow>
   ('p, 'o) apt_timer_queue \<times> 'w \<Rightarrow> (('p, 'o) apt_timer_queue \<times> 'w) option option"
where
  "apt_timer_queue_advance call elapsed st =
     (case st of (q, w) \<Rightarrow>
        if timer_ring q = [] then Some (Some (q, w))
        else if reset q then Some (Some (q, w))
        else
          (let q = q\<lparr>elapsed_time := elapsed_time q + elapsed\<rparr>
           in case (if 0xFFFF \<le> elapsed_time q then apt_timers_reschedule q else Some q) of
                None \<Rightarrow> Some None
              | Some q \<Rightarrow> advance_loop call (q, w)))"

section \<open>The order of the ring\<close>

definition time_of :: "('p, 'o) apt_timer_queue \<Rightarrow> nat \<Rightarrow> nat" where
  "time_of q a = (case timers q a of None \<Rightarrow> 0 | Some t \<Rightarrow> unat (scheduled_time t))"

text \<open>The timers of the ring can be called, they are ordered by time, and a timer has a time exactly when it is in the ring.\<close>

definition ring_ok :: "('p, 'o) apt_timer_queue \<Rightarrow> bool" where
  "ring_ok q \<longleftrightarrow> distinct (timer_ring q) \<and> sorted (map (time_of q) (timer_ring q)) \<and> unat (elapsed_time q) < 0xFFFF \<and>
     (\<forall>a \<in> set (timer_ring q). \<exists>t f. timers q a = Some t \<and> timer_proc t = Some f)"

definition armed :: "('p, 'o) apt_timer_queue \<Rightarrow> bool" where
  "armed q \<longleftrightarrow> (\<forall>a. a \<in> set (timer_ring q) \<longleftrightarrow> 0 < time_of q a)"

definition tq_wf :: "('p, 'o) apt_timer_queue \<Rightarrow> bool" where
  "tq_wf q \<longleftrightarrow> ring_ok q \<and> armed q \<and> (\<forall>a \<in> set (timer_ring q). unat (elapsed_time q) < time_of q a)"

text \<open>The time a timer has left.\<close>

definition remaining :: "('p, 'o) apt_timer_queue \<Rightarrow> nat \<Rightarrow> nat option" where
  "remaining q a = (if a \<in> set (timer_ring q) then Some (time_of q a - unat (elapsed_time q)) else None)"

text \<open>Inserting into an ordered ring: behind all timers that are not later.\<close>

lemma insert_from_last_split:
  assumes "\<forall>b \<in> set xs. ts b \<noteq> None"
  shows "\<exists>as bs. xs = as @ bs \<and> insert_from_last ts a v xs = Some (as @ a # bs) \<and>
    (\<forall>b \<in> set as. \<forall>t. ts b = Some t \<longrightarrow> v < scheduled_time t) \<and> (bs \<noteq> [] \<longrightarrow> (\<forall>t. ts (hd bs) = Some t \<longrightarrow> scheduled_time t \<le> v))"
  using assms
proof (induction xs)
  case (Cons x xs)
  then obtain t where t: "ts x = Some t" by auto
  show ?case
  proof (cases "scheduled_time t \<le> v")
    case True
    then show ?thesis using t by (intro exI [of _ "[]"] exI [of _ "x # xs"]) simp
  next
    case False
    obtain as bs where "xs = as @ bs" "insert_from_last ts a v xs = Some (as @ a # bs)"
      "\<forall>b \<in> set as. \<forall>t. ts b = Some t \<longrightarrow> v < scheduled_time t" "bs \<noteq> [] \<longrightarrow> (\<forall>t. ts (hd bs) = Some t \<longrightarrow> scheduled_time t \<le> v)"
      using Cons by auto
    then show ?thesis using t False by (intro exI [of _ "x # as"] exI [of _ bs]) auto
  qed
qed auto

lemma timer_insert_split:
  assumes "\<forall>b \<in> set (timer_ring q). timers q b \<noteq> None" "sorted (map (time_of q) (timer_ring q))"
    "timers q a = Some t" "a \<notin> set (timer_ring q)"
  obtains xs ys where "timer_ring q = xs @ ys" "apt_timer_insert q a = Some (True, q\<lparr>timer_ring := xs @ a # ys\<rparr>)"
    "\<forall>b \<in> set xs. time_of q b \<le> time_of q a" "\<forall>b \<in> set ys. time_of q a < time_of q b"
proof -
  obtain as bs where s: "rev (timer_ring q) = as @ bs"
    "insert_from_last (timers q) a (scheduled_time t) (rev (timer_ring q)) = Some (as @ a # bs)"
    "\<forall>b \<in> set as. \<forall>u. timers q b = Some u \<longrightarrow> scheduled_time t < scheduled_time u"
    "bs \<noteq> [] \<longrightarrow> (\<forall>u. timers q (hd bs) = Some u \<longrightarrow> scheduled_time u \<le> scheduled_time t)"
    using insert_from_last_split [of "rev (timer_ring q)" "timers q" a "scheduled_time t"] assms(1) unfolding set_rev by blast
  have ring: "timer_ring q = rev bs @ rev as" using s(1) by (metis rev_append rev_rev_ident)
  have "\<forall>b \<in> set as. time_of q a < time_of q b"
  proof
    fix b assume b: "b \<in> set as"
    then obtain u where "timers q b = Some u" using assms(1) ring by auto
    then show "time_of q a < time_of q b" using s(3) b assms(3) by (auto simp: time_of_def word_less_nat_alt)
  qed
  moreover have "\<forall>b \<in> set bs. time_of q b \<le> time_of q a"
  proof (cases bs)
    case (Cons c cs)
    then obtain u where "timers q c = Some u" using assms(1) ring by auto
    then have "time_of q c \<le> time_of q a" using s(4) Cons assms(3) by (auto simp: time_of_def word_le_nat_alt)
    moreover have "\<forall>b \<in> set cs. time_of q b \<le> time_of q c"
      using assms(2) ring Cons by (auto simp: sorted_append)
    ultimately show ?thesis using Cons by auto
  qed simp
  moreover have "apt_timer_insert q a = Some (True, q\<lparr>timer_ring := rev bs @ a # rev as\<rparr>)"
    using s(2) assms(3,4) by (simp add: apt_timer_insert_def)
  ultimately show ?thesis using that [of "rev bs" "rev as"] ring by auto
qed

section \<open>Setting and killing timers\<close>

lemma time_of_simps [simp]:
  "time_of (q\<lparr>timer_ring := r\<rparr>) = time_of q" "time_of (q\<lparr>elapsed_time := e\<rparr>) = time_of q" "time_of (q\<lparr>reset := x\<rparr>) = time_of q"
  by (simp_all add: time_of_def [abs_def])

lemma time_of_put [simp]:
  "time_of (q\<lparr>timers := (timers q)(a := Some (t\<lparr>scheduled_time := v\<rparr>))\<rparr>) = (time_of q)(a := unat v)"
  by (auto simp: time_of_def)

text \<open>The number of timers that have elapsed.\<close>

definition due :: "('p, 'o) apt_timer_queue \<Rightarrow> nat" where
  "due q = card {a \<in> set (timer_ring q). time_of q a \<le> unat (elapsed_time q)}"

lemma sorted_map_remove1:
  "sorted (map f xs) \<Longrightarrow> sorted (map f (remove1 a xs))"
  by (induction xs) (auto dest: notin_set_remove1)

lemma map_fun_upd_notin:
  "a \<notin> set xs \<Longrightarrow> map (f(a := v)) xs = map f xs"
  by (induction xs) auto

lemma timer_removed:
  assumes "ring_ok q" "armed q" "a \<in> set (timer_ring q)"
  obtains q' t f where "apt_timer_remove q a = Some (True, q')" "ring_ok q'" "armed q'" "timer_ring q' = remove1 a (timer_ring q)"
    "a \<notin> set (timer_ring q')" "timers q' a = Some t" "timer_proc t = Some f" "scheduled_time t = 0" "due q' \<le> due q"
    "dom (timers q') = dom (timers q)" "timer_ring q' = [] \<longrightarrow> reset q'" "reset q \<longrightarrow> reset q'"
proof -
  obtain t f where t: "timers q a = Some t" "timer_proc t = Some f" using assms(1,3) by (auto simp: ring_ok_def)
  let ?r = "remove1 a (timer_ring q)"
  let ?p = "q\<lparr>timer_ring := ?r, timers := (timers q)(a := Some (t\<lparr>scheduled_time := 0\<rparr>))\<rparr>"
  let ?q = "if ?r = [] then ?p\<lparr>elapsed_time := 0, reset := True\<rparr> else ?p"
  have d: "distinct (timer_ring q)" and s: "sorted (map (time_of q) ?r)"
    using assms(1) by (auto simp: ring_ok_def sorted_map_remove1)
  have n: "a \<notin> set ?r" using d by simp
  have time: "time_of ?p = (time_of q)(a := 0)" by (auto simp: time_of_def)
  have time': "time_of ?q = (time_of q)(a := 0)" using time by (auto simp: time_of_def)
  have ring: "timer_ring ?q = ?r" by simp
  have ok: "ring_ok ?q"
    using assms(1) n d s unfolding ring_ok_def time' ring by (auto simp: map_fun_upd_notin)
  have arm: "armed ?q"
    using assms(2) d unfolding armed_def time' ring by auto
  have less: "due ?q \<le> due q"
  proof (cases "?r = []")
    case True
    then show ?thesis by (simp add: due_def)
  next
    case False
    then have "{b \<in> set ?r. time_of ?q b \<le> unat (elapsed_time ?q)} \<subseteq> {b \<in> set (timer_ring q). time_of q b \<le> unat (elapsed_time q)}"
      using n notin_set_remove1 unfolding time' by (auto split: if_splits)
    then show ?thesis unfolding due_def ring by (intro card_mono) auto
  qed
  have rem: "apt_timer_remove q a = Some (True, ?q)"
    using assms(3) t by (simp add: apt_timer_remove_def timer_schedule_def)
  show ?thesis
    by (rule that [OF rem ok arm ring _ _ _ _ less, of "t\<lparr>scheduled_time := 0\<rparr>" f]) (use n t in auto)
qed

text \<open>The ring with a timer put at its place.\<close>

definition placed ::
  "('p, 'o) apt_timer_queue \<Rightarrow> nat \<Rightarrow> ('p, 'o) apt_timer \<Rightarrow> u32 \<Rightarrow> nat list \<Rightarrow> nat list \<Rightarrow> ('p, 'o) apt_timer_queue"
where
  "placed q a t v xs ys = q\<lparr>timers := (timers q)(a := Some (t\<lparr>scheduled_time := v\<rparr>)), timer_ring := xs @ a # ys\<rparr>"

lemma placed_fields [simp]:
  "timer_ring (placed q a t v xs ys) = xs @ a # ys" "elapsed_time (placed q a t v xs ys) = elapsed_time q"
  "reset (placed q a t v xs ys) = reset q" "timers (placed q a t v xs ys) = (timers q)(a := Some (t\<lparr>scheduled_time := v\<rparr>))"
  "time_of (placed q a t v xs ys) = (time_of q)(a := unat v)"
  by (auto simp: placed_def time_of_def)

lemma placed_ok:
  assumes "ring_ok q" "timer_ring q = xs @ ys" "a \<notin> set (timer_ring q)" "timer_proc t = Some f"
    "\<forall>b \<in> set xs. time_of q b \<le> unat v" "\<forall>b \<in> set ys. unat v < time_of q b"
  shows "ring_ok (placed q a t v xs ys)"
  using assms unfolding ring_ok_def by (fastforce simp: sorted_append map_fun_upd_notin)

lemma timer_set_free:
  assumes "ring_ok q" "a \<notin> set (timer_ring q)" "timers q a = Some t" "timer_proc t = Some f" "scheduled_time t = 0"
    and "0 < timeout" "unat timeout < 2 ^ 32 - 0xFFFF"
  obtains xs ys where "timer_ring q = xs @ ys"
    "apt_timer_set q a timeout = Some (True, placed q a t (elapsed_time q + timeout) xs ys)"
    "\<forall>b \<in> set xs. time_of q b \<le> unat (elapsed_time q + timeout)" "\<forall>b \<in> set ys. unat (elapsed_time q + timeout) < time_of q b"
    "unat (elapsed_time q + timeout) = unat (elapsed_time q) + unat timeout"
proof -
  let ?v = "elapsed_time q + timeout"
  let ?q = "q\<lparr>timers := (timers q)(a := Some (t\<lparr>scheduled_time := ?v\<rparr>))\<rparr>"
  have v: "unat ?v = unat (elapsed_time q) + unat timeout"
    using assms(1,7) unat_add_lem [of "elapsed_time q" timeout] by (simp add: ring_ok_def)
  have "\<not> timeout \<le> 0" using assms(6) by (simp add: word_le_nat_alt word_less_nat_alt)
  then have set: "apt_timer_set q a timeout = (if timer_ring q = [] then Some (True, ?q\<lparr>timer_ring := [a]\<rparr>) else apt_timer_insert ?q a)"
    using assms(3-5) by (simp add: apt_timer_set_def timer_schedule_def)
  have "\<forall>b \<in> set (timer_ring ?q). timers ?q b \<noteq> None" using assms(1) by (auto simp: ring_ok_def)
  moreover have "sorted (map (time_of ?q) (timer_ring ?q))" using assms(1,2) by (simp add: ring_ok_def map_fun_upd_notin)
  moreover have "timers ?q a = Some (t\<lparr>scheduled_time := ?v\<rparr>)" "a \<notin> set (timer_ring ?q)" using assms(2) by simp_all
  ultimately obtain xs ys where "timer_ring ?q = xs @ ys" "apt_timer_insert ?q a = Some (True, ?q\<lparr>timer_ring := xs @ a # ys\<rparr>)"
    "\<forall>b \<in> set xs. time_of ?q b \<le> time_of ?q a" "\<forall>b \<in> set ys. time_of ?q a < time_of ?q b"
    by (rule timer_insert_split)
  moreover from this assms(2) have "\<forall>b \<in> set xs \<union> set ys. time_of ?q b = time_of q b" by auto
  ultimately show ?thesis using that [of xs ys] set v by (auto simp: placed_def)
qed

text \<open>What every operation on a timer keeps: the order, the times, and that no further timer has elapsed.\<close>

definition tq_step :: "('p, 'o) apt_timer_queue \<Rightarrow> ('p, 'o) apt_timer_queue \<Rightarrow> bool" where
  "tq_step q q' \<longleftrightarrow> ring_ok q' \<and> armed q' \<and> due q' \<le> due q \<and> (reset q \<longrightarrow> reset q')"

lemma timer_placed:
  assumes "ring_ok q" "armed q" "a \<notin> set (timer_ring q)" "timers q a = Some t" "timer_proc t = Some f" "scheduled_time t = 0"
    and "0 < timeout" "unat timeout < 2 ^ 32 - 0xFFFF"
  shows "\<exists>q'. apt_timer_set q a timeout = Some (True, q') \<and> tq_step q q'"
proof -
  let ?v = "elapsed_time q + timeout"
  obtain xs ys where r: "timer_ring q = xs @ ys" "apt_timer_set q a timeout = Some (True, placed q a t ?v xs ys)"
    "\<forall>b \<in> set xs. time_of q b \<le> unat ?v" "\<forall>b \<in> set ys. unat ?v < time_of q b" "unat ?v = unat (elapsed_time q) + unat timeout"
    by (rule timer_set_free [OF assms(1,3-8)])
  let ?q = "placed q a t ?v xs ys"
  have pos: "0 < unat timeout" using assms(7) by (simp add: word_less_nat_alt)
  have n: "a \<notin> set xs" "a \<notin> set ys" using assms(3) r(1) by auto
  have "ring_ok ?q" by (rule placed_ok [OF assms(1) r(1) assms(3,5) r(3,4)])
  moreover have "armed ?q" using assms(2) pos r(1,5) unfolding armed_def by auto
  moreover have "{b \<in> set (timer_ring ?q). time_of ?q b \<le> unat (elapsed_time ?q)} = {b \<in> set (timer_ring q). time_of q b \<le> unat (elapsed_time q)}"
    using n pos r(1,5) by auto
  ultimately show ?thesis using r(2) by (simp add: tq_step_def due_def)
qed

lemma timer_set_step:
  assumes "ring_ok q" "armed q" "timers q a \<noteq> None" "unat timeout < 2 ^ 32 - 0xFFFF"
  shows "\<exists>b q'. apt_timer_set q a timeout = Some (b, q') \<and> tq_step q q'"
proof -
  obtain t where t: "timers q a = Some t" using assms(3) by auto
  have zero: "timeout \<le> 0 \<longleftrightarrow> \<not> 0 < timeout" by (simp add: word_le_nat_alt word_less_nat_alt)
  have mem: "scheduled_time t = 0 \<longleftrightarrow> a \<notin> set (timer_ring q)"
    using assms(2) t by (auto simp: armed_def time_of_def unat_gt_0)
  consider "timeout \<le> 0 \<or> timer_proc t = None" | f where "0 < timeout" "timer_proc t = Some f" "scheduled_time t = 0"
    | f where "0 < timeout" "timer_proc t = Some f" "scheduled_time t \<noteq> 0" using zero by (cases "timer_proc t") auto
  then show ?thesis
  proof cases
    case 1
    then have "apt_timer_set q a timeout = Some (False, q)" using t by (auto simp: apt_timer_set_def)
    then show ?thesis using assms(1,2) by (auto simp: tq_step_def)
  next
    case 2
    then show ?thesis using timer_placed [OF assms(1,2) _ t _ _ _ assms(4)] mem by auto
  next
    case 3
    then have "a \<in> set (timer_ring q)" using mem by auto
    then obtain p u f' where p: "apt_timer_remove q a = Some (True, p)" "ring_ok p" "armed p" "a \<notin> set (timer_ring p)"
      "timers p a = Some u" "timer_proc u = Some f'" "scheduled_time u = 0" "due p \<le> due q" "reset q \<longrightarrow> reset p"
      by (rule timer_removed [OF assms(1,2)]) blast
    have "apt_timer_set q a timeout = apt_timer_set p a timeout"
      using t p 3 zero by (simp add: apt_timer_set_def)
    then show ?thesis using timer_placed [OF p(2-7) 3(1) assms(4)] p(8,9) by (force simp: tq_step_def)
  qed
qed

lemma timer_kill_step:
  assumes "ring_ok q" "armed q" "timers q a \<noteq> None"
  shows "\<exists>b q'. apt_timer_kill q a = Some (b, q') \<and> tq_step q q'"
proof -
  obtain t where t: "timers q a = Some t" using assms(3) by auto
  have mem: "scheduled_time t = 0 \<longleftrightarrow> a \<notin> set (timer_ring q)"
    using assms(2) t by (auto simp: armed_def time_of_def unat_gt_0)
  show ?thesis
  proof (cases "scheduled_time t = 0")
    case True
    then show ?thesis using t assms(1,2) by (auto simp: apt_timer_kill_def tq_step_def)
  next
    case False
    then have "a \<in> set (timer_ring q)" using mem by simp
    then obtain p where "apt_timer_remove q a = Some (True, p)" "ring_ok p" "armed p" "due p \<le> due q" "reset q \<longrightarrow> reset p"
      by (rule timer_removed [OF assms(1,2)]) blast
    then show ?thesis using t False by (auto simp: apt_timer_kill_def tq_step_def)
  qed
qed

lemma timer_create_step:
  assumes "ring_ok q" "armed q" "timers q a = None"
  shows "tq_step q (apt_timer_create q a f ob)"
proof -
  have time: "time_of (apt_timer_create q a f ob) = time_of q"
    using assms(3) by (auto simp: apt_timer_create_def time_of_def)
  have "a \<notin> set (timer_ring q)" using assms(1,3) by (auto simp: ring_ok_def)
  then show ?thesis
    using assms unfolding tq_step_def ring_ok_def armed_def due_def time by (auto simp: apt_timer_create_def)
qed

section \<open>Procedures of timers\<close>

text \<open>
  What a procedure may do to the queue: create, set and kill timers, with timeouts that do not overrun the clock (49 days, less
  a minute).
\<close>

inductive timer_calls :: "('p, 'o) apt_timer_queue \<Rightarrow> ('p, 'o) apt_timer_queue \<Rightarrow> bool" where
  calls_none: "timer_calls q q"
| calls_create: "timer_calls q q1 \<Longrightarrow> timers q1 a = None \<Longrightarrow> timer_calls q (apt_timer_create q1 a f ob)"
| calls_set: "timer_calls q q1 \<Longrightarrow> unat timeout < 2 ^ 32 - 0xFFFF \<Longrightarrow> apt_timer_set q1 a timeout = Some (b, q2) \<Longrightarrow> timer_calls q q2"
| calls_kill: "timer_calls q q1 \<Longrightarrow> apt_timer_kill q1 a = Some (b, q2) \<Longrightarrow> timer_calls q q2"

definition procs_ok ::
  "('p \<Rightarrow> nat \<Rightarrow> 'o \<Rightarrow> ('p, 'o) apt_timer_queue \<times> 'w \<Rightarrow> (('p, 'o) apt_timer_queue \<times> 'w) option) \<Rightarrow> bool"
where
  "procs_ok call \<longleftrightarrow> (\<forall>f a ob q w. ring_ok q \<longrightarrow> armed q \<longrightarrow> timers q a \<noteq> None \<longrightarrow>
     (\<exists>q' w'. call f a ob (q, w) = Some (q', w') \<and> timer_calls q q'))"

lemma tq_step_trans: "tq_step q q1 \<Longrightarrow> tq_step q1 q2 \<Longrightarrow> tq_step q q2"
  by (auto simp: tq_step_def)

lemma set_timers: "apt_timer_set q a n = Some r \<Longrightarrow> timers q a \<noteq> None"
  by (auto simp: apt_timer_set_def elim: bind_eq_SomeE)

lemma kill_timers: "apt_timer_kill q a = Some r \<Longrightarrow> timers q a \<noteq> None"
  by (auto simp: apt_timer_kill_def elim: bind_eq_SomeE)

lemma timer_calls_step:
  assumes "timer_calls q q'" "ring_ok q" "armed q"
  shows "tq_step q q'"
  using assms
proof induction
  case (calls_none q)
  then show ?case by (simp add: tq_step_def)
next
  case (calls_create q q1 a f ob)
  then have s: "tq_step q q1" by simp
  then show ?case using timer_create_step [of q1 a f ob] calls_create.hyps(2) tq_step_trans [OF s] by (simp add: tq_step_def)
next
  case (calls_set q q1 timeout a b q2)
  then have s: "tq_step q q1" by simp
  then show ?case
    using timer_set_step [OF _ _ set_timers [OF calls_set.hyps(3)] calls_set.hyps(2)] calls_set.hyps(3) tq_step_trans [OF s]
    by (auto simp: tq_step_def)
next
  case (calls_kill q q1 a b q2)
  then have s: "tq_step q q1" by simp
  then show ?case
    using timer_kill_step [OF _ _ kill_timers [OF calls_kill.hyps(2)]] calls_kill.hyps(2) tq_step_trans [OF s]
    by (auto simp: tq_step_def)
qed

section \<open>Advancing the clock\<close>

text \<open>Taking the first timer out of the ring.\<close>

definition first_removed :: "('p, 'o) apt_timer_queue \<Rightarrow> nat \<Rightarrow> nat list \<Rightarrow> ('p, 'o) apt_timer \<Rightarrow> ('p, 'o) apt_timer_queue" where
  "first_removed q a r t = q\<lparr>timer_ring := r, timers := (timers q)(a := Some (t\<lparr>scheduled_time := 0\<rparr>))\<rparr>"

lemma time_of_first_removed [simp]: "time_of (first_removed q a r t) = (time_of q)(a := 0)"
  by (auto simp: first_removed_def time_of_def)

lemma first_removed_fields [simp]:
  "timer_ring (first_removed q a r t) = r" "elapsed_time (first_removed q a r t) = elapsed_time q"
  "reset (first_removed q a r t) = reset q" "timers (first_removed q a r t) a = Some (t\<lparr>scheduled_time := 0\<rparr>)"
  "b \<noteq> a \<Longrightarrow> timers (first_removed q a r t) b = timers q b"
  by (simp_all add: first_removed_def)

lemma first_removed_ok:
  assumes "ring_ok q" "timer_ring q = a # r"
  shows "ring_ok (first_removed q a r t)"
proof -
  have "a \<notin> set r" using assms by (auto simp: ring_ok_def)
  then have "\<forall>b \<in> set r. timers (first_removed q a r t) b = timers q b" by (metis first_removed_fields(5))
  then show ?thesis using assms \<open>a \<notin> set r\<close> unfolding ring_ok_def by (simp add: map_fun_upd_notin)
qed

lemma first_removed_armed:
  assumes "ring_ok q" "armed q" "timer_ring q = a # r"
  shows "armed (first_removed q a r t)"
  using assms by (auto simp: ring_ok_def armed_def)

lemma first_removed_due:
  assumes "ring_ok q" "timer_ring q = a # r" "time_of q a \<le> unat (elapsed_time q)"
  shows "due (first_removed q a r t) < due q"
proof -
  have "a \<notin> set r" using assms by (auto simp: ring_ok_def)
  then have "{b \<in> set r. ((time_of q)(a := 0)) b \<le> unat (elapsed_time q)} \<subset> {b \<in> set (timer_ring q). time_of q b \<le> unat (elapsed_time q)}"
    using assms(2,3) by auto
  then show ?thesis unfolding due_def time_of_first_removed first_removed_fields by (intro psubset_card_mono) simp_all
qed

lemma advance_step_cons:
  assumes "timer_ring q = a # r" "timers q a = Some t" "timer_proc t = Some f"
  shows "advance_step call (q, w) =
    (if unat (elapsed_time q) < time_of q a then Some (False, q, w)
     else do { (q, w) \<leftarrow> call f a (timer_obj t) (first_removed q a r t, w); Some (timer_ring q \<noteq> [], q, w) })"
  using assms by (simp add: advance_step_def timer_schedule_def first_removed_def time_of_def word_less_nat_alt)

lemma tq_wfI:
  assumes "ring_ok q" "armed q" "timer_ring q = a # r" "unat (elapsed_time q) < time_of q a"
  shows "tq_wf q"
  using assms by (auto simp: tq_wf_def ring_ok_def)

lemma advance_loop_ends:
  assumes "procs_ok call" "ring_ok q" "armed q" "timer_ring q \<noteq> []"
  shows "\<exists>q' w'. advance_loop call (q, w) = Some (Some (q', w')) \<and> tq_wf q' \<and> (reset q \<longrightarrow> reset q')"
  using assms(2-4)
proof (induction "due q" arbitrary: q w rule: less_induct)
  case less
  obtain a r where r: "timer_ring q = a # r" using less.prems(3) by (cases "timer_ring q") auto
  obtain t f where t: "timers q a = Some t" "timer_proc t = Some f" using less.prems(1) r by (auto simp: ring_ok_def)
  note step = advance_step_cons [OF r t, of call w]
  show ?case
  proof (cases "unat (elapsed_time q) < time_of q a")
    case True
    then have "advance_loop call (q, w) = Some (Some (q, w))" using step by (subst advance_loop.simps) simp
    then show ?thesis using tq_wfI [OF less.prems(1,2) r True] by simp
  next
    case False
    let ?p = "first_removed q a r t"
    have ok: "ring_ok ?p" "armed ?p" "due ?p < due q"
      using first_removed_ok [OF less.prems(1) r] first_removed_armed [OF less.prems(1,2) r] first_removed_due [OF less.prems(1) r] False
      by simp_all
    have "timers ?p a \<noteq> None" by simp
    then obtain q1 w1 where c: "call f a (timer_obj t) (?p, w) = Some (q1, w1)" "timer_calls ?p q1"
      using assms(1) ok(1,2) unfolding procs_ok_def by blast
    have s: "tq_step ?p q1" by (rule timer_calls_step [OF c(2) ok(1,2)])
    have loop: "advance_loop call (q, w) = (if timer_ring q1 \<noteq> [] then advance_loop call (q1, w1) else Some (Some (q1, w1)))"
      using step False c(1) by (subst advance_loop.simps) simp
    show ?thesis
    proof (cases "timer_ring q1 = []")
      case True
      then show ?thesis using loop s by (auto simp: tq_wf_def tq_step_def)
    next
      case nonempty: False
      have "due q1 < due q" "ring_ok q1" "armed q1" "reset q \<longrightarrow> reset q1" using s ok(3) by (auto simp: tq_step_def)
      then show ?thesis using less.hyps [of q1 w1] loop nonempty by auto
    qed
  qed
qed

text \<open>Setting the clock back takes the elapsed time from the time of every timer, modulo \<open>2 ^ 32\<close>.\<close>

lemma reschedule_from_last:
  assumes "distinct xs" "\<forall>a \<in> set xs. ts a \<noteq> None"
  shows "reschedule_from_last e xs ts =
    Some (\<lambda>a. if a \<in> set xs then map_option (\<lambda>t. t\<lparr>scheduled_time := scheduled_time t - e\<rparr>) (ts a) else ts a)"
  using assms
proof (induction xs arbitrary: ts)
  case (Cons x xs)
  then obtain t where "ts x = Some t" by auto
  then show ?case using Cons by (auto simp: fun_eq_iff)
qed simp

definition rescheduled :: "('p, 'o) apt_timer_queue \<Rightarrow> ('p, 'o) apt_timer_queue" where
  "rescheduled q = q\<lparr>elapsed_time := 0, timers := (\<lambda>a. if a \<in> set (timer_ring q)
     then map_option (\<lambda>t. t\<lparr>scheduled_time := scheduled_time t - elapsed_time q\<rparr>) (timers q a) else timers q a)\<rparr>"

lemma timers_reschedule:
  assumes "distinct (timer_ring q)" "\<forall>a \<in> set (timer_ring q). timers q a \<noteq> None"
  shows "apt_timers_reschedule q = Some (rescheduled q)"
  using reschedule_from_last [of "rev (timer_ring q)" "timers q" "elapsed_time q"] assms
  by (simp add: apt_timers_reschedule_def rescheduled_def)

lemma rescheduled_time:
  assumes "a \<in> set (timer_ring q)" "timers q a \<noteq> None" "unat (elapsed_time q) \<le> time_of q a"
  shows "time_of (rescheduled q) a = time_of q a - unat (elapsed_time q)"
  using assms by (auto simp: rescheduled_def time_of_def unat_sub word_le_nat_alt)

lemma rescheduled_time_lost:
  assumes "a \<in> set (timer_ring q)" "timers q a \<noteq> None" "time_of q a < unat (elapsed_time q)"
  shows "time_of (rescheduled q) a = 2 ^ 32 - (unat (elapsed_time q) - time_of q a)"
proof -
  obtain t where t: "timers q a = Some t" using assms(2) by auto
  then have "\<not> elapsed_time q \<le> scheduled_time t" using assms(3) by (simp add: time_of_def word_le_nat_alt)
  moreover have "unat (elapsed_time q) < 2 ^ 32" using unsigned_less [of "elapsed_time q"] by simp
  ultimately show ?thesis
    using assms t unat_sub_if_size [of "scheduled_time t" "elapsed_time q"]
    by (simp add: rescheduled_def time_of_def word_le_nat_alt word_size)
qed

lemma rescheduled_fields [simp]:
  "timer_ring (rescheduled q) = timer_ring q" "elapsed_time (rescheduled q) = 0" "reset (rescheduled q) = reset q"
  "a \<notin> set (timer_ring q) \<Longrightarrow> timers (rescheduled q) a = timers q a"
  by (simp_all add: rescheduled_def)

lemma rescheduled_ok:
  assumes "distinct (timer_ring q)" "sorted (map (time_of q) (timer_ring q))"
    and "\<forall>a \<in> set (timer_ring q). \<exists>t f. timers q a = Some t \<and> timer_proc t = Some f"
    and "\<forall>a \<in> set (timer_ring q). unat (elapsed_time q) \<le> time_of q a"
  shows "ring_ok (rescheduled q)"
proof -
  have "time_of (rescheduled q) a = time_of q a - unat (elapsed_time q)" if "a \<in> set (timer_ring q)" for a
    using rescheduled_time [of a q] assms(3,4) that by fastforce
  then have "map (time_of (rescheduled q)) (timer_ring q) = map (\<lambda>n. n - unat (elapsed_time q)) (map (time_of q) (timer_ring q))"
    by simp
  moreover have "sorted (map (\<lambda>n. n - unat (elapsed_time q)) xs)" if "sorted xs" for xs
    using that by (induction xs) auto
  ultimately have "sorted (map (time_of (rescheduled q)) (timer_ring q))" using assms(2) by metis
  moreover have "\<exists>t f. timers (rescheduled q) a = Some t \<and> timer_proc t = Some f" if "a \<in> set (timer_ring q)" for a
    using assms(3) that by (force simp: rescheduled_def)
  ultimately show ?thesis using assms(1) by (simp add: ring_ok_def)
qed

text \<open>
  The clock can be advanced safely if it is not set back by this, or if no timer elapses.
\<close>

definition can_advance :: "('p, 'o) apt_timer_queue \<Rightarrow> u32 \<Rightarrow> bool" where
  "can_advance q d \<longleftrightarrow> unat (elapsed_time q) + unat d < 0xFFFF \<or>
     (\<forall>a \<in> set (timer_ring q). unat (elapsed_time q) + unat d < time_of q a)"

lemma time_of_less: "time_of q a < 2 ^ 32"
proof (cases "timers q a")
  case (Some t)
  then show ?thesis using unsigned_less [of "scheduled_time t"] by (simp add: time_of_def)
qed (simp add: time_of_def)

lemma advanced_clock:
  assumes "unat (elapsed_time q) + unat d \<le> time_of q a \<or> unat (elapsed_time q) + unat d < 0xFFFF"
  shows "unat (elapsed_time q + d) = unat (elapsed_time q) + unat d"
  using assms time_of_less [of q a] unat_add_lem [of "elapsed_time q" d] by auto

lemma advance_ends:
  assumes "procs_ok call" "tq_wf q" "can_advance q d"
  shows "\<exists>q' w'. apt_timer_queue_advance call d (q, w) = Some (Some (q', w')) \<and> tq_wf q' \<and> (reset q \<longrightarrow> reset q')"
proof (cases "timer_ring q = [] \<or> reset q")
  case True
  then show ?thesis using assms(2) by (auto simp: apt_timer_queue_advance_def)
next
  case False
  then obtain a r where r: "timer_ring q = a # r" by (cases "timer_ring q") auto
  let ?e = "elapsed_time q + d"
  let ?q = "q\<lparr>elapsed_time := ?e\<rparr>"
  have e: "unat ?e = unat (elapsed_time q) + unat d"
    using assms(3) r by (intro advanced_clock [of q d a]) (auto simp: can_advance_def)
  have ok: "ring_ok q" "armed q" using assms(2) by (auto simp: tq_wf_def)
  have timers: "\<forall>a \<in> set (timer_ring q). timers q a \<noteq> None" using ok(1) by (auto simp: ring_ok_def)
  show ?thesis
  proof (cases "unat ?e < 0xFFFF")
    case small: True
    then have "ring_ok ?q" "armed ?q" using ok by (simp_all add: ring_ok_def armed_def)
    moreover have "apt_timer_queue_advance call d (q, w) = advance_loop call (?q, w)"
      using False small by (simp add: apt_timer_queue_advance_def word_le_nat_alt Let_def)
    ultimately show ?thesis using advance_loop_ends [OF assms(1), of ?q w] False by auto
  next
    case large: False
    then have late: "\<forall>a \<in> set (timer_ring q). unat ?e < time_of q a" using assms(3) e by (auto simp: can_advance_def)
    have adv: "apt_timer_queue_advance call d (q, w) = advance_loop call (rescheduled ?q, w)"
      using False large timers_reschedule [of ?q] timers ok(1)
      by (simp add: apt_timer_queue_advance_def word_le_nat_alt ring_ok_def)
    have "ring_ok (rescheduled ?q)" using ok(1) late by (intro rescheduled_ok) (auto simp: ring_ok_def less_imp_le)
    moreover have "armed (rescheduled ?q)"
      unfolding armed_def
    proof
      fix b
      show "b \<in> set (timer_ring (rescheduled ?q)) \<longleftrightarrow> 0 < time_of (rescheduled ?q) b"
      proof (cases "b \<in> set (timer_ring q)")
        case True
        then show ?thesis using rescheduled_time [of b ?q] timers late by (auto simp: less_imp_le)
      next
        case notin: False
        then have "time_of (rescheduled ?q) b = time_of q b" by (simp add: time_of_def)
        then show ?thesis using notin ok(2) by (auto simp: armed_def)
      qed
    qed
    ultimately show ?thesis using advance_loop_ends [OF assms(1), of "rescheduled ?q" w] adv False by auto
  qed
qed

section \<open>Reachable states\<close>

inductive timer_reach ::
  "('p \<Rightarrow> nat \<Rightarrow> 'o \<Rightarrow> ('p, 'o) apt_timer_queue \<times> 'w \<Rightarrow> (('p, 'o) apt_timer_queue \<times> 'w) option) \<Rightarrow> ('p, 'o) apt_timer_queue \<Rightarrow> bool"
  for call
where
  reach_create: "timer_reach call apt_timer_queue_create"
| reach_calls: "timer_reach call q \<Longrightarrow> timer_calls q q' \<Longrightarrow> timer_reach call q'"
| reach_timeout: "timer_reach call q \<Longrightarrow> apt_timer_queue_timeout_get q = Some (n, q') \<Longrightarrow> timer_reach call q'"
| reach_advance: "timer_reach call q \<Longrightarrow> can_advance q d \<Longrightarrow> apt_timer_queue_advance call d (q, w) = Some (Some (q', w')) \<Longrightarrow>
    timer_reach call q'"

lemma tq_wf_due: "tq_wf q \<longleftrightarrow> ring_ok q \<and> armed q \<and> due q = 0"
  by (auto simp: tq_wf_def due_def not_le)

lemma tq_wf_calls: "timer_calls q q' \<Longrightarrow> tq_wf q \<Longrightarrow> tq_wf q'"
  using timer_calls_step [of q q'] by (auto simp: tq_wf_due tq_step_def)

lemma timeout_get_state:
  assumes "tq_wf q"
  obtains "timer_ring q = []" "apt_timer_queue_timeout_get q = Some (None, q\<lparr>reset := False\<rparr>)"
  | a r n where "timer_ring q = a # r" "apt_timer_queue_timeout_get q = Some (Some n, q\<lparr>reset := False\<rparr>)"
    "unat n = time_of q a - unat (elapsed_time q)"
proof (cases "timer_ring q")
  case Nil
  then show ?thesis using that(1) by (cases "reset q") (simp_all add: apt_timer_queue_timeout_get_def)
next
  case (Cons a r)
  then obtain t where t: "timers q a = Some t" using assms by (auto simp: tq_wf_def ring_ok_def)
  have "elapsed_time q \<le> scheduled_time t" using assms Cons t by (auto simp: tq_wf_def time_of_def word_le_nat_alt)
  then have "unat (scheduled_time t - elapsed_time q) = time_of q a - unat (elapsed_time q)"
    using t by (simp add: time_of_def unat_sub)
  moreover have "apt_timer_queue_timeout_get q = Some (Some (scheduled_time t - elapsed_time q), q\<lparr>reset := False\<rparr>)"
    using t Cons by (cases "reset q") (simp_all add: apt_timer_queue_timeout_get_def)
  ultimately show ?thesis using that(2) Cons by blast
qed

lemma tq_wf_reset [simp]: "tq_wf (q\<lparr>reset := x\<rparr>) = tq_wf q"
  by (simp add: tq_wf_def ring_ok_def armed_def)

lemma timer_reach_wf:
  assumes "timer_reach call q" "procs_ok call"
  shows "tq_wf q"
  using assms
proof induction
  case reach_create
  show ?case by (simp add: tq_wf_def ring_ok_def armed_def apt_timer_queue_create_def time_of_def)
next
  case (reach_calls q q')
  then show ?case using tq_wf_calls by blast
next
  case (reach_timeout q n q')
  then have "tq_wf q" by simp
  then show ?case by (rule timeout_get_state) (use reach_timeout in auto)
next
  case (reach_advance q d w q' w')
  then show ?case using advance_ends [of call q d w] by auto
qed

section \<open>Timers that elapse\<close>

text \<open>A procedure that notes its timer and may set it again, as those of \<open>mpf_rtp_stream.c\<close> do.\<close>

definition restart_call ::
  "(nat \<Rightarrow> u32 option) \<Rightarrow> 'p \<Rightarrow> nat \<Rightarrow> 'o \<Rightarrow> ('p, 'o) apt_timer_queue \<times> nat list \<Rightarrow> (('p, 'o) apt_timer_queue \<times> nat list) option"
where
  "restart_call restart f a ob st =
     (case st of (q, w) \<Rightarrow>
        (case restart a of None \<Rightarrow> Some (q, w @ [a])
         | Some n \<Rightarrow> do {
             (_, q) \<leftarrow> apt_timer_set q a n;
             Some (q, w @ [a])
           }))"

definition restart_ok :: "(nat \<Rightarrow> u32 option) \<Rightarrow> bool" where
  "restart_ok restart \<longleftrightarrow> (\<forall>a n. restart a = Some n \<longrightarrow> 0 < n \<and> unat n < 2 ^ 32 - 0xFFFF)"

text \<open>The ring during the loop: the elapsed timers first, then the others; a timer outside of the ring has no time.\<close>

definition splits :: "('p, 'o) apt_timer_queue \<Rightarrow> nat list \<Rightarrow> nat list \<Rightarrow> bool" where
  "splits q ds rs \<longleftrightarrow> ring_ok q \<and> timer_ring q = ds @ rs \<and> (\<forall>a \<in> set ds. time_of q a \<le> unat (elapsed_time q)) \<and>
     (\<forall>a \<in> set rs. unat (elapsed_time q) < time_of q a) \<and> (\<forall>a. a \<notin> set (timer_ring q) \<longrightarrow> time_of q a = 0)"

lemma splits_wf: "splits q [] rs \<Longrightarrow> tq_wf q"
  by (auto simp: splits_def tq_wf_def armed_def)

lemma splits_fire:
  assumes "splits q (a # ds) rs" "restart_ok restart"
  obtains q' rs' t f where "timers q a = Some t" "timer_proc t = Some f"
    "restart_call restart f a (timer_obj t) (first_removed q a (ds @ rs) t, w) = Some (q', w @ [a])" "splits q' ds rs'"
    "\<forall>b. remaining q' b = (if b = a then map_option unat (restart a) else remaining q b)"
proof -
  have ring: "timer_ring q = a # (ds @ rs)" and ok: "ring_ok q" using assms(1) by (auto simp: splits_def)
  obtain t f where t: "timers q a = Some t" "timer_proc t = Some f" using ok ring by (auto simp: ring_ok_def)
  let ?p = "first_removed q a (ds @ rs) t"
  have p: "ring_ok ?p" by (rule first_removed_ok [OF ok ring])
  have n: "a \<notin> set ds" "a \<notin> set rs" using ok ring by (auto simp: ring_ok_def)
  have sp: "splits ?p ds rs" using assms(1) p n by (auto simp: splits_def)
  show ?thesis
  proof (cases "restart a")
    case None
    then show ?thesis by (intro that [OF t _ sp]) (use n ring in \<open>auto simp: restart_call_def remaining_def\<close>)
  next
    case (Some m)
    let ?v = "elapsed_time ?p + m"
    have m: "0 < m" "unat m < 2 ^ 32 - 0xFFFF" using assms(2) Some by (auto simp: restart_ok_def)
    have a: "a \<notin> set (timer_ring ?p)" "timers ?p a = Some (t\<lparr>scheduled_time := 0\<rparr>)"
      "timer_proc (t\<lparr>scheduled_time := 0\<rparr>) = Some f" "scheduled_time (t\<lparr>scheduled_time := 0\<rparr>) = 0" using n t by simp_all
    obtain xs ys where r: "timer_ring ?p = xs @ ys" "apt_timer_set ?p a m = Some (True, placed ?p a (t\<lparr>scheduled_time := 0\<rparr>) ?v xs ys)"
      "\<forall>b \<in> set xs. time_of ?p b \<le> unat ?v" "\<forall>b \<in> set ys. unat ?v < time_of ?p b" "unat ?v = unat (elapsed_time ?p) + unat m"
      by (rule timer_set_free [OF p a m])
    let ?q = "placed ?p a (t\<lparr>scheduled_time := 0\<rparr>) ?v xs ys"
    have q: "ring_ok ?q" by (rule placed_ok [OF p r(1) a(1,3) r(3,4)])
    have "set ds \<inter> set ys = {}" using r(4,5) sp by (fastforce simp: splits_def)
    then obtain us where us: "xs = ds @ us" "us @ ys = rs"
      using r(1) by (auto simp: append_eq_append_conv2 Int_Un_distrib Int_Un_distrib2)
    have "0 < unat m" using m(1) by (simp add: word_less_nat_alt)
    then have "splits ?q ds (us @ a # ys)" using q us assms(1) n r(5) by (auto simp: splits_def)
    moreover have "restart_call restart f a (timer_obj t) (?p, w) = Some (?q, w @ [a])" using r(2) Some by (simp add: restart_call_def)
    moreover have "\<forall>b. remaining ?q b = (if b = a then map_option unat (restart a) else remaining q b)"
      using Some r(5) us ring by (auto simp: remaining_def)
    ultimately show ?thesis using that [OF t, of ?q "us @ a # ys"] us by auto
  qed
qed

lemma advance_loop_fires:
  assumes "splits q ds rs" "ds @ rs \<noteq> []" "restart_ok restart"
  shows "\<exists>q'. advance_loop (restart_call restart) (q, w) = Some (Some (q', w @ ds)) \<and> tq_wf q' \<and>
    (\<forall>b. remaining q' b = (if b \<in> set ds then map_option unat (restart b) else remaining q b))"
  using assms(1,2)
proof (induction ds arbitrary: q rs w)
  case Nil
  then obtain a r where r: "timer_ring q = a # r" by (cases rs) (auto simp: splits_def)
  then obtain t f where t: "timers q a = Some t" "timer_proc t = Some f" using Nil by (auto simp: splits_def ring_ok_def)
  have "a \<in> set (timer_ring q)" using r by simp
  then have "unat (elapsed_time q) < time_of q a" using Nil(1) by (simp add: splits_def)
  then have "advance_loop (restart_call restart) (q, w) = Some (Some (q, w))"
    using advance_step_cons [OF r t, of "restart_call restart" w] by (subst advance_loop.simps) simp
  then show ?case using splits_wf [OF Nil(1)] by simp
next
  case (Cons a ds)
  obtain q1 rs1 t f where f: "timers q a = Some t" "timer_proc t = Some f"
    "restart_call restart f a (timer_obj t) (first_removed q a (ds @ rs) t, w) = Some (q1, w @ [a])" "splits q1 ds rs1"
    "\<forall>b. remaining q1 b = (if b = a then map_option unat (restart a) else remaining q b)"
    by (rule splits_fire [OF Cons.prems(1) assms(3), where w = w])
  have ring: "timer_ring q = a # (ds @ rs)" "a \<notin> set ds" "\<not> unat (elapsed_time q) < time_of q a"
    using Cons.prems(1) by (auto simp: splits_def ring_ok_def)
  have loop: "advance_loop (restart_call restart) (q, w) =
    (if timer_ring q1 \<noteq> [] then advance_loop (restart_call restart) (q1, w @ [a]) else Some (Some (q1, w @ [a])))"
    using advance_step_cons [OF ring(1) f(1,2), of "restart_call restart" w] ring(3) f(3) by (subst advance_loop.simps) simp
  show ?case
  proof (cases "ds @ rs1 = []")
    case True
    then have "timer_ring q1 = []" using f(4) by (simp add: splits_def)
    then show ?thesis using loop splits_wf [of q1 rs1] f(4,5) True by auto
  next
    case False
    then have "timer_ring q1 \<noteq> []" using f(4) by (simp add: splits_def)
    then show ?thesis using Cons.IH [OF f(4) False, of "w @ [a]"] loop f(5) ring(2) by auto
  qed
qed

lemma sorted_filter_split:
  fixes f :: "'a \<Rightarrow> nat"
  shows "sorted (map f xs) \<Longrightarrow> filter (\<lambda>x. f x \<le> c) xs @ filter (\<lambda>x. c < f x) xs = xs"
proof (induction xs)
  case (Cons x xs)
  show ?case
  proof (cases "f x \<le> c")
    case False
    then have "\<forall>y \<in> set xs. c < f y" using Cons.prems by auto
    then have "filter (\<lambda>x. f x \<le> c) xs = []" "filter (\<lambda>x. c < f x) xs = xs" by (auto simp: filter_empty_conv)
    then show ?thesis using False by simp
  qed (use Cons in auto)
qed simp

lemma ring_splits:
  assumes "ring_ok q" "\<And>a. a \<notin> set (timer_ring q) \<Longrightarrow> time_of q a = 0"
  shows "splits q (filter (\<lambda>a. time_of q a \<le> unat (elapsed_time q)) (timer_ring q)) (filter (\<lambda>a. unat (elapsed_time q) < time_of q a) (timer_ring q))"
  using assms sorted_filter_split [of "time_of q" "timer_ring q" "unat (elapsed_time q)"] by (auto simp: splits_def ring_ok_def)

text \<open>The queue after the clock has been advanced and, if necessary, set back.\<close>

definition clocked :: "('p, 'o) apt_timer_queue \<Rightarrow> u32 \<Rightarrow> ('p, 'o) apt_timer_queue" where
  "clocked q d =
     (let p = q\<lparr>elapsed_time := elapsed_time q + d\<rparr> in if 0xFFFF \<le> unat (elapsed_time p) then rescheduled p else p)"

lemma advance_clocked:
  assumes "tq_wf q" "timer_ring q \<noteq> []" "\<not> reset q"
  shows "apt_timer_queue_advance call d (q, w) = advance_loop call (clocked q d, w)"
proof -
  have "apt_timers_reschedule (q\<lparr>elapsed_time := elapsed_time q + d\<rparr>) = Some (rescheduled (q\<lparr>elapsed_time := elapsed_time q + d\<rparr>))"
    using assms(1) by (intro timers_reschedule) (auto simp: tq_wf_def ring_ok_def)
  then show ?thesis using assms(2,3) by (simp add: apt_timer_queue_advance_def clocked_def Let_def word_le_nat_alt)
qed

text \<open>No timer is overdue when the clock is set back.\<close>

definition none_overdue :: "('p, 'o) apt_timer_queue \<Rightarrow> u32 \<Rightarrow> bool" where
  "none_overdue q d \<longleftrightarrow> unat (elapsed_time q) + unat d < 0xFFFF \<or>
     (\<forall>a \<in> set (timer_ring q). unat (elapsed_time q) + unat d \<le> time_of q a)"

lemma clocked_state:
  assumes "tq_wf q" "timer_ring q \<noteq> []" "none_overdue q d"
  shows "ring_ok (clocked q d)" "timer_ring (clocked q d) = timer_ring q"
    "a \<notin> set (timer_ring q) \<Longrightarrow> time_of (clocked q d) a = 0"
    "a \<in> set (timer_ring q) \<Longrightarrow>
       time_of (clocked q d) a + (unat (elapsed_time q) + unat d) = time_of q a + unat (elapsed_time (clocked q d))"
proof -
  let ?p = "q\<lparr>elapsed_time := elapsed_time q + d\<rparr>"
  obtain b where b: "b \<in> set (timer_ring q)" using assms(2) by (cases "timer_ring q") auto
  have e: "unat (elapsed_time q + d) = unat (elapsed_time q) + unat d"
    using assms(3) b by (intro advanced_clock [of q d b]) (auto simp: none_overdue_def)
  have ok: "ring_ok q" "armed q" using assms(1) by (auto simp: tq_wf_def)
  have late: "\<forall>a \<in> set (timer_ring ?p). unat (elapsed_time ?p) \<le> time_of ?p a" if "\<not> unat (elapsed_time q + d) < 0xFFFF"
    using that assms(3) e by (auto simp: none_overdue_def)
  have zero: "time_of q a = 0" if "a \<notin> set (timer_ring q)" for a using that ok(2) by (auto simp: armed_def)
  show "timer_ring (clocked q d) = timer_ring q" by (simp add: clocked_def Let_def)
  show "ring_ok (clocked q d)"
  proof (cases "unat (elapsed_time q + d) < 0xFFFF")
    case True
    then show ?thesis using ok(1) by (simp add: clocked_def Let_def ring_ok_def)
  next
    case False
    then show ?thesis using ok(1) rescheduled_ok [of ?p] late by (simp add: clocked_def Let_def ring_ok_def)
  qed
  show "time_of (clocked q d) a = 0" if "a \<notin> set (timer_ring q)"
    using that zero [OF that] by (simp add: clocked_def Let_def time_of_def)
  show "time_of (clocked q d) a + (unat (elapsed_time q) + unat d) = time_of q a + unat (elapsed_time (clocked q d))"
    if a: "a \<in> set (timer_ring q)"
  proof (cases "unat (elapsed_time q + d) < 0xFFFF")
    case True
    then show ?thesis using e by (simp add: clocked_def Let_def)
  next
    case False
    have "timers ?p a \<noteq> None" using ok(1) a by (auto simp: ring_ok_def)
    then show ?thesis using rescheduled_time [of a ?p] late [OF False] a e False by (simp add: clocked_def Let_def)
  qed
qed

section \<open>The media engine\<close>

text \<open>The media engine (\<open>libs/mpf/src/mpf_engine.c\<close>) advances its queue at each tick, and never asks it for a timeout.\<close>

definition MPF_TIMER_RESOLUTION :: u32 where "MPF_TIMER_RESOLUTION = 100"

definition mpf_engine_timer_proc ::
  "('p \<Rightarrow> nat \<Rightarrow> 'o \<Rightarrow> ('p, 'o) apt_timer_queue \<times> 'w \<Rightarrow> (('p, 'o) apt_timer_queue \<times> 'w) option) \<Rightarrow>
   ('p, 'o) apt_timer_queue \<times> 'w \<Rightarrow> (('p, 'o) apt_timer_queue \<times> 'w) option option"
where
  "mpf_engine_timer_proc call st = apt_timer_queue_advance call MPF_TIMER_RESOLUTION st"

text \<open>What happens to the queue of a media engine.\<close>

datatype ('p, 'o) engine_event = Timer_created nat "'p option" 'o | Timer_set nat u32 | Timer_killed nat | Tick

fun engine_run ::
  "('p \<Rightarrow> nat \<Rightarrow> 'o \<Rightarrow> ('p, 'o) apt_timer_queue \<times> 'w \<Rightarrow> (('p, 'o) apt_timer_queue \<times> 'w) option) \<Rightarrow>
   ('p, 'o) engine_event list \<Rightarrow> ('p, 'o) apt_timer_queue \<times> 'w \<Rightarrow> (('p, 'o) apt_timer_queue \<times> 'w) option option"
where
  "engine_run call [] st = Some (Some st)"
| "engine_run call (Timer_created a f ob # es) (q, w) = engine_run call es (apt_timer_create q a f ob, w)"
| "engine_run call (Timer_set a n # es) (q, w) =
     (case apt_timer_set q a n of None \<Rightarrow> Some None | Some (_, q) \<Rightarrow> engine_run call es (q, w))"
| "engine_run call (Timer_killed a # es) (q, w) =
     (case apt_timer_kill q a of None \<Rightarrow> Some None | Some (_, q) \<Rightarrow> engine_run call es (q, w))"
| "engine_run call (Tick # es) (q, w) =
     (case mpf_engine_timer_proc call (q, w) of Some (Some st) \<Rightarrow> engine_run call es st | r \<Rightarrow> r)"

lemma reset_remove: "apt_timer_remove q a = Some (b, q') \<Longrightarrow> reset q \<Longrightarrow> reset q'"
  by (auto simp: apt_timer_remove_def timer_schedule_def split: if_splits elim!: bind_eq_SomeE)

lemma reset_insert: "apt_timer_insert q a = Some (b, q') \<Longrightarrow> reset q' = reset q"
  by (auto simp: apt_timer_insert_def split: if_splits elim!: bind_eq_SomeE)

lemma reset_set: "apt_timer_set q a n = Some (b, q') \<Longrightarrow> reset q \<Longrightarrow> reset q'"
  by (auto simp: apt_timer_set_def timer_schedule_def split: if_splits elim!: bind_eq_SomeE) (force dest: reset_insert reset_remove)+

lemma reset_kill: "apt_timer_kill q a = Some (b, q') \<Longrightarrow> reset q \<Longrightarrow> reset q'"
  by (auto simp: apt_timer_kill_def split: if_splits elim!: bind_eq_SomeE dest: reset_remove)

lemma reset_advance: "reset q \<Longrightarrow> apt_timer_queue_advance call d (q, w) = Some (Some (q, w))"
  by (simp add: apt_timer_queue_advance_def)

lemma engine_run_reset:
  assumes "engine_run call es (q, w) = Some (Some (q', w'))" "reset q"
  shows "reset q' \<and> w' = w"
  using assms
proof (induction es arbitrary: q)
  case (Cons e es)
  show ?case
  proof (cases e)
    case (Timer_created a f ob)
    then show ?thesis using Cons.IH [of "apt_timer_create q a f ob"] Cons.prems by (simp add: apt_timer_create_def)
  next
    case (Timer_set a n)
    then show ?thesis using Cons.IH Cons.prems reset_set [of q a n] by (auto split: option.splits prod.splits)
  next
    case (Timer_killed a)
    then show ?thesis using Cons.IH Cons.prems reset_kill [of q a] by (auto split: option.splits prod.splits)
  next
    case Tick
    then show ?thesis using Cons.IH [of q] Cons.prems by (simp add: mpf_engine_timer_proc_def reset_advance)
  qed
qed simp

section \<open>Properties\<close>

text \<open>
  C13: In every state of a queue that is reached by creating, setting and killing timers, asking for the timeout and advancing the
  clock, with procedures that do such things themselves, every timer can be set and killed without a fault; the timeout
  is the time the first timer has left, which is positive and the least of all; and advancing the clock ends without a fault,
  however the procedures set timers again, unless it sets the clock back while a timer is due.
\<close>

theorem timer_queue_safe:
  assumes "procs_ok call" "timer_reach call q"
  shows "(\<forall>a n. timers q a \<noteq> None \<and> unat n < 2 ^ 32 - 0xFFFF \<longrightarrow> apt_timer_set q a n \<noteq> None \<and> apt_timer_kill q a \<noteq> None) \<and>
    (\<exists>n q'. apt_timer_queue_timeout_get q = Some (n, q') \<and> (n = None \<longleftrightarrow> apt_timer_queue_is_empty q) \<and>
       (\<forall>m. n = Some m \<longrightarrow> 0 < m \<and> remaining q (hd (timer_ring q)) = Some (unat m) \<and>
          (\<forall>a k. remaining q a = Some k \<longrightarrow> unat m \<le> k))) \<and>
    (\<forall>d w. can_advance q d \<longrightarrow> (\<exists>q' w'. apt_timer_queue_advance call d (q, w) = Some (Some (q', w')) \<and> timer_reach call q'))"
proof (intro conjI allI impI)
  have wf: "tq_wf q" by (rule timer_reach_wf [OF assms(2,1)])
  then have ok: "ring_ok q" "armed q" by (auto simp: tq_wf_def)
  show "apt_timer_set q a n \<noteq> None" if "timers q a \<noteq> None \<and> unat n < 2 ^ 32 - 0xFFFF" for a n
    using timer_set_step [OF ok, of a n] that by auto
  show "apt_timer_kill q a \<noteq> None" if "timers q a \<noteq> None \<and> unat n < 2 ^ 32 - 0xFFFF" for a n
    using timer_kill_step [OF ok, of a] that by auto
  show "\<exists>q' w'. apt_timer_queue_advance call d (q, w) = Some (Some (q', w')) \<and> timer_reach call q'" if "can_advance q d" for d w
    using advance_ends [OF assms(1) wf that, of w] timer_reach.reach_advance [OF assms(2) that] by blast
  show "\<exists>n q'. apt_timer_queue_timeout_get q = Some (n, q') \<and> (n = None \<longleftrightarrow> apt_timer_queue_is_empty q) \<and>
       (\<forall>m. n = Some m \<longrightarrow> 0 < m \<and> remaining q (hd (timer_ring q)) = Some (unat m) \<and> (\<forall>a k. remaining q a = Some k \<longrightarrow> unat m \<le> k))"
    using wf
  proof (rule timeout_get_state)
    fix a r n
    assume r: "timer_ring q = a # r" "apt_timer_queue_timeout_get q = Some (Some n, q\<lparr>reset := False\<rparr>)"
      "unat n = time_of q a - unat (elapsed_time q)"
    have "0 < n" using wf r(1,3) by (auto simp: tq_wf_def word_less_nat_alt)
    moreover have "\<forall>b \<in> set (timer_ring q). time_of q a \<le> time_of q b" using ok(1) r(1) by (auto simp: ring_ok_def)
    ultimately show ?thesis using r by (auto simp: apt_timer_queue_is_empty_def remaining_def split: if_splits intro: diff_le_mono)
  qed (simp add: apt_timer_queue_is_empty_def)
qed

text \<open>Two timers, one second and two minutes, for the examples.\<close>

definition timer_example :: "(unit, unit) apt_timer_queue" where
  "timer_example = \<lparr>timer_ring = [1, 2], elapsed_time = 0, reset = False,
     timers = (\<lambda>_. None)(1 := Some \<lparr>scheduled_time = 1000, timer_proc = Some (), timer_obj = ()\<rparr>,
                          2 := Some \<lparr>scheduled_time = 120000, timer_proc = Some (), timer_obj = ()\<rparr>)\<rparr>"

lemma restart_procs_ok:
  assumes "restart_ok restart"
  shows "procs_ok (restart_call restart)"
  unfolding procs_ok_def
proof (intro allI impI)
  fix f a ob and q :: "('p, 'o) apt_timer_queue" and w
  assume q: "ring_ok q" "armed q" "timers q a \<noteq> None"
  show "\<exists>q' w'. restart_call restart f a ob (q, w) = Some (q', w') \<and> timer_calls q q'"
  proof (cases "restart a")
    case None
    then show ?thesis by (simp add: restart_call_def calls_none)
  next
    case (Some n)
    then have n: "unat n < 2 ^ 32 - 0xFFFF" using assms by (simp add: restart_ok_def)
    then obtain b q' where "apt_timer_set q a n = Some (b, q')" using timer_set_step [OF q n] by blast
    then show ?thesis using Some calls_set [OF calls_none n] by (auto simp: restart_call_def)
  qed
qed

lemma timer_example_reach: "timer_reach call timer_example"
proof -
  let ?q1 = "apt_timer_create (apt_timer_create apt_timer_queue_create 1 (Some ()) ()) 2 (Some ()) ()"
  have "timer_calls apt_timer_queue_create ?q1"
    by (intro calls_create calls_none) (simp_all add: apt_timer_queue_create_def apt_timer_create_def)
  moreover obtain q2 where q2: "apt_timer_set ?q1 1 1000 = Some (True, q2)" "apt_timer_set q2 2 120000 = Some (True, timer_example)"
    by (simp add: apt_timer_queue_create_def apt_timer_create_def apt_timer_set_def timer_schedule_def apt_timer_insert_def
      timer_example_def fun_upd_twist)
  ultimately have "timer_calls apt_timer_queue_create timer_example"
    by (intro calls_set [OF calls_set [OF _ _ q2(1)] _ q2(2)]) simp_all
  then show ?thesis by (rule reach_calls [OF reach_create])
qed

lemma timer_example_wf: "tq_wf timer_example"
  by (simp add: tq_wf_def ring_ok_def armed_def timer_example_def time_of_def)

theorem timer_queue_safe_witness:
  "\<exists>n q' w'. apt_timer_queue_timeout_get timer_example = Some (Some n, timer_example) \<and> 0 < n \<and>
    apt_timer_queue_advance (restart_call (\<lambda>_. Some 1000)) 1000 (timer_example, []) = Some (Some (q', w'))"
proof -
  have "procs_ok (restart_call (\<lambda>_. Some 1000) :: unit \<Rightarrow> nat \<Rightarrow> unit \<Rightarrow> _)" by (intro restart_procs_ok) (simp add: restart_ok_def)
  note safe = timer_queue_safe [OF this timer_example_reach]
  have "can_advance timer_example 1000" by (simp add: can_advance_def timer_example_def)
  moreover have "apt_timer_queue_timeout_get timer_example = Some (Some 1000, timer_example)"
    by (simp add: apt_timer_queue_timeout_get_def timer_example_def)
  ultimately show ?thesis using safe by fastforce
qed

text \<open>
  C12: Advancing the clock calls exactly the timers whose time has come, in the order in which they elapse; every other timer has
  then so much less time left; a timer whose procedure sets it again has its full time left; and the queue is in order
  again. This holds when the clock is set back as well, provided no timer is overdue at that moment.
\<close>

theorem timers_fire_in_order:
  assumes "tq_wf q" "\<not> reset q" "none_overdue q d" "restart_ok restart"
  shows "\<exists>q'. apt_timer_queue_advance (restart_call restart) d (q, w) =
      Some (Some (q', w @ filter (\<lambda>a. the (remaining q a) \<le> unat d) (timer_ring q))) \<and> tq_wf q' \<and>
    (\<forall>a. remaining q' a = (case remaining q a of None \<Rightarrow> None
       | Some n \<Rightarrow> if n \<le> unat d then map_option unat (restart a) else Some (n - unat d)))"
proof (cases "timer_ring q = []")
  case True
  then show ?thesis using assms(1) by (simp add: apt_timer_queue_advance_def remaining_def)
next
  case False
  let ?c = "clocked q d"
  let ?P = "\<lambda>a. time_of ?c a \<le> unat (elapsed_time ?c)"
  note c = clocked_state [OF assms(1) False assms(3)]
  have late: "unat (elapsed_time q) < time_of q a" if "a \<in> set (timer_ring q)" for a using assms(1) that by (simp add: tq_wf_def)
  have P: "?P a \<longleftrightarrow> the (remaining q a) \<le> unat d" if "a \<in> set (timer_ring q)" for a
    using c(4) [OF that] late [OF that] that unfolding remaining_def by auto
  have rem: "remaining ?c a = Some (the (remaining q a) - unat d)" if "a \<in> set (timer_ring q)" "\<not> ?P a" for a
    using c(4) [OF that(1)] late [OF that(1)] that unfolding remaining_def c(2) by auto
  let ?D = "filter ?P (timer_ring ?c)"
  have D: "?D = filter (\<lambda>a. the (remaining q a) \<le> unat d) (timer_ring q)" unfolding c(2) by (rule filter_cong [OF refl P])
  have "splits ?c ?D (filter (\<lambda>a. unat (elapsed_time ?c) < time_of ?c a) (timer_ring ?c))"
    by (rule ring_splits [OF c(1)]) (simp add: c(2,3))
  moreover from this have "?D @ filter (\<lambda>a. unat (elapsed_time ?c) < time_of ?c a) (timer_ring ?c) \<noteq> []"
    using False c(2) by (simp add: splits_def)
  ultimately obtain q' where q': "advance_loop (restart_call restart) (?c, w) = Some (Some (q', w @ ?D))" "tq_wf q'"
    "\<forall>b. remaining q' b = (if b \<in> set ?D then map_option unat (restart b) else remaining ?c b)"
    using advance_loop_fires [OF _ _ assms(4), of ?c ?D _ w] by blast
  have "remaining q' a = (case remaining q a of None \<Rightarrow> None
       | Some n \<Rightarrow> if n \<le> unat d then map_option unat (restart a) else Some (n - unat d))" for a
  proof (cases "a \<in> set (timer_ring q)")
    case True
    then have "remaining q a = Some (the (remaining q a))" by (simp add: remaining_def)
    then show ?thesis using q'(3) P [OF True] rem [OF True] True by (cases "?P a") (auto simp: c(2) split: option.split)
  next
    case notin: False
    then show ?thesis using q'(3) by (simp add: remaining_def c(2))
  qed
  then show ?thesis using q'(1,2) D advance_clocked [OF assms(1) False assms(2), of "restart_call restart" d w] by auto
qed

theorem timers_fire_in_order_witness:
  "\<exists>q'. apt_timer_queue_advance (restart_call (\<lambda>a. if a = 1 then Some 500 else None)) 1500 (timer_example, []) = Some (Some (q', [1])) \<and>
    remaining q' 1 = Some 500 \<and> remaining q' 2 = Some 118500"
proof -
  have "\<not> reset timer_example" "none_overdue timer_example 1500" "restart_ok (\<lambda>a. if a = 1 then Some 500 else None)"
    by (simp_all add: timer_example_def none_overdue_def restart_ok_def)
  from timers_fire_in_order [OF timer_example_wf this, of "[]"]
  show ?thesis by (force simp: timer_example_def remaining_def time_of_def)
qed

text \<open>
  C29: When the clock is set back, which happens when it passes 65535 milliseconds, and the first timer is overdue by a millisecond or
  more, no timer at all is called: the time of the first timer wraps, it stays the first one, and the queue asks to wait for
  it for more than 49 days, \<open>2 ^ 32\<close> milliseconds less the delay.
\<close>

theorem overdue_timer_lost:
  assumes "tq_wf q" "\<not> reset q" "timer_ring q = a # r" "time_of q a < unat (elapsed_time q) + unat d"
    and "0xFFFF \<le> unat (elapsed_time q) + unat d" "unat (elapsed_time q) + unat d < 2 ^ 32"
  shows "\<exists>q' n. apt_timer_queue_advance call d (q, w) = Some (Some (q', w)) \<and> timer_ring q' = timer_ring q \<and>
    apt_timer_queue_timeout_get q' = Some (Some n, q') \<and> unat n = 2 ^ 32 - (unat (elapsed_time q) + unat d - time_of q a)"
proof -
  let ?p = "q\<lparr>elapsed_time := elapsed_time q + d\<rparr>"
  let ?q = "rescheduled ?p"
  have e: "unat (elapsed_time q + d) = unat (elapsed_time q) + unat d"
    using assms(6) unat_add_lem [of "elapsed_time q" d] by simp
  obtain t f where t: "timers q a = Some t" "timer_proc t = Some f" using assms(1,3) by (auto simp: tq_wf_def ring_ok_def)
  have time: "time_of ?q a = 2 ^ 32 - (unat (elapsed_time q) + unat d - time_of q a)"
    using rescheduled_time_lost [of a ?p] assms(3,4) t e by simp
  obtain u where u: "timers ?q a = Some u" "timer_proc u = Some f" using t assms(3) by (auto simp: rescheduled_def)
  have "0 < time_of ?q a" using time assms(6) by simp
  then have loop: "advance_loop call (?q, w) = Some (Some (?q, w))"
    using advance_step_cons [of ?q a r u f call w] assms(3) u by (subst advance_loop.simps) simp
  have "clocked q d = ?q" using assms(5) e by (simp add: clocked_def)
  then have "apt_timer_queue_advance call d (q, w) = Some (Some (?q, w))"
    using advance_clocked [OF assms(1) _ assms(2), of call d w] assms(3) loop by simp
  moreover have "apt_timer_queue_timeout_get ?q = Some (Some (scheduled_time u), ?q)"
    using assms(2,3) u by (simp add: apt_timer_queue_timeout_get_def)
  moreover have "unat (scheduled_time u) = time_of ?q a" using u by (simp add: time_of_def)
  ultimately show ?thesis using time by (intro exI [of _ ?q] exI [of _ "scheduled_time u"]) simp
qed

theorem overdue_timer_lost_witness:
  "\<exists>q' n. apt_timer_queue_advance (restart_call (\<lambda>_. None)) 70000 (timer_example, []) = Some (Some (q', [])) \<and>
    apt_timer_queue_timeout_get q' = Some (Some n, q') \<and> unat n = 2 ^ 32 - 69000"
proof -
  have "\<not> reset timer_example" "timer_ring timer_example = 1 # [2]" "time_of timer_example 1 < unat (elapsed_time timer_example) + unat (70000 :: u32)"
    "0xFFFF \<le> unat (elapsed_time timer_example) + unat (70000 :: u32)" "unat (elapsed_time timer_example) + unat (70000 :: u32) < 2 ^ 32"
    by (simp_all add: timer_example_def time_of_def)
  from overdue_timer_lost [OF timer_example_wf this, of "restart_call (\<lambda>_. None)" "[]"]
  show ?thesis by (simp add: timer_example_def time_of_def) blast
qed

text \<open>
  C28: Once the only timer of the queue of a media engine has been killed, no timer of this engine is ever called again: whatever
  timers are created, set and killed afterwards and however often the engine ticks, the queue stays in the state in which the
  next tick is ignored, since the engine never asks for a timeout.
\<close>

theorem engine_timers_stop:
  assumes "apt_timer_kill q a = Some (True, q1)" "apt_timer_queue_is_empty q1"
    and "engine_run call es (q1, w) = Some (Some (q2, w2))"
  shows "w2 = w \<and> mpf_engine_timer_proc call (q2, w2) = Some (Some (q2, w2))"
proof -
  have "reset q1"
    using assms(1,2) by (auto simp: apt_timer_kill_def apt_timer_remove_def timer_schedule_def apt_timer_queue_is_empty_def
      split: if_splits elim!: bind_eq_SomeE)
  from engine_run_reset [OF assms(3) this] show ?thesis by (simp add: mpf_engine_timer_proc_def reset_advance)
qed

theorem engine_timers_stop_witness:
  "\<exists>q0 q1 q2. apt_timer_kill timer_example 2 = Some (True, q0) \<and> apt_timer_kill q0 1 = Some (True, q1) \<and>
    engine_run (restart_call (\<lambda>_. None)) (Timer_set 1 100 # replicate 3 Tick) (q1, []) = Some (Some (q2, [])) \<and>
    timer_ring q2 = [1] \<and> mpf_engine_timer_proc (restart_call (\<lambda>_. None)) (q2, []) = Some (Some (q2, []))"
proof -
  obtain q0 q1 where q1: "apt_timer_kill timer_example 2 = Some (True, q0)" "apt_timer_kill q0 1 = Some (True, q1)"
      "apt_timer_queue_is_empty q1" "reset q1"
      "timers q1 1 = Some \<lparr>scheduled_time = 0, timer_proc = Some (), timer_obj = ()\<rparr>" "timer_ring q1 = []"
    by (simp add: apt_timer_kill_def apt_timer_remove_def timer_schedule_def apt_timer_queue_is_empty_def timer_example_def)
  then obtain q2 where q2: "engine_run (restart_call (\<lambda>_. None)) (Timer_set 1 100 # replicate 3 Tick) (q1, []) = Some (Some (q2, []))"
    "timer_ring q2 = [1]"
    by (simp add: apt_timer_set_def timer_schedule_def mpf_engine_timer_proc_def reset_advance numeral_3_eq_3)
  from engine_timers_stop [OF q1(2,3) q2(1)] q1 q2 show ?thesis by blast
qed

end
