(* ===== verification/Spec2Isabelle.thy ===== *)
theory Spec2Isabelle
  imports Apt_Cyclic_Queue Mrcp_Recog_State_Machine Mrcp_Synth_State_Machine Mrcp_Verifier_State_Machine
    Mrcp_Recorder_State_Machine Mrcp_Receive_Safety Mrcp_Invalid_Message Apt_Timer_Queue
begin

text \<open>
  A verification library for the MRCP stack of the repository: the text layer of \<open>libs/apr-toolkit\<close>, the messages of
  \<open>libs/mrcp/message\<close>, the resources of \<open>libs/mrcp/resources\<close>, the stream of messages and the factory of resources of
  \<open>libs/mrcp/control\<close>, sending and receiving of \<open>libs/mrcpv2-transport\<close> and the state machines of \<open>libs/mrcp-engine\<close>.

  \<^bold>\<open>The program.\<close> A server reads MRCP messages from a connection, whose bytes arrive in pieces of any size: a start line, a section of header fields and a
  body. Each header field is stored twice, as text in the header section and as a value in the data of the generic header
  or of the header of the resource (recognizer, synthesizer, recorder, verifier), to which a table of functions, the
  accessor, gives access. A message is then handed to the state machine of its resource. The machine decides whether a
  request of the client goes to the engine, waits in a queue or is answered at once, and whether a response or an event of
  the engine goes to the client. Answers are generated as text by the same layers in the opposite direction.

  \<^bold>\<open>The theories\<close>, in the order of their imports:

  \<^item> \<open>Apt_Prelude\<close> and \<open>Fifo_Queue\<close>: types, generic lemmas, and the locale of a first-in first-out queue, in which any
    sequence of pushes and pops is related to the same sequence on a list.
  \<^item> \<open>Apt_Cyclic_Queue\<close> (\<open>apt_cyclic_queue.c\<close>): the ring buffer as a record with its cells; push, pop, growth, clear. It
    interprets the locale of queues. A write outside the array is a fault.
  \<^item> \<open>Apt_Timer_Queue\<close> (\<open>apt_timer_queue.c\<close>, and the tick of \<open>mpf_engine.c\<close>): timers with addresses in a ring ordered by
    time, on a 32-bit clock. The procedures of the timers are a parameter that may use the queue again.
  \<^item> \<open>Apt_String\<close> (\<open>apt_string.h\<close>, \<open>apt_string_table.c\<close>, and the C functions used on characters and numbers): comparison
    without case, the search in a table with its key character, decimal numbers. The number formatting of APR is the
    parameter \<open>apr_fmt\<close>, with the hypothesis \<open>apr_fmt_ok\<close> that the documented conversions print decimals.
  \<^item> \<open>Apt_Text_Stream\<close> (\<open>apt_text_stream.c\<close>, \<open>apt_text_stream.h\<close>, \<open>apt_pair.c\<close>): a stream is a memory with the offsets of its
    buffer, its position and its end; writing past the memory is a fault. Lines, header lines, fields, values and lists of
    pairs; round trips between generation and parsing.
  \<^item> \<open>Apt_Header_Section\<close> (\<open>apt_header_field.c\<close>, the header part of \<open>apt_text_message.c\<close>): fields with addresses, the ring
    of fields in text order and the array of fields by identifier, and what each operation keeps of their agreement;
    a generated section is parsed back.
  \<^item> \<open>Mrcp_Start_Line\<close> (\<open>mrcp_start_line.c\<close>): start lines of MRCPv1 and MRCPv2, with the length of an MRCPv2 message that
    counts its own digits and is written afterwards into a reserved place; request identifiers are 32-bit words. Both
    versions round trip.
  \<^item> \<open>Mrcp_Header\<close> and \<open>Mrcp_Message\<close> (\<open>mrcp_header_accessor.c\<close>, \<open>mrcp_generic_header.c\<close>, \<open>mrcp_header.c\<close>,
    \<open>mrcp_message.c\<close>): the table of functions of a header as a record of functions, the generic header, the fields of a
    message, requests, responses, events and their header properties.
  \<^item> \<open>Mrcp_Resource\<close>, \<open>Mrcp_Recog_Resource\<close>, \<open>Mrcp_Synth_Resource\<close>, \<open>Mrcp_Recorder_Resource\<close>, \<open>Mrcp_Verifier_Resource\<close>
    (\<open>mrcp_*_header.c\<close>, \<open>mrcp_*_resource.c\<close>): the data of the header of each resource, its tables of names, and parsing,
    generation and duplication of every field. Floating point numbers are a type parameter with the operations the code
    uses as a record; nothing is assumed of them.
  \<^item> \<open>Mrcp_Header_Wire\<close>: the locale \<open>header_contract\<close> of a header whose fields are parsed back from what was generated,
    which the header of each resource interprets; receiving a header is the same as inheriting it in memory.
  \<^item> \<open>Mrcp_Resource_Factory\<close> and \<open>Mrcp_Resource_Loader\<close> (\<open>mrcp_resource_factory.c\<close>, \<open>mrcp_resource_loader.c\<close>): the array of
    resources by identifier and the hash table of resources by name, which is a parameter \<open>apr_hash_ops\<close> with the
    hypothesis \<open>apr_hash_ok\<close>; the header data of the four resources, \<open>void *\<close> in the code, are tagged with their resource.
  \<^item> \<open>Apt_Text_Message\<close> (the rest of \<open>apt_text_message.c\<close>): the parser and the generator of messages as records with their
    stage and their handlers, \<open>apt_message_parser_run\<close> and \<open>apt_message_generator_run\<close>. \<open>Apt_Message_Segments\<close> shows what a
    run on a piece of a message leaves for the next run, a cut between CR and LF included, and \<open>Apt_Message_Safety\<close>
    when a run faults.
  \<^item> \<open>Mrcp_Stream\<close> (\<open>mrcp_stream.c\<close>): the handlers that make these two a parser and a generator of MRCP messages.
  \<^item> \<open>Mrcp_Connection\<close> (\<open>mrcp_server_connection.c\<close>, and the same code in \<open>mrcp_client_connection.c\<close>): the loop that sends a
    message through the transmit buffer, and the handler of a signal of the poller with the loop that takes messages from
    the receive buffer. The socket operations are parameters with the hypotheses \<open>apr_socket_send_ok\<close> and
    \<open>apr_socket_recv_ok\<close>: bytes arrive in order, in pieces of any size.
  \<^item> \<open>Mrcp_Segments\<close> and \<open>Mrcp_Delivery\<close>: the composition of all of these from the message of the sender to the message of the
    receiver. \<open>Mrcp_Receive_Safety\<close>: what arbitrary bytes can do to the receiver. \<open>Mrcp_Invalid_Message\<close>: what follows a
    message that is refused.
  \<^item> \<open>Mrcp_State_Machine\<close> (\<open>mrcp_state_machine.h\<close> and the code the four machines share) and \<open>Mrcp_Recog_State_Machine\<close>,
    \<open>Mrcp_Synth_State_Machine\<close>, \<open>Mrcp_Verifier_State_Machine\<close>, \<open>Mrcp_Recorder_State_Machine\<close>
    (\<open>mrcp_*_state_machine.c\<close>): every handler of a request, a response or an event as a function on the record of the
    machine. A handler returns \<^const>\<open>None\<close> when it follows a NULL pointer or calls a callback that is not set. The calls of
    the callbacks are recorded in a log. The locale \<open>state_machine\<close> carries an invariant over all reachable
    states; each machine interprets it.

  \<^bold>\<open>What is shown.\<close> For the text layers: generation followed by parsing gives back what was generated, with the conditions
  on names, values and buffer sizes that this needs, and what happens when they do not hold. For the queue: it refines a
  list. For the transport: a message is delivered exactly once and unchanged however it is cut; the receive loop ends on
  every input, stays inside its buffer and faults exactly on a body length of \<open>2 ^ 64 - 1\<close>, which a peer can cause with
  a Content-Length of -1; a refused message spoils the next one. For the timers: those whose time has come are called in
  order, advancing ends whatever they do, and two ways in which timers are lost. For the state machines: no reachable state faults, under the condition that a response carries the method of the
  request it answers (and, for the synthesizer, that the completion of a SPEAK request does not overtake the response to
  PAUSE, RESUME or CONTROL, a condition that is shown to be necessary); the states mean what they say; requests are
  processed one at a time in order of arrival; a deactivated machine tells the client nothing; deactivation completes.

  \<^bold>\<open>Bounds.\<close> Numbers read with \<open>atol\<close> saturate at 64 bits; request identifiers wrap at 32 bits; sizes are natural numbers,
  with the operations that can wrap written modulo \<open>2 ^ 64\<close>. No fuel is used: the loops over a list or a stream are total
  functions; the loops that send a message, receive messages and call timers are partial functions, whose value is
  \<^const>\<open>None\<close> if they do not end, and are shown to end.

  \<^bold>\<open>What is not modelled.\<close> Allocation (a pool never fails), logging and the verbose mode, threads, the media engine, RTSP
  and SIP signalling, client and server sessions, the plugins and platforms. Of the transport, accepting and closing
  connections, the tables of channels and the task of the agent: the agent is the handler that the receive loop calls. Callbacks are assumed not to change the machine that
  calls them. Messages are values: where the code shares a header between two messages (the internal STOP request of a
  deactivation), the model copies it.
\<close>

end
